(* ===== verification/KY_Prelude.thy ===== *)
theory KY_Prelude
  imports Main
begin

text \<open>
  Shared vocabulary of the development: the Python values that occur in an output row,
  the exceptions the converter can meet, results as sums (\<open>Inl\<close> is a raised exception),
  sequencing and \<^verbatim>\<open>try/except\<close> over results, and the three list operations of
  \<^verbatim>\<open>src/convert_kicad_to_yy1.py\<close> that can raise: \<^verbatim>\<open>list.index\<close>, subscript read and
  subscript assignment. The lemmas are the ones every component theory uses; they are
  simp rules or members of the collections declared here.
\<close>

section \<open>Collections\<close>

named_theorems ky_table \<open>unfolding equations of the constant tables of the converter\<close>
named_theorems ky_len \<open>length facts about rows and tables\<close>

section \<open>Values, exceptions, results\<close>

datatype py_exn =
    ValueError
  | TypeError
  | OverflowError
  | IndexError
  | FileNotFoundError
  | OtherError string

datatype pyval = PStr string | PInt int | PNone

type_synonym 'a res = "py_exn + 'a"
type_synonym row = "string \<rightharpoonup> pyval"
type_synonym cells = "pyval list"

definition rbind :: "'a res \<Rightarrow> ('a \<Rightarrow> 'b res) \<Rightarrow> 'b res" where
  "rbind m f = (case m of Inl e \<Rightarrow> Inl e | Inr x \<Rightarrow> f x)"

definition try_except :: "'a res \<Rightarrow> py_exn \<Rightarrow> 'a res \<Rightarrow> 'a res" where
  "try_except body cls handler =
     (case body of
        Inl e \<Rightarrow> if e = cls then handler else Inl e
      | Inr x \<Rightarrow> Inr x)"

section \<open>List operations that can raise\<close>

fun index_of :: "'a list \<Rightarrow> 'a \<Rightarrow> nat res" where
  "index_of [] x = Inl ValueError"
| "index_of (y # ys) x = (if y = x then Inr 0 else rbind (index_of ys x) (\<lambda>i. Inr (Suc i)))"

definition list_get :: "'a list \<Rightarrow> nat \<Rightarrow> 'a res" where
  "list_get xs i = (if i < length xs then Inr (xs ! i) else Inl IndexError)"

definition list_set :: "'a list \<Rightarrow> nat \<Rightarrow> 'a \<Rightarrow> 'a list res" where
  "list_set xs i v = (if i < length xs then Inr (xs[i := v]) else Inl IndexError)"

section \<open>Sequencing\<close>

lemma rbind_Inl [simp]: "rbind (Inl e) f = Inl e"
  by (simp add: rbind_def)

lemma rbind_Inr [simp]: "rbind (Inr x) f = f x"
  by (simp add: rbind_def)

lemma rbind_Inr_right [simp]: "rbind m Inr = m"
  by (cases m) simp_all

lemma rbind_assoc: "rbind (rbind m f) g = rbind m (\<lambda>x. rbind (f x) g)"
  by (cases m) simp_all

lemma rbind_eq_Inr_iff: "rbind m f = Inr y \<longleftrightarrow> (\<exists>x. m = Inr x \<and> f x = Inr y)"
  by (cases m) simp_all

lemma rbind_eq_Inl_iff:
  "rbind m f = Inl e \<longleftrightarrow> m = Inl e \<or> (\<exists>x. m = Inr x \<and> f x = Inl e)"
  by (cases m) simp_all

lemma try_except_Inr [simp]: "try_except (Inr x) cls h = Inr x"
  by (simp add: try_except_def)

lemma try_except_caught [simp]: "try_except (Inl cls) cls h = h"
  by (simp add: try_except_def)

lemma try_except_other [simp]: "e \<noteq> cls \<Longrightarrow> try_except (Inl e) cls h = Inl e"
  by (simp add: try_except_def)

lemma try_except_never_cls:
  "h \<noteq> Inl cls \<Longrightarrow> try_except body cls h \<noteq> Inl cls"
  by (cases body) (auto simp: try_except_def)

section \<open>\<^verbatim>\<open>list.index\<close>\<close>

lemma index_of_Inr_bound: "index_of xs x = Inr i \<Longrightarrow> i < length xs"
  by (induction xs arbitrary: i) (auto simp: rbind_eq_Inr_iff split: if_splits)

lemma index_of_Inr_nth: "index_of xs x = Inr i \<Longrightarrow> xs ! i = x"
  by (induction xs arbitrary: i) (auto simp: rbind_eq_Inr_iff split: if_splits)

lemma index_of_Inr_first: "index_of xs x = Inr i \<Longrightarrow> x \<notin> set (take i xs)"
  by (induction xs arbitrary: i) (auto simp: rbind_eq_Inr_iff split: if_splits)

lemma index_of_member: "x \<in> set xs \<Longrightarrow> \<exists>i. index_of xs x = Inr i"
  by (induction xs) auto

lemma index_of_not_member: "x \<notin> set xs \<Longrightarrow> index_of xs x = Inl ValueError"
  by (induction xs) auto

lemma index_of_Inl_iff: "index_of xs x = Inl e \<longleftrightarrow> e = ValueError \<and> x \<notin> set xs"
proof
  assume l: "index_of xs x = Inl e"
  then have "x \<notin> set xs"
    using index_of_member [of x xs] by auto
  with l show "e = ValueError \<and> x \<notin> set xs"
    by (simp add: index_of_not_member)
next
  assume "e = ValueError \<and> x \<notin> set xs"
  then show "index_of xs x = Inl e"
    by (simp add: index_of_not_member)
qed

lemma index_of_distinct_nth:
  "distinct xs \<Longrightarrow> i < length xs \<Longrightarrow> index_of xs (xs ! i) = Inr i"
proof (induction xs arbitrary: i)
  case Nil
  then show ?case by simp
next
  case (Cons y ys)
  show ?case
  proof (cases i)
    case 0
    then show ?thesis by simp
  next
    case (Suc j)
    with Cons.prems have "ys ! j \<noteq> y" and "j < length ys" and "distinct ys"
      by auto
    with Cons.IH [of j] Suc show ?thesis by auto
  qed
qed

section \<open>Subscripts\<close>

lemma list_get_in_range [simp]: "i < length xs \<Longrightarrow> list_get xs i = Inr (xs ! i)"
  by (simp add: list_get_def)

lemma list_get_out_of_range [simp]: "length xs \<le> i \<Longrightarrow> list_get xs i = Inl IndexError"
  by (simp add: list_get_def)

lemma list_set_in_range [simp]: "i < length xs \<Longrightarrow> list_set xs i v = Inr (xs[i := v])"
  by (simp add: list_set_def)

lemma list_set_out_of_range [simp]: "length xs \<le> i \<Longrightarrow> list_set xs i v = Inl IndexError"
  by (simp add: list_set_def)

lemma list_set_length: "list_set xs i v = Inr ys \<Longrightarrow> length ys = length xs"
  by (auto simp: list_set_def split: if_splits)

lemma list_set_get: "list_set xs i v = Inr ys \<Longrightarrow> list_get ys i = Inr v"
  by (auto simp: list_set_def split: if_splits)

lemma list_set_get_other:
  "list_set xs i v = Inr ys \<Longrightarrow> j \<noteq> i \<Longrightarrow> list_get ys j = list_get xs j"
  by (auto simp: list_set_def list_get_def split: if_splits)

end
