(* ===== verification/Py_Float.thy ===== *)
theory Py_Float
  imports KY_Prelude "HOL-Library.Log_Nat"
begin

text \<open>
  The conversion \<^verbatim>\<open>int(float(x))\<close> of line 64 of \<^verbatim>\<open>src/convert_kicad_to_yy1.py\<close>, as
  CPython evaluates it on a cell: \<open>py_float\<close> is \<^verbatim>\<open>float(x)\<close> (\<^verbatim>\<open>TypeError\<close> on
  \<^verbatim>\<open>None\<close>; on a string: white space and underscores handled, then \<^verbatim>\<open>inf\<close>,
  \<^verbatim>\<open>infinity\<close>, \<^verbatim>\<open>nan\<close> or a decimal literal, the whole string consumed, else
  \<^verbatim>\<open>ValueError\<close>), \<open>round_to_double\<close> is the correctly rounded binary64 value of a
  decimal (round to nearest, ties to even, overflow to infinity), and \<open>py_int\<close> is
  \<^verbatim>\<open>int(f)\<close> (truncation towards zero, \<^verbatim>\<open>ValueError\<close> on NaN, \<^verbatim>\<open>OverflowError\<close> on an
  infinity). Strings are lists of code points below 256. All definitions compute, so
  concrete conversions are evaluated by the simplifier.
\<close>

section \<open>Floating-point values\<close>

text \<open>\<open>Finite neg m e\<close> is the number \<open>(-1)^neg * m * 2^e\<close>.\<close>

datatype pyfloat = Finite bool nat int | Infinity bool | NaN

section \<open>Characters\<close>

definition is_digit :: "char \<Rightarrow> bool" where
  "is_digit c \<longleftrightarrow> 48 \<le> (of_char c :: nat) \<and> (of_char c :: nat) \<le> 57"

definition digit_val :: "char \<Rightarrow> nat" where
  "digit_val c = of_char c - 48"

definition py_isspace :: "char \<Rightarrow> bool" where
  "py_isspace c \<longleftrightarrow> (9 \<le> (of_char c :: nat) \<and> (of_char c :: nat) \<le> 13) \<or> (of_char c :: nat) = 32"

definition unicode_isspace :: "char \<Rightarrow> bool" where
  "unicode_isspace c \<longleftrightarrow> (of_char c :: nat) = 133 \<or> (of_char c :: nat) = 160"

definition py_tolower :: "char \<Rightarrow> char" where
  "py_tolower c =
     (case map_of (zip ''ABCDEFGHIJKLMNOPQRSTUVWXYZ'' ''abcdefghijklmnopqrstuvwxyz'') c of
        Some l \<Rightarrow> l
      | None \<Rightarrow> c)"

section \<open>Preparing the string\<close>

fun transform_decimal_and_space :: "string \<Rightarrow> string" where
  "transform_decimal_and_space [] = []"
| "transform_decimal_and_space (c # cs) =
     (if (of_char c :: nat) \<le> 127 then c # transform_decimal_and_space cs
      else if unicode_isspace c then CHR '' '' # transform_decimal_and_space cs
      else ''?'')"

fun strip_underscores_from :: "char \<Rightarrow> string \<Rightarrow> string option" where
  "strip_underscores_from prev [] = (if prev = CHR ''_'' then None else Some [])"
| "strip_underscores_from prev (c # cs) =
     (if c = CHR ''_''
      then (if is_digit prev then strip_underscores_from c cs else None)
      else if prev = CHR ''_'' \<and> \<not> is_digit c then None
      else map_option ((#) c) (strip_underscores_from c cs))"

definition strip_underscores :: "string \<Rightarrow> string option" where
  "strip_underscores s =
     (if CHR ''_'' \<in> set s then strip_underscores_from (CHR 0x00) s else Some s)"

definition strip_leading :: "string \<Rightarrow> string" where
  "strip_leading s = dropWhile py_isspace s"

fun drop_trailing_rev :: "string \<Rightarrow> string" where
  "drop_trailing_rev (c # d # cs) =
     (if py_isspace c then drop_trailing_rev (d # cs) else c # d # cs)"
| "drop_trailing_rev cs = cs"

definition strip_trailing :: "string \<Rightarrow> string" where
  "strip_trailing s = rev (drop_trailing_rev (rev s))"

section \<open>The grammar\<close>

fun case_insensitive_match :: "string \<Rightarrow> string \<Rightarrow> string option" where
  "case_insensitive_match s [] = Some s"
| "case_insensitive_match [] (t # ts) = None"
| "case_insensitive_match (c # cs) (t # ts) =
     (if py_tolower c = t then case_insensitive_match cs ts else None)"

definition parse_sign :: "string \<Rightarrow> bool \<times> string" where
  "parse_sign s =
     (case s of
        [] \<Rightarrow> (False, s)
      | c # cs \<Rightarrow> if c = CHR ''-'' then (True, cs) else if c = CHR ''+'' then (False, cs)
                 else (False, s))"

definition parse_inf_or_nan :: "string \<Rightarrow> (pyfloat \<times> string) option" where
  "parse_inf_or_nan p =
     (case parse_sign p of (neg, s) \<Rightarrow>
        (case case_insensitive_match s ''inf'' of
           Some s1 \<Rightarrow>
             (case case_insensitive_match s1 ''inity'' of
                Some s2 \<Rightarrow> Some (Infinity neg, s2)
              | None \<Rightarrow> Some (Infinity neg, s1))
         | None \<Rightarrow>
             (case case_insensitive_match s ''nan'' of
                Some s1 \<Rightarrow> Some (NaN, s1)
              | None \<Rightarrow> None)))"

definition digits_value :: "string \<Rightarrow> nat" where
  "digits_value ds = foldl (\<lambda>a c. 10 * a + digit_val c) 0 ds"

definition parse_exponent :: "string \<Rightarrow> int \<times> string" where
  "parse_exponent s =
     (case s of
        [] \<Rightarrow> (0, s)
      | c # cs \<Rightarrow>
          if c = CHR ''e'' \<or> c = CHR ''E''
          then (case parse_sign cs of (neg, s1) \<Rightarrow>
                  if takeWhile is_digit s1 = [] then (0, s)
                  else ((if neg then - int (digits_value (takeWhile is_digit s1))
                         else int (digits_value (takeWhile is_digit s1))),
                        dropWhile is_digit s1))
          else (0, s))"

definition parse_fraction :: "string \<Rightarrow> string \<times> string" where
  "parse_fraction s =
     (case s of
        [] \<Rightarrow> ([], s)
      | c # cs \<Rightarrow> if c = CHR ''.'' then (takeWhile is_digit cs, dropWhile is_digit cs)
                 else ([], s))"

text \<open>
  A decimal literal is read as \<open>((neg, D, E), rest)\<close>: sign, the integer \<open>D\<close> written by all
  its digits, and the power of ten \<open>E\<close> that remains after the fraction digits are moved
  into \<open>D\<close>; its value is \<open>(-1)^neg * D * 10^E\<close>.
\<close>

definition parse_decimal :: "string \<Rightarrow> ((bool \<times> nat \<times> int) \<times> string) option" where
  "parse_decimal p =
     (case parse_sign p of (neg, s) \<Rightarrow>
        (case parse_fraction (dropWhile is_digit s) of (fp, s2) \<Rightarrow>
           if takeWhile is_digit s = [] \<and> fp = [] then None
           else (case parse_exponent s2 of (ex, s3) \<Rightarrow>
                   Some ((neg, digits_value (takeWhile is_digit s @ fp), ex - int (length fp)),
                         s3))))"

section \<open>Rounding to binary64\<close>

definition round_half_even :: "nat \<Rightarrow> nat \<Rightarrow> nat" where
  "round_half_even n d =
     (if 2 * (n mod d) < d then n div d
      else if d < 2 * (n mod d) then n div d + 1
      else if even (n div d) then n div d else n div d + 1)"

text \<open>\<open>scaled n d k\<close> is the fraction \<open>n / (d * 2^k)\<close> as numerator and denominator.\<close>

definition scaled :: "nat \<Rightarrow> nat \<Rightarrow> int \<Rightarrow> nat \<times> nat" where
  "scaled n d k = (if 0 \<le> k then (n, d * 2 ^ nat k) else (n * 2 ^ nat (- k), d))"

definition binade :: "nat \<Rightarrow> nat \<Rightarrow> int" where
  "binade n d =
     (let k0 = int (floorlog 2 n) - int (floorlog 2 d) - 53
      in if 2 ^ 53 * snd (scaled n d k0) \<le> fst (scaled n d k0) then k0 + 1 else k0)"

text \<open>
  \<open>round_to_double n d\<close> is the binary64 number nearest to \<open>n / d\<close> (for \<open>d > 0\<close>), as
  \<open>Some (m, e)\<close> with value \<open>m * 2^e\<close>, \<open>m \<le> 2^53\<close> and \<open>e \<ge> -1074\<close>, or \<open>None\<close> when the
  rounded value is beyond the largest finite double.
\<close>

definition round_to_double :: "nat \<Rightarrow> nat \<Rightarrow> (nat \<times> int) option" where
  "round_to_double n d =
     (if n = 0 then Some (0, 0)
      else (let k = max (binade n d) (- 1074);
                m = round_half_even (fst (scaled n d k)) (snd (scaled n d k))
            in if 971 < k \<or> (k = 971 \<and> 2 ^ 53 \<le> m) then None else Some (m, k)))"

definition float_of_decimal :: "bool \<Rightarrow> nat \<Rightarrow> int \<Rightarrow> pyfloat" where
  "float_of_decimal neg D E =
     (case (if 0 \<le> E then round_to_double (D * 10 ^ nat E) 1
            else round_to_double D (10 ^ nat (- E))) of
        None \<Rightarrow> Infinity neg
      | Some (m, e) \<Rightarrow> Finite neg m e)"

section \<open>\<^verbatim>\<open>float\<close> and \<^verbatim>\<open>int\<close>\<close>

definition string_to_double :: "string \<Rightarrow> (pyfloat \<times> string) option" where
  "string_to_double s =
     (case parse_inf_or_nan s of
        Some r \<Rightarrow> Some r
      | None \<Rightarrow>
          (case parse_decimal s of
             None \<Rightarrow> None
           | Some ((neg, D, E), rest) \<Rightarrow> Some (float_of_decimal neg D E, rest)))"

definition float_from_string :: "string \<Rightarrow> pyfloat res" where
  "float_from_string s =
     (case strip_underscores (transform_decimal_and_space s) of
        None \<Rightarrow> Inl ValueError
      | Some u \<Rightarrow>
          if strip_leading u = [] then Inl ValueError
          else (case string_to_double (strip_trailing (strip_leading u)) of
                  None \<Rightarrow> Inl ValueError
                | Some (x, rest) \<Rightarrow> if rest = [] then Inr x else Inl ValueError))"

definition float_from_int :: "int \<Rightarrow> pyfloat res" where
  "float_from_int n =
     (case round_to_double (nat \<bar>n\<bar>) 1 of
        None \<Rightarrow> Inl OverflowError
      | Some (m, e) \<Rightarrow> Inr (Finite (n < 0) m e))"

definition py_float :: "pyval \<Rightarrow> pyfloat res" where
  "py_float v =
     (case v of
        PStr s \<Rightarrow> float_from_string s
      | PInt n \<Rightarrow> float_from_int n
      | PNone \<Rightarrow> Inl TypeError)"

definition trunc_mag :: "nat \<Rightarrow> int \<Rightarrow> int" where
  "trunc_mag m e = (if 0 \<le> e then int m * 2 ^ nat e else int m div 2 ^ nat (- e))"

definition py_int :: "pyfloat \<Rightarrow> int res" where
  "py_int f =
     (case f of
        NaN \<Rightarrow> Inl ValueError
      | Infinity neg \<Rightarrow> Inl OverflowError
      | Finite neg m e \<Rightarrow> Inr (if neg then - trunc_mag m e else trunc_mag m e))"

definition int_of_float :: "pyval \<Rightarrow> int res" where
  "int_of_float v = rbind (py_float v) py_int"

section \<open>Evaluation\<close>

lemmas py_char_defs =
  is_digit_def digit_val_def py_isspace_def unicode_isspace_def py_tolower_def

lemmas py_parse_defs =
  strip_underscores_def strip_leading_def strip_trailing_def parse_sign_def
  parse_inf_or_nan_def digits_value_def parse_exponent_def parse_fraction_def
  parse_decimal_def string_to_double_def float_from_string_def

lemmas py_round_defs =
  round_half_even_def scaled_def binade_def round_to_double_def float_of_decimal_def
  compute_floorlog

lemmas py_float_eval =
  py_char_defs py_parse_defs py_round_defs float_from_int_def py_float_def trunc_mag_def
  py_int_def int_of_float_def

section \<open>Type errors and the empty string\<close>

lemma py_float_None [simp]: "py_float PNone = Inl TypeError"
  by (simp add: py_float_def)

lemma int_of_float_None [simp]: "int_of_float PNone = Inl TypeError"
  by (simp add: int_of_float_def)

lemma float_from_string_Nil [simp]: "float_from_string [] = Inl ValueError"
  by (simp add: py_parse_defs)

lemma int_of_float_empty [simp]: "int_of_float (PStr []) = Inl ValueError"
  by (simp add: int_of_float_def py_float_def)

lemma py_int_NaN [simp]: "py_int NaN = Inl ValueError"
  by (simp add: py_int_def)

lemma py_int_Infinity [simp]: "py_int (Infinity neg) = Inl OverflowError"
  by (simp add: py_int_def)

lemma float_from_string_Inl: "float_from_string s = Inl e \<Longrightarrow> e = ValueError"
  by (auto simp: float_from_string_def split: option.splits if_splits prod.splits)

lemma float_from_int_Inl: "float_from_int n = Inl e \<Longrightarrow> e = OverflowError"
  by (auto simp: float_from_int_def split: option.splits)

lemma py_float_Inl_cases:
  "py_float v = Inl e \<Longrightarrow> e = ValueError \<or> e = TypeError \<or> e = OverflowError"
  by (cases v) (auto simp: py_float_def dest: float_from_string_Inl float_from_int_Inl)

lemma py_int_Inl_cases: "py_int f = Inl e \<Longrightarrow> e = ValueError \<or> e = OverflowError"
  by (cases f) (auto simp: py_int_def)

lemma int_of_float_Inl_cases:
  "int_of_float v = Inl e \<Longrightarrow> e = ValueError \<or> e = TypeError \<or> e = OverflowError"
  by (auto simp: int_of_float_def rbind_eq_Inl_iff dest: py_float_Inl_cases py_int_Inl_cases)

lemma py_int_Finite [simp]:
  "py_int (Finite neg m e) = Inr (if neg then - trunc_mag m e else trunc_mag m e)"
  by (simp add: py_int_def)

end
