(* ===== verification/Py_Float_Literals.thy ===== *)
theory Py_Float_Literals
  imports Py_Float
begin

text \<open>
  What \<^verbatim>\<open>int(float(s))\<close> returns on the strings a placement file holds in its rotation
  column: an optional sign, decimal digits, optionally a point and more digits. The
  theory shows that rounding to binary64 followed by truncation is integer division
  whenever the digits, read as one integer, are below \<open>2^53\<close>
  (\<open>round_to_double_trunc\<close>), that the grammar reads such a string in full, and hence
  that the result is the integer part as written. No floating-point number is
  evaluated in these proofs: they hold for all such strings.
\<close>

section \<open>The characters of a signed decimal literal\<close>

definition numeric_char :: "char \<Rightarrow> bool" where
  "numeric_char c \<longleftrightarrow> is_digit c \<or> c = CHR ''+'' \<or> c = CHR ''-'' \<or> c = CHR ''.''"

section \<open>Rounding, then truncating\<close>

text \<open>\<open>round_half_even n d\<close> is an integer nearest to \<open>n / d\<close>: it is off by at most a half.\<close>

lemma round_half_even_bounds:
  assumes "0 < d"
  shows "2 * d * round_half_even n d \<le> 2 * n + d \<and> 2 * n \<le> 2 * d * round_half_even n d + d"
proof -
  define q where "q = n div d"
  define r where "r = n mod d"
  have nq: "n = d * q + r" and rd: "r < d"
    using assms by (simp_all add: q_def r_def)
  show ?thesis
    unfolding round_half_even_def q_def [symmetric] r_def [symmetric]
    using rd by (auto simp: nq algebra_simps)
qed

text \<open>
  Rounding \<open>D * P / d\<close> to an integer and dividing by \<open>P\<close> gives \<open>D div d\<close> when the
  rounding step \<open>1 / P\<close> is finer than \<open>2 / d\<close>, or when \<open>D / d\<close> is so far below 1 that
  rounding cannot reach \<open>P\<close>.
\<close>

lemma round_half_even_scaled_lower:
  assumes d: "0 < d"
  shows "P * (D div d) \<le> round_half_even (D * P) d"
proof (rule ccontr)
  define m where "m = round_half_even (D * P) d"
  define I where "I = D div d"
  have b2: "2 * (D * P) \<le> 2 * d * m + d"
    using round_half_even_bounds [OF d, of "D * P"] by (simp add: m_def)
  have dI: "d * I \<le> D" by (simp add: I_def)
  assume "\<not> P * (D div d) \<le> round_half_even (D * P) d"
  then have "m + 1 \<le> P * I" by (simp add: m_def I_def)
  then have "2 * d * (m + 1) \<le> 2 * d * (P * I)" by (rule mult_le_mono2)
  also have "\<dots> = 2 * ((d * I) * P)" by (simp add: algebra_simps)
  also have "\<dots> \<le> 2 * (D * P)" using dI by simp
  also have "\<dots> \<le> 2 * d * m + d" by (rule b2)
  finally show False using d by (simp add: algebra_simps)
qed

lemma round_half_even_scaled_upper:
  assumes d: "0 < d" and c: "d < 2 * P \<or> (2 ^ 53 \<le> P \<and> D < 2 ^ 53)"
  shows "round_half_even (D * P) d < P * Suc (D div d)"
proof (rule ccontr)
  define m where "m = round_half_even (D * P) d"
  define I where "I = D div d"
  have b1: "2 * d * m \<le> 2 * (D * P) + d"
    using round_half_even_bounds [OF d, of "D * P"] by (simp add: m_def)
  have Dd: "D + 1 \<le> d * (I + 1)"
    using dividend_less_times_div [of d D] d by (simp add: I_def algebra_simps)
  assume "\<not> round_half_even (D * P) d < P * Suc (D div d)"
  then have h: "P * (I + 1) \<le> m" by (simp add: m_def I_def)
  have "2 * ((D + 1) * P) \<le> 2 * ((d * (I + 1)) * P)"
    using Dd by (intro mult_le_mono2 mult_le_mono1)
  also have "\<dots> = 2 * d * (P * (I + 1))" by (simp add: algebra_simps)
  also have "\<dots> \<le> 2 * d * m" using h by (rule mult_le_mono2)
  also have "\<dots> \<le> 2 * (D * P) + d" by (rule b1)
  finally have big: "2 * P \<le> d" by (simp add: algebra_simps)
  with c have P53: "2 ^ 53 \<le> P" and D53: "D < 2 ^ 53" by auto
  have "P \<le> P * (I + 1)" by simp
  with h have "P \<le> m" by simp
  then have "2 * d * P \<le> 2 * d * m" by (rule mult_le_mono2)
  also have "\<dots> \<le> 2 * (D * P) + d" by (rule b1)
  also have "\<dots> = D * (2 * P) + d" by simp
  also have "\<dots> \<le> D * d + d" using big by simp
  finally have "d * (2 * P) \<le> d * (D + 1)" by (simp add: algebra_simps)
  then have "0 < d \<longrightarrow> 2 * P \<le> D + 1" by (simp only: mult_le_cancel1)
  with d have "2 * P \<le> D + 1" by blast
  with P53 D53 show False by simp
qed

lemma round_half_even_div:
  assumes d: "0 < d" and c: "d < 2 * P \<or> (2 ^ 53 \<le> P \<and> D < 2 ^ 53)"
  shows "round_half_even (D * P) d div P = D div d"
  using round_half_even_scaled_lower [OF d] round_half_even_scaled_upper [OF d c]
  by (rule div_nat_eqI)

lemma floorlog_2_upper: "0 < d \<Longrightarrow> d < 2 ^ floorlog 2 d"
  using floorlog_bounds [of d 2] by simp

lemma floorlog_2_pos: "0 < d \<Longrightarrow> 0 < floorlog 2 d"
  by (simp add: floorlog_def)

lemma binade_upper: "D < 2 ^ 53 \<Longrightarrow> binade D d \<le> 1 - int (floorlog 2 d)"
proof -
  assume "D < 2 ^ 53"
  then have "floorlog 2 D \<le> 53" by (simp add: floorlog_le_iff)
  then show ?thesis by (simp add: binade_def Let_def)
qed

lemma scaled_nonpos: "k \<le> 0 \<Longrightarrow> scaled n d k = (n * 2 ^ nat (- k), d)"
  by (auto simp: scaled_def)

lemma trunc_mag_nonpos: "k \<le> 0 \<Longrightarrow> trunc_mag m k = int (m div 2 ^ nat (- k))"
  by (cases "k = 0") (auto simp: trunc_mag_def zdiv_int)

text \<open>
  For a fraction \<open>D / d\<close> with \<open>D < 2^53\<close>, the double nearest to it exists (no overflow)
  and truncates to \<open>D div d\<close>: rounding never crosses an integer.
\<close>

lemma round_to_double_trunc:
  assumes d: "0 < d" and D: "D < 2 ^ 53"
  shows "\<exists>m e. round_to_double D d = Some (m, e) \<and> trunc_mag m e = int (D div d)"
proof (cases "D = 0")
  case True
  then show ?thesis by (simp add: round_to_double_def trunc_mag_def)
next
  case False
  define k where "k = max (binade D d) (- 1074)"
  define j where "j = nat (- k)"
  define m where "m = round_half_even (D * 2 ^ j) d"
  have b: "binade D d \<le> 1 - int (floorlog 2 d)" using D by (rule binade_upper)
  have k: "k \<le> 0" using b floorlog_2_pos [OF d] by (simp add: k_def)
  have sc: "scaled D d k = (D * 2 ^ j, d)" using k by (simp add: scaled_nonpos j_def)
  have c: "d < 2 * 2 ^ j \<or> ((2::nat) ^ 53 \<le> 2 ^ j \<and> D < 2 ^ 53)"
  proof (cases "- 1074 \<le> binade D d")
    case True
    then have "floorlog 2 d \<le> j + 1" using b by (simp add: k_def j_def)
    then have "(2::nat) ^ floorlog 2 d \<le> 2 ^ (j + 1)" by (intro power_increasing) simp_all
    with floorlog_2_upper [OF d] show ?thesis by simp
  next
    case False
    then have "j = 1074" by (simp add: k_def j_def)
    then have "(2::nat) ^ 53 \<le> 2 ^ j" by (intro power_increasing) simp_all
    with D show ?thesis by simp
  qed
  have r: "round_to_double D d = Some (m, k)"
    unfolding round_to_double_def Let_def k_def [symmetric] sc fst_conv snd_conv
      m_def [symmetric]
    using \<open>D \<noteq> 0\<close> k by simp
  have "m div 2 ^ j = D div d"
    unfolding m_def using d c by (rule round_half_even_div)
  with k have "trunc_mag m k = int (D div d)"
    by (simp add: trunc_mag_nonpos j_def)
  with r show ?thesis by simp
qed

lemma py_int_float_of_decimal:
  assumes "D < 2 ^ 53"
  shows "py_int (float_of_decimal neg D (- int f)) =
           Inr (if neg then - int (D div 10 ^ f) else int (D div 10 ^ f))"
proof -
  have "\<exists>m e. (if f = 0 then round_to_double D 1 else round_to_double D (10 ^ f)) = Some (m, e)
          \<and> trunc_mag m e = int (D div 10 ^ f)"
    using round_to_double_trunc [of "10 ^ f" D] assms by (cases "f = 0") simp_all
  then obtain m e
    where "(if f = 0 then round_to_double D 1 else round_to_double D (10 ^ f)) = Some (m, e)"
      and "trunc_mag m e = int (D div 10 ^ f)"
    by blast
  then show ?thesis by (cases "f = 0") (simp_all add: float_of_decimal_def)
qed

lemma py_int_float_of_decimal_0:
  "D < 2 ^ 53 \<Longrightarrow> py_int (float_of_decimal neg D 0) = Inr (if neg then - int D else int D)"
  using py_int_float_of_decimal [of D neg 0] by simp

section \<open>Digit strings\<close>

lemma digits_value_Nil [simp]: "digits_value [] = 0"
  by (simp add: digits_value_def)

lemma digits_value_snoc [simp]:
  "digits_value (ds @ [c]) = 10 * digits_value ds + digit_val c"
  by (simp add: digits_value_def)

lemma digits_value_append:
  "digits_value (a @ b) = digits_value a * 10 ^ length b + digits_value b"
proof (induction b rule: rev_induct)
  case Nil
  then show ?case by simp
next
  case (snoc c b)
  have "digits_value (a @ b @ [c]) = 10 * digits_value (a @ b) + digit_val c"
    using digits_value_snoc [of "a @ b" c] by simp
  with snoc show ?case by (simp add: algebra_simps)
qed

lemma digit_val_bound: "is_digit c \<Longrightarrow> digit_val c \<le> 9"
  by (auto simp: is_digit_def digit_val_def)

lemma digits_value_bound: "\<forall>c\<in>set b. is_digit c \<Longrightarrow> digits_value b < 10 ^ length b"
proof (induction b rule: rev_induct)
  case Nil
  then show ?case by simp
next
  case (snoc c b)
  then have "digits_value b < 10 ^ length b" and "digit_val c \<le> 9"
    by (simp_all add: digit_val_bound)
  then show ?case by simp
qed

text \<open>Dropping the fraction digits of a digit string is division by a power of ten.\<close>

lemma digits_value_integer_part:
  assumes "\<forall>c\<in>set fp. is_digit c"
  shows "digits_value (ip @ fp) div 10 ^ length fp = digits_value ip"
  using digits_value_bound [OF assms] by (simp add: digits_value_append)

lemma takeWhile_digits: "\<forall>c\<in>set ds. is_digit c \<Longrightarrow> takeWhile is_digit ds = ds"
  by (simp add: takeWhile_eq_all_conv)

lemma dropWhile_digits: "\<forall>c\<in>set ds. is_digit c \<Longrightarrow> dropWhile is_digit ds = []"
  by simp

lemma not_digit_point [simp]: "\<not> is_digit CHR ''.''"
  by (simp add: is_digit_def)

lemma digit_not_sign:
  assumes "is_digit c"
  shows "c \<noteq> CHR ''+''" and "c \<noteq> CHR ''-''"
  using assms by (auto simp: is_digit_def)

lemmas digits_eval = digits_value_def is_digit_def digit_val_def

section \<open>Strings that need no preparation\<close>

lemma transform_ascii:
  "\<forall>c\<in>set s. (of_char c :: nat) \<le> 127 \<Longrightarrow> transform_decimal_and_space s = s"
  by (induction s) auto

lemma strip_underscores_none: "CHR ''_'' \<notin> set s \<Longrightarrow> strip_underscores s = Some s"
  by (simp add: strip_underscores_def)

lemma strip_trailing_id:
  assumes "s \<noteq> []" and "\<not> py_isspace (last s)"
  shows "strip_trailing s = s"
proof -
  from assms(1) obtain c cs where r: "rev s = c # cs"
    by (cases "rev s") auto
  then have "c = hd (rev s)" by simp
  then have "c = last s" using assms(1) by (simp add: hd_rev)
  with assms(2) have "drop_trailing_rev (c # cs) = c # cs"
    by (cases cs) auto
  with r have "rev (drop_trailing_rev (rev s)) = rev (rev s)" by simp
  then show ?thesis by (simp add: strip_trailing_def)
qed

lemma strip_leading_id: "s \<noteq> [] \<Longrightarrow> \<not> py_isspace (hd s) \<Longrightarrow> strip_leading s = s"
  by (cases s) (auto simp: strip_leading_def)

text \<open>
  On an ASCII string without underscore that neither starts nor ends with white space,
  \<^verbatim>\<open>float\<close> is the grammar applied to the string as it is.
\<close>

lemma float_from_string_clean:
  assumes ascii: "\<forall>c\<in>set s. (of_char c :: nat) \<le> 127"
    and us: "CHR ''_'' \<notin> set s"
    and ne: "s \<noteq> []"
    and hd: "\<not> py_isspace (hd s)"
    and last: "\<not> py_isspace (last s)"
  shows "float_from_string s =
           (case string_to_double s of
              None \<Rightarrow> Inl ValueError
            | Some (x, rest) \<Rightarrow> if rest = [] then Inr x else Inl ValueError)"
  using ne
  by (simp add: float_from_string_def transform_ascii [OF ascii] strip_underscores_none [OF us]
      strip_leading_id [OF ne hd] strip_trailing_id [OF ne last])

lemma numeric_char_props:
  assumes "numeric_char c"
  shows "(of_char c :: nat) \<le> 127" and "c \<noteq> CHR ''_''" and "\<not> py_isspace c"
  using assms by (auto simp: numeric_char_def is_digit_def py_isspace_def)

lemma sign_numeric: "sg \<in> {[], ''+'', ''-''} \<Longrightarrow> \<forall>c\<in>set sg. numeric_char c"
  by (auto simp: numeric_char_def)

lemma digits_numeric: "\<forall>c\<in>set ds. is_digit c \<Longrightarrow> \<forall>c\<in>set ds. numeric_char c"
  by (simp add: numeric_char_def)

lemma float_from_string_numeric:
  assumes ne: "s \<noteq> []" and num: "\<forall>c\<in>set s. numeric_char c"
  shows "float_from_string s =
           (case string_to_double s of
              None \<Rightarrow> Inl ValueError
            | Some (x, rest) \<Rightarrow> if rest = [] then Inr x else Inl ValueError)"
proof -
  have a: "\<forall>c\<in>set s. (of_char c :: nat) \<le> 127" and u: "CHR ''_'' \<notin> set s"
    using num numeric_char_props(1,2) by blast+
  have "hd s \<in> set s" and "last s \<in> set s" using ne by simp_all
  with num have h: "\<not> py_isspace (hd s)" and l: "\<not> py_isspace (last s)"
    using numeric_char_props(3) by blast+
  from a u ne h l show ?thesis by (rule float_from_string_clean)
qed

section \<open>The grammar on signed decimal literals\<close>

lemma parse_sign_prefix:
  assumes "sg \<in> {[], ''+'', ''-''}" and "c \<noteq> CHR ''+''" and "c \<noteq> CHR ''-''"
  shows "parse_sign (sg @ c # cs) = (sg = ''-'', c # cs)"
  using assms by (auto simp: parse_sign_def)

lemma py_tolower_other:
  assumes "(of_char c :: nat) < 65 \<or> 90 < (of_char c :: nat)"
  shows "py_tolower c = c"
proof -
  from assms have "c \<notin> set ''ABCDEFGHIJKLMNOPQRSTUVWXYZ''"
    by auto
  then have "map_of (zip ''ABCDEFGHIJKLMNOPQRSTUVWXYZ'' ''abcdefghijklmnopqrstuvwxyz'') c = None"
    by (subst map_of_zip_is_None) simp_all
  then show ?thesis by (simp only: py_tolower_def option.case)
qed

lemma parse_inf_or_nan_None:
  assumes "parse_sign s = (neg, c # cs)" and "(of_char c :: nat) < 65"
  shows "parse_inf_or_nan s = None"
proof -
  from assms(2) have "c \<noteq> CHR ''i''" and "c \<noteq> CHR ''n''"
    by auto
  with assms show ?thesis
    by (simp add: parse_inf_or_nan_def py_tolower_other)
qed

lemma parse_decimal_digits:
  assumes "parse_sign s = (neg, ds)" and "ds \<noteq> []" and "\<forall>c\<in>set ds. is_digit c"
  shows "parse_decimal s = Some ((neg, digits_value ds, 0), [])"
  using assms
  by (simp add: parse_decimal_def takeWhile_digits dropWhile_digits parse_fraction_def
      parse_exponent_def)

lemma parse_decimal_point:
  assumes "parse_sign s = (neg, ip @ CHR ''.'' # fp)"
    and "\<forall>c\<in>set ip. is_digit c" and "\<forall>c\<in>set fp. is_digit c" and "ip @ fp \<noteq> []"
  shows "parse_decimal s = Some ((neg, digits_value (ip @ fp), - int (length fp)), [])"
proof -
  have t: "takeWhile is_digit (ip @ CHR ''.'' # fp) = ip"
    using assms(2) by (simp add: takeWhile_tail takeWhile_digits)
  have d: "dropWhile is_digit (ip @ CHR ''.'' # fp) = CHR ''.'' # fp"
    using assms(2) by (simp add: dropWhile_append3 dropWhile_digits)
  show ?thesis
    using assms(1,3,4)
    by (simp add: parse_decimal_def t d parse_fraction_def parse_exponent_def
        takeWhile_digits dropWhile_digits)
qed

lemma string_to_double_digits:
  assumes "parse_sign s = (neg, ds)" and "ds \<noteq> []" and "\<forall>c\<in>set ds. is_digit c"
  shows "string_to_double s = Some (float_of_decimal neg (digits_value ds) 0, [])"
proof -
  from assms(2,3) obtain c cs where "ds = c # cs" and "is_digit c"
    by (cases ds) auto
  then have "ds = c # cs" and "(of_char c :: nat) < 65"
    by (simp_all add: is_digit_def)
  with assms(1) have "parse_inf_or_nan s = None"
    by (simp add: parse_inf_or_nan_None)
  with parse_decimal_digits [OF assms] show ?thesis
    by (simp add: string_to_double_def)
qed

lemma string_to_double_point:
  assumes ps: "parse_sign s = (neg, ip @ CHR ''.'' # fp)"
    and ip: "\<forall>c\<in>set ip. is_digit c" and fp: "\<forall>c\<in>set fp. is_digit c" and ne: "ip @ fp \<noteq> []"
  shows "string_to_double s =
           Some (float_of_decimal neg (digits_value (ip @ fp)) (- int (length fp)), [])"
proof -
  obtain c cs where b: "ip @ CHR ''.'' # fp = c # cs" and c: "(of_char c :: nat) < 65"
  proof (cases ip)
    case Nil
    then show ?thesis using that [of "CHR ''.''" fp] by simp
  next
    case (Cons a as)
    with ip have "is_digit a" by simp
    then have "(of_char a :: nat) < 65" by (simp add: is_digit_def)
    with Cons show ?thesis using that [of a "as @ CHR ''.'' # fp"] by simp
  qed
  from ps b c have "parse_inf_or_nan s = None"
    by (simp add: parse_inf_or_nan_None)
  with parse_decimal_point [OF ps ip fp ne] show ?thesis
    by (simp add: string_to_double_def)
qed

lemma float_from_string_integer:
  assumes sg: "sg \<in> {[], ''+'', ''-''}" and ds: "\<forall>c\<in>set ds. is_digit c" and ne: "ds \<noteq> []"
  shows "float_from_string (sg @ ds) = Inr (float_of_decimal (sg = ''-'') (digits_value ds) 0)"
proof -
  have num: "\<forall>c\<in>set (sg @ ds). numeric_char c"
    using sign_numeric [OF sg] digits_numeric [OF ds] by auto
  from ne ds obtain a as where c: "ds = a # as" and "is_digit a"
    by (cases ds) auto
  then have "a \<noteq> CHR ''+''" and "a \<noteq> CHR ''-''" by (simp_all add: digit_not_sign)
  then have "parse_sign (sg @ ds) = (sg = ''-'', ds)"
    unfolding c by (rule parse_sign_prefix [OF sg])
  then have "string_to_double (sg @ ds) =
      Some (float_of_decimal (sg = ''-'') (digits_value ds) 0, [])"
    using ne ds by (rule string_to_double_digits)
  then show ?thesis
    using float_from_string_numeric [OF _ num] ne by simp
qed

lemma float_from_string_decimal:
  assumes sg: "sg \<in> {[], ''+'', ''-''}"
    and ip: "\<forall>c\<in>set ip. is_digit c" and fp: "\<forall>c\<in>set fp. is_digit c" and ne: "ip @ fp \<noteq> []"
  shows "float_from_string (sg @ ip @ CHR ''.'' # fp) =
           Inr (float_of_decimal (sg = ''-'') (digits_value (ip @ fp)) (- int (length fp)))"
proof -
  have num: "\<forall>c\<in>set (sg @ ip @ CHR ''.'' # fp). numeric_char c"
    using sign_numeric [OF sg] digits_numeric [OF ip] digits_numeric [OF fp]
    by (auto simp: numeric_char_def)
  have "parse_sign (sg @ ip @ CHR ''.'' # fp) = (sg = ''-'', ip @ CHR ''.'' # fp)"
  proof (cases ip)
    case Nil
    then show ?thesis using parse_sign_prefix [OF sg, of "CHR ''.''" fp] by simp
  next
    case (Cons a as)
    with ip have "is_digit a" by simp
    then have "a \<noteq> CHR ''+''" and "a \<noteq> CHR ''-''" by (simp_all add: digit_not_sign)
    with Cons show ?thesis
      using parse_sign_prefix [OF sg, of a "as @ CHR ''.'' # fp"] by simp
  qed
  then have "string_to_double (sg @ ip @ CHR ''.'' # fp) =
      Some (float_of_decimal (sg = ''-'') (digits_value (ip @ fp)) (- int (length fp)), [])"
    using ip fp ne by (rule string_to_double_point)
  then show ?thesis
    using float_from_string_numeric [OF _ num] by simp
qed

section \<open>The value of \<^verbatim>\<open>int(float(s))\<close> on literals\<close>

text \<open>
  On a string of decimal digits whose value is below \<open>2^53\<close>, with or without a sign
  in front, \<^verbatim>\<open>int(float(s))\<close> is exactly the integer that the digits write, negated
  after a minus sign: no rounding takes place, and no exception is raised.
\<close>

theorem int_of_float_integer_literal:
  assumes "sg \<in> {[], ''+'', ''-''}" and "\<forall>c\<in>set ds. is_digit c" and "ds \<noteq> []"
    and "digits_value ds < 2 ^ 53"
  shows "int_of_float (PStr (sg @ ds)) =
           Inr (if sg = ''-'' then - int (digits_value ds) else int (digits_value ds))"
  using assms(4)
  by (simp add: int_of_float_def py_float_def float_from_string_integer [OF assms(1-3)]
      py_int_float_of_decimal_0)

theorem int_of_float_integer_literal_witness:
  "int_of_float (PStr ''90'') = Inr 90 \<and> int_of_float (PStr ''+90'') = Inr 90
     \<and> int_of_float (PStr ''-90'') = Inr (- 90)"
  using int_of_float_integer_literal [of "[]" "''90''"]
    int_of_float_integer_literal [of "''+''" "''90''"]
    int_of_float_integer_literal [of "''-''" "''90''"]
  by (simp add: digits_eval)

text \<open>
  On a decimal literal with a point (\<^verbatim>\<open>12.5\<close>, \<^verbatim>\<open>-45.70\<close>, \<^verbatim>\<open>.5\<close>, \<^verbatim>\<open>7.\<close>) whose digits,
  read as one integer, are below \<open>2^53\<close> (any literal of at most 15 digits),
  \<^verbatim>\<open>int(float(s))\<close> is the integer part as written, negated after a minus sign: the
  nearest double never lies on the other side of an integer, so truncation towards zero
  of the rounded value is truncation of the decimal.
\<close>

theorem int_of_float_decimal_literal:
  assumes "sg \<in> {[], ''+'', ''-''}"
    and "\<forall>c\<in>set ip. is_digit c" and "\<forall>c\<in>set fp. is_digit c" and "ip @ fp \<noteq> []"
    and "digits_value (ip @ fp) < 2 ^ 53"
  shows "int_of_float (PStr (sg @ ip @ CHR ''.'' # fp)) =
           Inr (if sg = ''-'' then - int (digits_value ip) else int (digits_value ip))"
  using assms(5)
  by (simp add: int_of_float_def py_float_def float_from_string_decimal [OF assms(1-4)]
      py_int_float_of_decimal digits_value_integer_part [OF assms(3)])

theorem int_of_float_decimal_literal_witness:
  "int_of_float (PStr ''-45.70'') = Inr (- 45) \<and> int_of_float (PStr ''.5'') = Inr 0
     \<and> int_of_float (PStr ''7.'') = Inr 7"
  using int_of_float_decimal_literal [of "''-''" "''45''" "''70''"]
    int_of_float_decimal_literal [of "[]" "[]" "''5''"]
    int_of_float_decimal_literal [of "[]" "''7''" "[]"]
  by (simp add: digits_eval)

end
