(* ===== verification/Row_Mapper.thy ===== *)
theory Row_Mapper
  imports Py_Float_Literals
begin

text \<open>
  The body of the \<^verbatim>\<open>for row in reader\<close> loop of \<^verbatim>\<open>convert_csv_to_neoden\<close>
  (\<^verbatim>\<open>src/convert_kicad_to_yy1.py\<close>, lines 56 to 75), up to the call of
  \<^verbatim>\<open>writer.writerow\<close>: the two constant tables \<open>output_header\<close> and \<open>header_map\<close>, the
  assignment \<^verbatim>\<open>out_row[output_header.index(name)] = v\<close> (\<open>set_col\<close>), the loop over
  \<^verbatim>\<open>header_map.items()\<close> (\<open>populate\<close>), the \<^verbatim>\<open>try/except ValueError\<close> around the rotation
  (\<open>convert_rotation\<close>), the seven constant assignments (\<open>set_fixed\<close>), and their
  composition \<open>map_row\<close>. A row of the reader is a map from field names to cells; a cell
  that the reader filled with \<^verbatim>\<open>None\<close> (a short line) is \<open>PNone\<close>.
  The abstract row \<open>row_spec\<close> states the contract; \<open>map_row\<close> is proved equal to it.
\<close>

section \<open>The tables\<close>

definition output_header :: "string list" where
  "output_header =
     [''Designator'', ''Comment'', ''Footprint'', ''Mid X(mm)'', ''Mid Y(mm)'', ''Rotation'',
      ''Head'', ''FeederNo'', ''Mount Speed(%)'', ''Pick Height(mm)'', ''Place Height(mm)'',
      ''Mode'', ''Skip'']"

definition header_map :: "(string \<times> string option) list" where
  "header_map =
     [(''Ref'', Some ''Designator''),
      (''Val'', Some ''Comment''),
      (''Package'', Some ''Footprint''),
      (''PosX'', Some ''Mid X(mm)''),
      (''PosY'', Some ''Mid Y(mm)''),
      (''Rot'', Some ''Rotation''),
      (''Side'', None)]"

definition fixed_values :: "(string \<times> int) list" where
  "fixed_values =
     [(''Head'', 0), (''FeederNo'', 1), (''Mount Speed(%)'', 100), (''Pick Height(mm)'', 0),
      (''Place Height(mm)'', 0), (''Mode'', 1), (''Skip'', 0)]"

section \<open>The operations on \<^verbatim>\<open>out_row\<close>\<close>

definition truthy :: "string option \<Rightarrow> bool" where
  "truthy h \<longleftrightarrow> (case h of None \<Rightarrow> False | Some s \<Rightarrow> s \<noteq> [])"

definition set_col :: "string \<Rightarrow> pyval \<Rightarrow> cells \<Rightarrow> cells res" where
  "set_col name v out_row = rbind (index_of output_header name) (\<lambda>i. list_set out_row i v)"

definition get_col :: "string \<Rightarrow> cells \<Rightarrow> pyval res" where
  "get_col name out_row = rbind (index_of output_header name) (list_get out_row)"

fun populate :: "(string \<times> string option) list \<Rightarrow> row \<Rightarrow> cells \<Rightarrow> cells res" where
  "populate [] row out_row = Inr out_row"
| "populate ((in_header, out_header) # hm) row out_row =
     (if truthy out_header \<and> row in_header \<noteq> None
      then rbind (set_col (the out_header) (the (row in_header)) out_row) (populate hm row)
      else populate hm row out_row)"

definition convert_rotation :: "cells \<Rightarrow> cells res" where
  "convert_rotation out_row =
     try_except
       (rbind (get_col ''Rotation'' out_row) (\<lambda>v.
        rbind (int_of_float v) (\<lambda>n.
        set_col ''Rotation'' (PInt n) out_row)))
       ValueError
       (set_col ''Rotation'' (PInt 0) out_row)"

fun set_fixed :: "(string \<times> int) list \<Rightarrow> cells \<Rightarrow> cells res" where
  "set_fixed [] out_row = Inr out_row"
| "set_fixed ((name, n) # fs) out_row = rbind (set_col name (PInt n) out_row) (set_fixed fs)"

definition map_row :: "row \<Rightarrow> cells res" where
  "map_row row =
     rbind (populate header_map row (replicate 13 (PStr ''''))) (\<lambda>r1.
     rbind (convert_rotation r1) (set_fixed fixed_values))"

section \<open>The contract of a row\<close>

definition cell :: "row \<Rightarrow> string \<Rightarrow> pyval" where
  "cell row k = (case row k of None \<Rightarrow> PStr '''' | Some v \<Rightarrow> v)"

definition rotation_cell :: "pyval \<Rightarrow> pyval res" where
  "rotation_cell v =
     (case int_of_float v of
        Inr n \<Rightarrow> Inr (PInt n)
      | Inl e \<Rightarrow> if e = ValueError then Inr (PInt 0) else Inl e)"

definition row_spec :: "row \<Rightarrow> cells res" where
  "row_spec row =
     rbind (rotation_cell (cell row ''Rot'')) (\<lambda>rot.
       Inr [cell row ''Ref'', cell row ''Val'', cell row ''Package'', cell row ''PosX'',
            cell row ''PosY'', rot,
            PInt 0, PInt 1, PInt 100, PInt 0, PInt 0, PInt 1, PInt 0])"

definition put :: "row \<Rightarrow> string \<Rightarrow> nat \<Rightarrow> cells \<Rightarrow> cells" where
  "put row k i r = (case row k of None \<Rightarrow> r | Some v \<Rightarrow> r[i := v])"

section \<open>Column lookups\<close>

lemma length_output_header [simp, ky_len]: "length output_header = 13"
  by (simp add: output_header_def)

lemma distinct_output_header: "distinct output_header"
  by (simp add: output_header_def)

lemma index_of_output_header [simp, ky_table]:
  "index_of output_header ''Designator'' = Inr 0"
  "index_of output_header ''Comment'' = Inr 1"
  "index_of output_header ''Footprint'' = Inr 2"
  "index_of output_header ''Mid X(mm)'' = Inr 3"
  "index_of output_header ''Mid Y(mm)'' = Inr 4"
  "index_of output_header ''Rotation'' = Inr 5"
  "index_of output_header ''Head'' = Inr 6"
  "index_of output_header ''FeederNo'' = Inr 7"
  "index_of output_header ''Mount Speed(%)'' = Inr 8"
  "index_of output_header ''Pick Height(mm)'' = Inr 9"
  "index_of output_header ''Place Height(mm)'' = Inr 10"
  "index_of output_header ''Mode'' = Inr 11"
  "index_of output_header ''Skip'' = Inr 12"
  by (simp_all add: output_header_def)

lemma set_col_index:
  "index_of output_header name = Inr i \<Longrightarrow> length r = 13 \<Longrightarrow>
   set_col name v r = Inr (r[i := v])"
  using index_of_Inr_bound [of output_header name i] by (simp add: set_col_def)

lemma get_col_index:
  "index_of output_header name = Inr i \<Longrightarrow> length r = 13 \<Longrightarrow> get_col name r = Inr (r ! i)"
  using index_of_Inr_bound [of output_header name i] by (simp add: get_col_def)

lemma set_col_length: "set_col name v r = Inr r' \<Longrightarrow> length r' = length r"
  by (auto simp: set_col_def rbind_eq_Inr_iff dest: list_set_length)

lemma set_col_unknown: "name \<notin> set output_header \<Longrightarrow> set_col name v r = Inl ValueError"
  by (simp add: set_col_def index_of_not_member)

lemma set_col_known:
  "name \<in> set output_header \<Longrightarrow> length r = 13 \<Longrightarrow> \<exists>i<13. set_col name v r = Inr (r[i := v])"
  using index_of_member [of name output_header] index_of_Inr_bound [of output_header name]
  by (auto simp: set_col_def)

section \<open>Every operation keeps the row at its length\<close>

lemma populate_length: "populate hm row r = Inr r' \<Longrightarrow> length r' = length r"
proof (induction hm arbitrary: r)
  case Nil
  then show ?case by simp
next
  case (Cons h hm)
  obtain ih oh where h: "h = (ih, oh)" by (cases h)
  show ?case
  proof (cases "truthy oh \<and> row ih \<noteq> None")
    case True
    with Cons.prems h obtain r1
      where r1: "set_col (the oh) (the (row ih)) r = Inr r1" and r': "populate hm row r1 = Inr r'"
      by (auto simp: rbind_eq_Inr_iff)
    from r' have "length r' = length r1" by (rule Cons.IH)
    with r1 show ?thesis by (simp add: set_col_length)
  next
    case False
    with Cons.prems h have "populate hm row r = Inr r'" by auto
    then show ?thesis by (rule Cons.IH)
  qed
qed

lemma convert_rotation_length: "convert_rotation r = Inr r' \<Longrightarrow> length r' = length r"
  by (auto simp: convert_rotation_def try_except_def rbind_eq_Inr_iff
      split: sum.splits if_splits dest: set_col_length)

lemma set_fixed_length: "set_fixed fs r = Inr r' \<Longrightarrow> length r' = length r"
proof (induction fs arbitrary: r)
  case Nil
  then show ?case by simp
next
  case (Cons f fs)
  obtain name n where f: "f = (name, n)" by (cases f)
  with Cons.prems obtain r1
    where r1: "set_col name (PInt n) r = Inr r1" and r': "set_fixed fs r1 = Inr r'"
    by (auto simp: rbind_eq_Inr_iff)
  from r' have "length r' = length r1" by (rule Cons.IH)
  with r1 show ?case by (simp add: set_col_length)
qed

section \<open>Closed forms of the three phases\<close>

lemma put_length [simp]: "length (put row k i r) = length r"
  by (cases "row k") (simp_all add: put_def)

lemma populate_step:
  assumes "index_of output_header oh = Inr i" and "length r = 13" and "oh \<noteq> []"
  shows "populate ((ih, Some oh) # hm) row r = populate hm row (put row ih i r)"
proof (cases "row ih")
  case None
  then show ?thesis by (simp add: put_def)
next
  case (Some v)
  with assms show ?thesis by (simp add: put_def truthy_def set_col_index)
qed

lemma populate_skip: "populate ((ih, None) # hm) row r = populate hm row r"
  by (simp add: truthy_def)

lemma populate_header_map:
  assumes "length r = 13"
  shows "populate header_map row r =
    Inr (put row ''Rot'' 5 (put row ''PosY'' 4 (put row ''PosX'' 3 (put row ''Package'' 2
          (put row ''Val'' 1 (put row ''Ref'' 0 r))))))"
  unfolding header_map_def using assms
  by (simp add: populate_step populate_skip del: populate.simps(2))

lemma put_as_update:
  assumes "i < length r" and "r ! i = PStr ''''"
  shows "put row k i r = r[i := cell row k]"
proof (cases "row k")
  case None
  from assms(2) have "r[i := PStr ''''] = r"
    using list_update_id [of r i] by simp
  with None show ?thesis by (simp add: put_def cell_def)
next
  case (Some v)
  then show ?thesis by (simp add: put_def cell_def)
qed

lemma replicate_13:
  "replicate 13 x = [x, x, x, x, x, x, x, x, x, x, x, x, x]"
  by (simp add: numeral_eq_Suc)

lemma populate_blank:
  "populate header_map row (replicate 13 (PStr '''')) =
     Inr [cell row ''Ref'', cell row ''Val'', cell row ''Package'', cell row ''PosX'',
          cell row ''PosY'', cell row ''Rot'',
          PStr '''', PStr '''', PStr '''', PStr '''', PStr '''', PStr '''', PStr '''']"
  by (simp add: populate_header_map replicate_13 put_as_update)

lemma convert_rotation_closed:
  assumes "length r = 13"
  shows "convert_rotation r = rbind (rotation_cell (r ! 5)) (\<lambda>rot. Inr (r[5 := rot]))"
proof (cases "int_of_float (r ! 5)")
  case (Inl e)
  with assms show ?thesis
    by (cases "e = ValueError")
       (simp_all add: convert_rotation_def rotation_cell_def get_col_index set_col_index)
next
  case (Inr n)
  with assms show ?thesis
    by (simp add: convert_rotation_def rotation_cell_def get_col_index set_col_index)
qed

lemma set_fixed_closed:
  assumes "length r = 13"
  shows "set_fixed fixed_values r =
    Inr (r[6 := PInt 0, 7 := PInt 1, 8 := PInt 100, 9 := PInt 0, 10 := PInt 0,
           11 := PInt 1, 12 := PInt 0])"
  unfolding fixed_values_def using assms by (simp add: set_col_index)

section \<open>Errors of the rotation\<close>

lemma rotation_cell_Inr_PInt: "rotation_cell v = Inr c \<Longrightarrow> \<exists>n. c = PInt n"
  by (auto simp: rotation_cell_def split: sum.splits if_splits)

lemma rotation_cell_Inl_iff:
  "rotation_cell v = Inl e \<longleftrightarrow> int_of_float v = Inl e \<and> e \<noteq> ValueError"
  by (auto simp: rotation_cell_def split: sum.splits)

section \<open>The row as a whole\<close>

lemma map_row_phases:
  "map_row row =
     rbind (rotation_cell (cell row ''Rot'')) (\<lambda>rot.
       Inr [cell row ''Ref'', cell row ''Val'', cell row ''Package'', cell row ''PosX'',
            cell row ''PosY'', rot,
            PInt 0, PInt 1, PInt 100, PInt 0, PInt 0, PInt 1, PInt 0])"
proof (cases "rotation_cell (cell row ''Rot'')")
  case (Inl e)
  then show ?thesis
    by (simp add: map_row_def populate_blank convert_rotation_closed)
next
  case (Inr c)
  then show ?thesis
    by (simp add: map_row_def populate_blank convert_rotation_closed set_fixed_closed)
qed

lemma map_row_Inl_iff: "map_row row = Inl e \<longleftrightarrow> rotation_cell (cell row ''Rot'') = Inl e"
  by (simp add: map_row_phases rbind_eq_Inl_iff)

lemma map_row_Inr_iff:
  "map_row row = Inr cs \<longleftrightarrow>
     (\<exists>rot. rotation_cell (cell row ''Rot'') = Inr rot \<and>
       cs = [cell row ''Ref'', cell row ''Val'', cell row ''Package'', cell row ''PosX'',
             cell row ''PosY'', rot,
             PInt 0, PInt 1, PInt 100, PInt 0, PInt 0, PInt 1, PInt 0])"
  by (auto simp: map_row_phases rbind_eq_Inr_iff)

lemma cell_upd [simp]: "cell (row(k \<mapsto> v)) k' = (if k' = k then v else cell row k')"
  by (simp add: cell_def)

lemma cell_empty [simp]: "cell Map.empty k = PStr ''''"
  by (simp add: cell_def)

lemma map_row_rotation_value:
  assumes "row ''Rot'' = Some v" and "int_of_float v = Inr n"
  shows "map_row row =
     Inr [cell row ''Ref'', cell row ''Val'', cell row ''Package'', cell row ''PosX'',
          cell row ''PosY'', PInt n,
          PInt 0, PInt 1, PInt 100, PInt 0, PInt 0, PInt 1, PInt 0]"
  using assms by (simp add: map_row_phases rotation_cell_def cell_def)

lemmas map_row_eval = map_row_phases rotation_cell_def py_float_eval

text \<open>
  C1. For every input row, the loop body of lines 56 to 75 computes exactly the contract
  \<open>row_spec\<close>: the six mapped fields copied verbatim (the empty string where the row has
  no such field), the rotation converted by \<^verbatim>\<open>int(float(...))\<close> with \<^verbatim>\<open>ValueError\<close>
  replaced by 0, the seven constants; and it raises exactly when the rotation raises
  something other than \<^verbatim>\<open>ValueError\<close>.
\<close>

theorem map_row_refines_row_spec: "map_row row = row_spec row"
  by (simp add: map_row_phases row_spec_def)

text \<open>
  C4. Every row that the loop body produces has exactly 13 cells, whatever fields the
  input row has: each assignment of the body keeps the length of \<^verbatim>\<open>out_row\<close>.
\<close>

theorem map_row_length:
  assumes "map_row row = Inr cs"
  shows "length cs = 13"
proof -
  from assms obtain r1 r2
    where p: "populate header_map row (replicate 13 (PStr '''')) = Inr r1"
      and c: "convert_rotation r1 = Inr r2"
      and f: "set_fixed fixed_values r2 = Inr cs"
    by (auto simp: map_row_def rbind_eq_Inr_iff)
  from p have "length r1 = 13" by (auto dest: populate_length)
  with c have "length r2 = 13" by (auto dest: convert_rotation_length)
  with f show ?thesis by (auto dest: set_fixed_length)
qed

theorem map_row_length_witness:
  "map_row [''Ref'' \<mapsto> PStr ''R1'', ''Rot'' \<mapsto> PStr ''-45.7'']
     = Inr [PStr ''R1'', PStr '''', PStr '''', PStr '''', PStr '''', PInt (- 45),
            PInt 0, PInt 1, PInt 100, PInt 0, PInt 0, PInt 1, PInt 0]
   \<and> length [PStr ''R1'', PStr '''', PStr '''', PStr '''', PStr '''', PInt (- 45),
            PInt 0, PInt 1, PInt 100, PInt 0, PInt 0, PInt 1, PInt 0] = 13"
proof -
  have h: "map_row [''Ref'' \<mapsto> PStr ''R1'', ''Rot'' \<mapsto> PStr ''-45.7'']
     = Inr [PStr ''R1'', PStr '''', PStr '''', PStr '''', PStr '''', PInt (- 45),
            PInt 0, PInt 1, PInt 100, PInt 0, PInt 0, PInt 1, PInt 0]"
    by (simp add: map_row_eval)
  show ?thesis using h map_row_length [OF h] by simp
qed

text \<open>
  C5. In every produced row the columns Head, FeederNo, Mount Speed(%), Pick Height(mm),
  Place Height(mm), Mode and Skip, looked up by name as the code does, hold the constants
  0, 1, 100, 0, 0, 1, 0, regardless of the input row.
\<close>

theorem map_row_fixed_columns:
  assumes "map_row row = Inr cs"
  shows "map (\<lambda>name. get_col name cs)
           [''Head'', ''FeederNo'', ''Mount Speed(%)'', ''Pick Height(mm)'',
            ''Place Height(mm)'', ''Mode'', ''Skip'']
         = map (\<lambda>n. Inr (PInt n)) [0, 1, 100, 0, 0, 1, 0]"
  using assms by (auto simp: map_row_Inr_iff get_col_index)

theorem map_row_fixed_columns_witness:
  "map_row [''Head'' \<mapsto> PStr ''7'', ''Skip'' \<mapsto> PStr ''yes'', ''Rot'' \<mapsto> PStr ''12'']
     = Inr [PStr '''', PStr '''', PStr '''', PStr '''', PStr '''', PInt 12,
            PInt 0, PInt 1, PInt 100, PInt 0, PInt 0, PInt 1, PInt 0]
   \<and> map (\<lambda>name. get_col name [PStr '''', PStr '''', PStr '''', PStr '''', PStr '''', PInt 12,
            PInt 0, PInt 1, PInt 100, PInt 0, PInt 0, PInt 1, PInt 0])
           [''Head'', ''FeederNo'', ''Mount Speed(%)'', ''Pick Height(mm)'',
            ''Place Height(mm)'', ''Mode'', ''Skip'']
         = map (\<lambda>n. Inr (PInt n)) [0, 1, 100, 0, 0, 1, 0]"
proof -
  have h: "map_row [''Head'' \<mapsto> PStr ''7'', ''Skip'' \<mapsto> PStr ''yes'', ''Rot'' \<mapsto> PStr ''12'']
     = Inr [PStr '''', PStr '''', PStr '''', PStr '''', PStr '''', PInt 12,
            PInt 0, PInt 1, PInt 100, PInt 0, PInt 0, PInt 1, PInt 0]"
    by (simp add: map_row_eval)
  show ?thesis using h map_row_fixed_columns [OF h] by simp
qed

text \<open>
  C6. The loop body raises exactly when \<^verbatim>\<open>int(float(...))\<close> of the rotation cell raises an
  exception other than \<^verbatim>\<open>ValueError\<close>, and then it raises that exception: the lookups by
  column name and the subscript assignments never fail, and \<^verbatim>\<open>ValueError\<close> never
  leaves the body.
\<close>

theorem map_row_raises_iff:
  "map_row row = Inl e \<longleftrightarrow> int_of_float (cell row ''Rot'') = Inl e \<and> e \<noteq> ValueError"
  by (simp add: map_row_Inl_iff rotation_cell_Inl_iff)

text \<open>
  C13. A rotation that \<^verbatim>\<open>float\<close> reads as an infinity (\<^verbatim>\<open>inf\<close>, \<^verbatim>\<open>-Infinity\<close>, or a
  decimal beyond the largest double) makes the loop body raise \<^verbatim>\<open>OverflowError\<close>: the
  \<^verbatim>\<open>except ValueError\<close> of line 65 does not catch what \<^verbatim>\<open>int\<close> raises on an infinity.
\<close>

theorem infinite_rotation_raises:
  assumes "row ''Rot'' = Some (PStr s)" and "float_from_string s = Inr (Infinity neg)"
  shows "map_row row = Inl OverflowError"
  using assms
  by (simp add: map_row_Inl_iff rotation_cell_def cell_def int_of_float_def py_float_def)

theorem infinite_rotation_raises_witness:
  "[''Ref'' \<mapsto> PStr ''R1'', ''Rot'' \<mapsto> PStr ''inf''] ''Rot'' = Some (PStr ''inf'')
   \<and> float_from_string ''inf'' = Inr (Infinity False)
   \<and> map_row [''Ref'' \<mapsto> PStr ''R1'', ''Rot'' \<mapsto> PStr ''inf''] = Inl OverflowError"
proof -
  have h1: "[''Ref'' \<mapsto> PStr ''R1'', ''Rot'' \<mapsto> PStr ''inf''] ''Rot'' = Some (PStr ''inf'')"
    by simp
  have h2: "float_from_string ''inf'' = Inr (Infinity False)"
    by (simp add: py_float_eval)
  show ?thesis
    using h1 h2
      infinite_rotation_raises
        [of "[''Ref'' \<mapsto> PStr ''R1'', ''Rot'' \<mapsto> PStr ''inf'']" "''inf''" False]
    by simp
qed

text \<open>
  C14. The loop body raises \<^verbatim>\<open>TypeError\<close> exactly when the row has the field \<^verbatim>\<open>Rot\<close>
  with the value \<^verbatim>\<open>None\<close>, which is what the reader stores for a line shorter than
  the header: \<^verbatim>\<open>float(None)\<close> is not a \<^verbatim>\<open>ValueError\<close>.
\<close>

theorem map_row_TypeError_iff: "map_row row = Inl TypeError \<longleftrightarrow> row ''Rot'' = Some PNone"
proof -
  have "int_of_float v = Inl TypeError \<longleftrightarrow> v = PNone" for v
    by (cases v)
       (auto simp: int_of_float_def py_float_def rbind_eq_Inl_iff
          dest: float_from_string_Inl float_from_int_Inl py_int_Inl_cases)
  then show ?thesis
    by (auto simp: map_row_Inl_iff rotation_cell_Inl_iff cell_def split: option.splits)
qed

text \<open>
  C15. When \<^verbatim>\<open>int(float(...))\<close> of the rotation cell raises \<^verbatim>\<open>ValueError\<close> (the field is
  missing, empty or not a number, or it reads as NaN), the row is produced with
  Rotation 0 and all other cells as for any row.
\<close>

theorem unparseable_rotation_is_zero:
  assumes "int_of_float (cell row ''Rot'') = Inl ValueError"
  shows "map_row row =
     Inr [cell row ''Ref'', cell row ''Val'', cell row ''Package'', cell row ''PosX'',
          cell row ''PosY'', PInt 0,
          PInt 0, PInt 1, PInt 100, PInt 0, PInt 0, PInt 1, PInt 0]"
  using assms by (simp add: map_row_phases rotation_cell_def)

theorem unparseable_rotation_is_zero_witness:
  "int_of_float (cell [''Ref'' \<mapsto> PStr ''R1'', ''Rot'' \<mapsto> PStr ''N/A''] ''Rot'') = Inl ValueError
   \<and> map_row [''Ref'' \<mapsto> PStr ''R1'', ''Rot'' \<mapsto> PStr ''N/A''] =
     Inr [PStr ''R1'', PStr '''', PStr '''', PStr '''', PStr '''', PInt 0,
          PInt 0, PInt 1, PInt 100, PInt 0, PInt 0, PInt 1, PInt 0]"
proof -
  have h: "int_of_float (cell [''Ref'' \<mapsto> PStr ''R1'', ''Rot'' \<mapsto> PStr ''N/A''] ''Rot'')
      = Inl ValueError"
    by (simp add: py_float_eval)
  show ?thesis using h unparseable_rotation_is_zero [OF h] by simp
qed

text \<open>
  C16. A row whose rotation is written as an integer (\<^verbatim>\<open>90\<close>, \<^verbatim>\<open>-45\<close>, \<^verbatim>\<open>+180\<close>: decimal
  digits of value below \<open>2^53\<close> after an optional sign) is produced with exactly that
  integer in the Rotation column: the detour through \<^verbatim>\<open>float\<close> loses nothing.
\<close>

theorem map_row_integer_rotation:
  assumes "row ''Rot'' = Some (PStr (sg @ ds))" and "sg \<in> {[], ''+'', ''-''}"
    and "\<forall>c\<in>set ds. is_digit c" and "ds \<noteq> []" and "digits_value ds < 2 ^ 53"
  shows "map_row row =
     Inr [cell row ''Ref'', cell row ''Val'', cell row ''Package'', cell row ''PosX'',
          cell row ''PosY'',
          PInt (if sg = ''-'' then - int (digits_value ds) else int (digits_value ds)),
          PInt 0, PInt 1, PInt 100, PInt 0, PInt 0, PInt 1, PInt 0]"
proof -
  have "int_of_float (PStr (sg @ ds)) =
      Inr (if sg = ''-'' then - int (digits_value ds) else int (digits_value ds))"
    using assms(5)
    by (simp add: int_of_float_def py_float_def float_from_string_integer [OF assms(2-4)]
        py_int_float_of_decimal_0)
  with assms(1) show ?thesis by (simp add: map_row_rotation_value)
qed

theorem map_row_integer_rotation_witness:
  "map_row [''Ref'' \<mapsto> PStr ''U3'', ''Rot'' \<mapsto> PStr ''-270''] =
     Inr [PStr ''U3'', PStr '''', PStr '''', PStr '''', PStr '''', PInt (- 270),
          PInt 0, PInt 1, PInt 100, PInt 0, PInt 0, PInt 1, PInt 0]"
  using map_row_integer_rotation
    [of "[''Ref'' \<mapsto> PStr ''U3'', ''Rot'' \<mapsto> PStr ''-270'']" "''-''" "''270''"]
  by (simp add: digits_eval)

text \<open>
  C17. A row whose rotation is a decimal with a point (\<^verbatim>\<open>12.5\<close>, \<^verbatim>\<open>-90.000000\<close>) whose
  digits, read as one integer, are below \<open>2^53\<close> is produced with the integer part
  of the rotation, as written, in the Rotation column: the fraction is cut off and the
  rotation is never rounded to the next integer.
\<close>

theorem map_row_decimal_rotation:
  assumes "row ''Rot'' = Some (PStr (sg @ ip @ CHR ''.'' # fp))" and "sg \<in> {[], ''+'', ''-''}"
    and "\<forall>c\<in>set ip. is_digit c" and "\<forall>c\<in>set fp. is_digit c" and "ip @ fp \<noteq> []"
    and "digits_value (ip @ fp) < 2 ^ 53"
  shows "map_row row =
     Inr [cell row ''Ref'', cell row ''Val'', cell row ''Package'', cell row ''PosX'',
          cell row ''PosY'',
          PInt (if sg = ''-'' then - int (digits_value ip) else int (digits_value ip)),
          PInt 0, PInt 1, PInt 100, PInt 0, PInt 0, PInt 1, PInt 0]"
proof -
  have "int_of_float (PStr (sg @ ip @ CHR ''.'' # fp)) =
      Inr (if sg = ''-'' then - int (digits_value ip) else int (digits_value ip))"
    using assms(6)
    by (simp add: int_of_float_def py_float_def float_from_string_decimal [OF assms(2-5)]
        py_int_float_of_decimal digits_value_integer_part [OF assms(4)])
  with assms(1) show ?thesis by (simp add: map_row_rotation_value)
qed

theorem map_row_decimal_rotation_witness:
  "map_row [''Ref'' \<mapsto> PStr ''C7'', ''Rot'' \<mapsto> PStr ''179.999999''] =
     Inr [PStr ''C7'', PStr '''', PStr '''', PStr '''', PStr '''', PInt 179,
          PInt 0, PInt 1, PInt 100, PInt 0, PInt 0, PInt 1, PInt 0]"
  using map_row_decimal_rotation
    [of "[''Ref'' \<mapsto> PStr ''C7'', ''Rot'' \<mapsto> PStr ''179.999999'']" "[]" "''179''" "''999999''"]
  by (simp add: digits_eval)

text \<open>
  C40. Fields of the input row other than Ref, Val, Package, PosX, PosY and Rot (the
  field Side among them) have no influence on the produced row.
\<close>

theorem map_row_ignores_other_fields:
  assumes "k \<notin> {''Ref'', ''Val'', ''Package'', ''PosX'', ''PosY'', ''Rot''}"
  shows "map_row (row(k := v)) = map_row row"
proof -
  have "cell (row(k := v)) c = cell row c"
    if "c \<in> {''Ref'', ''Val'', ''Package'', ''PosX'', ''PosY'', ''Rot''}" for c
    using that assms by (auto simp: cell_def)
  then show ?thesis by (simp add: map_row_phases)
qed

theorem map_row_ignores_other_fields_witness:
  "''Side'' \<notin> {''Ref'', ''Val'', ''Package'', ''PosX'', ''PosY'', ''Rot''}
   \<and> map_row ([''Rot'' \<mapsto> PStr ''90''](''Side'' := Some (PStr ''Top'')))
       = map_row [''Rot'' \<mapsto> PStr ''90'']"
proof -
  have h: "''Side'' \<notin> {''Ref'', ''Val'', ''Package'', ''PosX'', ''PosY'', ''Rot''}"
    by simp
  show ?thesis
    using h map_row_ignores_other_fields [OF h, of "[''Rot'' \<mapsto> PStr ''90'']" "Some (PStr ''Top'')"]
    by simp
qed

end
