(* ===== verification/Preamble.thy ===== *)
theory Preamble
  imports Row_Mapper
begin

text \<open>
  The twelve rows that \<^verbatim>\<open>convert_csv_to_neoden\<close> writes before it looks at the input
  (\<^verbatim>\<open>src/convert_kicad_to_yy1.py\<close>, lines 21 to 32), each as the list of cells handed to
  \<^verbatim>\<open>writer.writerow\<close>: the title, the panel descriptor, the fiducial row, four nozzle
  changes, the separators and the column header. The lemmas give the shape of the block
  and relate its last row to the table \<open>output_header\<close> that the row mapper indexes.
\<close>

definition blank :: "nat \<Rightarrow> cells" where
  "blank n = replicate n (PStr '''')"

definition title_row :: cells where
  "title_row = map PStr [''NEODEN'', ''YY1'', ''P&P FILE''] @ blank 9"

definition panel_row :: cells where
  "panel_row =
     map PStr [''PanelizedPCB'', ''UnitLength'', ''0'', ''UnitWidth'', ''0'', ''Rows'', ''1'',
               ''Columns'', ''1''] @ blank 3"

definition fiducial_row :: cells where
  "fiducial_row =
     map PStr [''Fiducial'', ''1-X'', ''13.09'', ''1-Y'', ''55.01'', ''OverallOffsetX'',
               ''0.08'', ''OverallOffsetY'', ''0.12''] @ blank 3"

definition nozzle_change_1 :: cells where
  "nozzle_change_1 =
     map PStr [''NozzleChange'', ''OFF'', ''BeforeComponent'', ''1'', ''Head1'', ''Drop'',
               ''Station2'', ''PickUp'', ''Station1''] @ blank 3"

definition nozzle_change_2 :: cells where
  "nozzle_change_2 =
     map PStr [''NozzleChange'', ''OFF'', ''BeforeComponent'', ''2'', ''Head2'', ''Drop'',
               ''Station3'', ''PickUp'', ''Station2''] @ blank 3"

definition nozzle_change_3 :: cells where
  "nozzle_change_3 =
     map PStr [''NozzleChange'', ''OFF'', ''BeforeComponent'', ''1'', ''Head1'', ''Drop'',
               ''Station1'', ''PickUp'', ''Station1''] @ blank 3"

definition nozzle_change_4 :: cells where
  "nozzle_change_4 =
     map PStr [''NozzleChange'', ''OFF'', ''BeforeComponent'', ''1'', ''Head1'', ''Drop'',
               ''Station1'', ''PickUp'', ''Station1''] @ blank 3"

definition header_row :: cells where
  "header_row =
     map PStr [''Designator'', ''Comment'', ''Footprint'', ''Mid X(mm)'', ''Mid Y(mm)'',
               ''Rotation'', ''Head'', ''FeederNo'', ''Mount Speed(%)'', ''Pick Height(mm)'',
               ''Place Height(mm)'', ''Mode'', ''Skip'']"

text \<open>The twelve calls of \<^verbatim>\<open>writer.writerow\<close> of lines 21 to 32, in order.\<close>

definition preamble_rows :: "cells list" where
  "preamble_rows =
     [title_row, blank 12, panel_row, blank 12, fiducial_row, blank 12,
      nozzle_change_1, nozzle_change_2, nozzle_change_3, nozzle_change_4, blank 12,
      header_row]"

definition is_text :: "pyval \<Rightarrow> bool" where
  "is_text v \<longleftrightarrow> (case v of PStr s \<Rightarrow> True | _ \<Rightarrow> False)"

lemmas preamble_defs [ky_table] =
  preamble_rows_def title_row_def panel_row_def fiducial_row_def nozzle_change_1_def
  nozzle_change_2_def nozzle_change_3_def nozzle_change_4_def header_row_def

lemma length_blank [simp, ky_len]: "length (blank n) = n"
  by (simp add: blank_def)

lemma length_preamble_rows [simp, ky_len]: "length preamble_rows = 12"
  by (simp add: preamble_defs)

lemma preamble_rows_nonempty [simp]: "preamble_rows \<noteq> []"
  by (simp add: preamble_defs)

lemma last_preamble_rows: "last preamble_rows = map PStr output_header"
  by (simp add: preamble_defs output_header_def)

lemma butlast_preamble_lengths: "map length (butlast preamble_rows) = replicate 11 12"
  by (simp add: preamble_defs numeral_eq_Suc)

lemma preamble_all_text: "list_all (list_all is_text) preamble_rows"
  by (simp add: preamble_defs is_text_def blank_def list_all_iff)


end
