(* ===== verification/Stream_Driver.thy ===== *)
theory Stream_Driver
  imports Preamble
begin

text \<open>
  The function \<^verbatim>\<open>convert_csv_to_neoden\<close> (\<^verbatim>\<open>src/convert_kicad_to_yy1.py\<close>, lines 4 to 84)
  and the entry point (lines 86 to 97). The environment answers through a \<open>world\<close>:
  what opening the input gives (an exception, or a \<open>reader\<close>: the field names that
  \<^verbatim>\<open>reader.fieldnames\<close> yields, the rows the iteration yields, and the exception that ends
  the iteration early, if any) and whether opening the output raises. The result is an
  \<open>outcome\<close>: the rows handed to \<^verbatim>\<open>writer.writerow\<close> in order (\<open>None\<close> when the output
  file was never opened, so neither created nor truncated) and the lines printed.
  \<open>write_rows\<close> is the loop of lines 54 to 77; it stops at the first row whose mapping
  raises and keeps what was written before.
\<close>

section \<open>The environment and the result\<close>

record reader =
  fieldnames :: "string list option res"
  rows :: "row list"
  rows_error :: "py_exn option"

record world =
  open_in :: "reader res"
  open_out :: "py_exn option"

record outcome =
  written :: "cells list option"
  printed :: "string list"

section \<open>Messages\<close>

definition exn_text :: "py_exn \<Rightarrow> string" where
  "exn_text e =
     (case e of
        TypeError \<Rightarrow>
          ''float() argument must be a string or a real number, not '' @ [CHR 0x27]
            @ ''NoneType'' @ [CHR 0x27]
      | OverflowError \<Rightarrow> ''cannot convert float infinity to integer''
      | OtherError m \<Rightarrow> m
      | _ \<Rightarrow> [])"

definition handler_message :: "string \<Rightarrow> py_exn \<Rightarrow> string" where
  "handler_message csv_file_path e =
     (if e = FileNotFoundError then ''Error: File not found at path: '' @ csv_file_path
      else ''An error occurred: '' @ exn_text e)"

definition success_message :: "string \<Rightarrow> string \<Rightarrow> string" where
  "success_message csv_file_path output_file_path =
     ''Successfully converted '' @ [CHR 0x27] @ csv_file_path @ [CHR 0x27] @ '' to ''
       @ [CHR 0x27] @ output_file_path @ [CHR 0x27]"

definition no_header_message :: string where
  "no_header_message = ''Error: Input CSV file is empty or has no headers.''"

definition usage_message :: string where
  "usage_message = ''Usage: convert_kicad_to_yy1.py <input_csv_file> <output_csv_file>''"

section \<open>The loop and the function\<close>

fun write_rows :: "row list \<Rightarrow> cells list \<Rightarrow> cells list \<times> py_exn option" where
  "write_rows [] out = (out, None)"
| "write_rows (r # rs) out =
     (case map_row r of
        Inl e \<Rightarrow> (out, Some e)
      | Inr out_row \<Rightarrow> write_rows rs (out @ [out_row]))"

definition convert_body :: "string \<Rightarrow> string \<Rightarrow> reader \<Rightarrow> outcome" where
  "convert_body csv_file_path output_file_path rd =
     (case fieldnames rd of
        Inl e \<Rightarrow> \<lparr>written = Some preamble_rows, printed = [handler_message csv_file_path e]\<rparr>
      | Inr None \<Rightarrow> \<lparr>written = Some preamble_rows, printed = [no_header_message]\<rparr>
      | Inr (Some names) \<Rightarrow>
          (case write_rows (rows rd) preamble_rows of
             (out, Some e) \<Rightarrow>
               \<lparr>written = Some out, printed = [handler_message csv_file_path e]\<rparr>
           | (out, None) \<Rightarrow>
               (case rows_error rd of
                  Some e \<Rightarrow> \<lparr>written = Some out, printed = [handler_message csv_file_path e]\<rparr>
                | None \<Rightarrow>
                    \<lparr>written = Some out,
                     printed = [success_message csv_file_path output_file_path]\<rparr>)))"

definition convert_csv_to_neoden :: "string \<Rightarrow> string \<Rightarrow> world \<Rightarrow> outcome" where
  "convert_csv_to_neoden csv_file_path output_file_path w =
     (case open_in w of
        Inl e \<Rightarrow> \<lparr>written = None, printed = [handler_message csv_file_path e]\<rparr>
      | Inr rd \<Rightarrow>
          (case open_out w of
             Some e \<Rightarrow> \<lparr>written = None, printed = [handler_message csv_file_path e]\<rparr>
           | None \<Rightarrow> convert_body csv_file_path output_file_path rd))"

definition main :: "string list \<Rightarrow> world \<Rightarrow> int \<times> outcome" where
  "main argv w =
     (if length argv \<noteq> 3 then (1, \<lparr>written = None, printed = [usage_message]\<rparr>)
      else (0, convert_csv_to_neoden (argv ! 1) (argv ! 2) w))"

section \<open>The loop\<close>

text \<open>
  What the loop is meant to do, stated without the accumulator: \<open>good_rows\<close> are the
  mapped rows up to the first row whose mapping raises, \<open>first_error\<close> is that exception.
\<close>

fun good_rows :: "row list \<Rightarrow> cells list" where
  "good_rows [] = []"
| "good_rows (r # rs) = (case map_row r of Inl e \<Rightarrow> [] | Inr c \<Rightarrow> c # good_rows rs)"

fun first_error :: "row list \<Rightarrow> py_exn option" where
  "first_error [] = None"
| "first_error (r # rs) = (case map_row r of Inl e \<Rightarrow> Some e | Inr c \<Rightarrow> first_error rs)"

lemma write_rows_eq: "write_rows rs out = (out @ good_rows rs, first_error rs)"
  by (induction rs arbitrary: out) (auto split: sum.splits)

lemma length_good_rows: "length (good_rows rs) \<le> length rs"
  by (induction rs) (auto split: sum.splits)

lemma good_rows_all:
  "first_error rs = None \<Longrightarrow> map Inr (good_rows rs) = map map_row rs"
  by (induction rs) (auto split: sum.splits)

lemma first_error_None_iff: "first_error rs = None \<longleftrightarrow> (\<forall>r\<in>set rs. \<exists>c. map_row r = Inr c)"
  by (induction rs) (auto split: sum.splits)

lemma first_error_Some:
  "first_error rs = Some e \<Longrightarrow>
   length (good_rows rs) < length rs \<and> map_row (rs ! length (good_rows rs)) = Inl e"
  by (induction rs) (auto split: sum.splits)

lemma good_rows_prefix:
  "map Inr (good_rows rs) = map map_row (take (length (good_rows rs)) rs)"
  by (induction rs) (auto split: sum.splits)

lemma good_rows_lengths: "\<forall>cs\<in>set (good_rows rs). length cs = 13"
proof (induction rs)
  case Nil
  then show ?case by simp
next
  case (Cons r rs)
  show ?case
  proof (cases "map_row r")
    case (Inl e)
    then show ?thesis by simp
  next
    case (Inr c)
    then have "length c = 13" by (auto simp: map_row_Inr_iff)
    with Inr Cons.IH show ?thesis by simp
  qed
qed

lemmas write_rows_eval = write_rows_eq map_row_eval

section \<open>Outcomes of the function\<close>

lemma convert_body_written:
  "\<exists>out. written (convert_body inp outp rd) = Some (preamble_rows @ out)
       \<and> (\<forall>cs\<in>set out. length cs = 13)"
proof (cases "fieldnames rd")
  case (Inl e)
  then show ?thesis by (simp add: convert_body_def)
next
  case (Inr names)
  show ?thesis
  proof (cases names)
    case None
    with Inr show ?thesis by (simp add: convert_body_def)
  next
    case (Some ns)
    with Inr have "written (convert_body inp outp rd) = Some (preamble_rows @ good_rows (rows rd))"
      by (simp add: convert_body_def write_rows_eq split: option.splits)
    then show ?thesis using good_rows_lengths by blast
  qed
qed

lemma convert_body_printed: "\<exists>msg. printed (convert_body inp outp rd) = [msg]"
  by (simp add: convert_body_def write_rows_eq split: sum.splits option.splits)

text \<open>
  C2. When no row raises, the loop hands to \<^verbatim>\<open>writer.writerow\<close> exactly one row per input
  row, in input order, after what was written before: the n-th input row gives the n-th
  row after the preamble.
\<close>

theorem write_rows_preserves_order:
  assumes "write_rows rs out = (out', None)"
  shows "length out' = length out + length rs
     \<and> take (length out) out' = out
     \<and> (\<forall>i<length rs. map_row (rs ! i) = Inr (out' ! (length out + i)))"
proof -
  from assms have o: "out' = out @ good_rows rs" and e: "first_error rs = None"
    by (simp_all add: write_rows_eq)
  from e have m: "map Inr (good_rows rs) = map map_row rs"
    by (rule good_rows_all)
  then have l: "length (good_rows rs) = length rs"
    by (metis length_map)
  have "map_row (rs ! i) = Inr (good_rows rs ! i)" if "i < length rs" for i
    using that m l by (metis nth_map)
  with o l show ?thesis by (simp add: nth_append)
qed

theorem write_rows_preserves_order_witness:
  "write_rows [[''Ref'' \<mapsto> PStr ''R1'', ''Rot'' \<mapsto> PStr ''90''],
               [''Ref'' \<mapsto> PStr ''C7'', ''Rot'' \<mapsto> PStr ''x'']] [[PStr ''h'']]
     = ([[PStr ''h''],
         [PStr ''R1'', PStr '''', PStr '''', PStr '''', PStr '''', PInt 90,
          PInt 0, PInt 1, PInt 100, PInt 0, PInt 0, PInt 1, PInt 0],
         [PStr ''C7'', PStr '''', PStr '''', PStr '''', PStr '''', PInt 0,
          PInt 0, PInt 1, PInt 100, PInt 0, PInt 0, PInt 1, PInt 0]], None)
   \<and> map_row ([[''Ref'' \<mapsto> PStr ''R1'', ''Rot'' \<mapsto> PStr ''90''],
               [''Ref'' \<mapsto> PStr ''C7'', ''Rot'' \<mapsto> PStr ''x'']] ! 1)
       = Inr ([[PStr ''h''],
         [PStr ''R1'', PStr '''', PStr '''', PStr '''', PStr '''', PInt 90,
          PInt 0, PInt 1, PInt 100, PInt 0, PInt 0, PInt 1, PInt 0],
         [PStr ''C7'', PStr '''', PStr '''', PStr '''', PStr '''', PInt 0,
          PInt 0, PInt 1, PInt 100, PInt 0, PInt 0, PInt 1, PInt 0]] ! (1 + 1))"
proof -
  have h: "write_rows [[''Ref'' \<mapsto> PStr ''R1'', ''Rot'' \<mapsto> PStr ''90''],
               [''Ref'' \<mapsto> PStr ''C7'', ''Rot'' \<mapsto> PStr ''x'']] [[PStr ''h'']]
     = ([[PStr ''h''],
         [PStr ''R1'', PStr '''', PStr '''', PStr '''', PStr '''', PInt 90,
          PInt 0, PInt 1, PInt 100, PInt 0, PInt 0, PInt 1, PInt 0],
         [PStr ''C7'', PStr '''', PStr '''', PStr '''', PStr '''', PInt 0,
          PInt 0, PInt 1, PInt 100, PInt 0, PInt 0, PInt 1, PInt 0]], None)"
    by (simp add: write_rows_eval)
  from write_rows_preserves_order [OF h]
  have "\<forall>i<2. map_row ([[''Ref'' \<mapsto> PStr ''R1'', ''Rot'' \<mapsto> PStr ''90''],
               [''Ref'' \<mapsto> PStr ''C7'', ''Rot'' \<mapsto> PStr ''x'']] ! i)
       = Inr ([[PStr ''h''],
         [PStr ''R1'', PStr '''', PStr '''', PStr '''', PStr '''', PInt 90,
          PInt 0, PInt 1, PInt 100, PInt 0, PInt 0, PInt 1, PInt 0],
         [PStr ''C7'', PStr '''', PStr '''', PStr '''', PStr '''', PInt 0,
          PInt 0, PInt 1, PInt 100, PInt 0, PInt 0, PInt 1, PInt 0]] ! (1 + i))"
    by simp
  then have "map_row ([[''Ref'' \<mapsto> PStr ''R1'', ''Rot'' \<mapsto> PStr ''90''],
               [''Ref'' \<mapsto> PStr ''C7'', ''Rot'' \<mapsto> PStr ''x'']] ! 1)
       = Inr ([[PStr ''h''],
         [PStr ''R1'', PStr '''', PStr '''', PStr '''', PStr '''', PInt 90,
          PInt 0, PInt 1, PInt 100, PInt 0, PInt 0, PInt 1, PInt 0],
         [PStr ''C7'', PStr '''', PStr '''', PStr '''', PStr '''', PInt 0,
          PInt 0, PInt 1, PInt 100, PInt 0, PInt 0, PInt 1, PInt 0]] ! (1 + 1))"
    by (rule allE [where x = 1]) simp
  with h show ?thesis by (simp only: simp_thms)
qed

text \<open>
  C3. Whenever the output file is opened, what the function hands to the writer begins
  with the twelve preamble rows, and every row after them has exactly 13 cells: this
  holds on every path, the ones that end in an error message included.
\<close>

theorem convert_output_wellformed:
  assumes "written (convert_csv_to_neoden inp outp w) = Some out"
  shows "take 12 out = preamble_rows \<and> (\<forall>cs\<in>set (drop 12 out). length cs = 13)"
proof -
  from assms obtain rd where "written (convert_body inp outp rd) = Some out"
    by (auto simp: convert_csv_to_neoden_def split: sum.splits option.splits)
  with convert_body_written [of inp outp rd] show ?thesis
    by auto
qed

theorem convert_output_wellformed_witness:
  "written (convert_csv_to_neoden ''in.csv'' ''out.csv''
      \<lparr>open_in = Inr \<lparr>fieldnames = Inr (Some [''Ref'', ''Rot'']),
                         rows = [[''Ref'' \<mapsto> PStr ''R1'', ''Rot'' \<mapsto> PStr ''90'']],
                         rows_error = None\<rparr>,
       open_out = None\<rparr>)
     = Some (preamble_rows @
         [[PStr ''R1'', PStr '''', PStr '''', PStr '''', PStr '''', PInt 90,
           PInt 0, PInt 1, PInt 100, PInt 0, PInt 0, PInt 1, PInt 0]])
   \<and> take 12 (preamble_rows @
         [[PStr ''R1'', PStr '''', PStr '''', PStr '''', PStr '''', PInt 90,
           PInt 0, PInt 1, PInt 100, PInt 0, PInt 0, PInt 1, PInt 0]]) = preamble_rows"
proof -
  have h: "written (convert_csv_to_neoden ''in.csv'' ''out.csv''
      \<lparr>open_in = Inr \<lparr>fieldnames = Inr (Some [''Ref'', ''Rot'']),
                         rows = [[''Ref'' \<mapsto> PStr ''R1'', ''Rot'' \<mapsto> PStr ''90'']],
                         rows_error = None\<rparr>,
       open_out = None\<rparr>)
     = Some (preamble_rows @
         [[PStr ''R1'', PStr '''', PStr '''', PStr '''', PStr '''', PInt 90,
           PInt 0, PInt 1, PInt 100, PInt 0, PInt 0, PInt 1, PInt 0]])"
    by (simp add: convert_csv_to_neoden_def convert_body_def write_rows_eval)
  from convert_output_wellformed [OF h] h show ?thesis by simp
qed

text \<open>
  C7. When a row raises, the loop stops there: the rows before it have been handed to the
  writer in order, the failing row and all rows after it produce nothing, and the
  exception is the one the failing row raised.
\<close>

theorem write_rows_stops_at_first_error:
  assumes "write_rows rs out = (out', Some e)"
  shows "\<exists>k<length rs. map_row (rs ! k) = Inl e
     \<and> length out' = length out + k
     \<and> take (length out) out' = out
     \<and> (\<forall>i<k. map_row (rs ! i) = Inr (out' ! (length out + i)))"
proof -
  from assms have o: "out' = out @ good_rows rs" and e: "first_error rs = Some e"
    by (simp_all add: write_rows_eq)
  let ?k = "length (good_rows rs)"
  from e have k: "?k < length rs" and r: "map_row (rs ! ?k) = Inl e"
    by (simp_all add: first_error_Some)
  have "map_row (rs ! i) = Inr (good_rows rs ! i)" if "i < ?k" for i
  proof -
    have "Inr (good_rows rs ! i) = map Inr (good_rows rs) ! i"
      using that by simp
    also have "\<dots> = map map_row (take ?k rs) ! i"
      by (simp only: good_rows_prefix [symmetric])
    also have "\<dots> = map_row (rs ! i)"
      using that k by simp
    finally show ?thesis by simp
  qed
  with o k r show ?thesis by (auto simp: nth_append)
qed

theorem write_rows_stops_at_first_error_witness:
  "write_rows [[''Ref'' \<mapsto> PStr ''R1'', ''Rot'' \<mapsto> PStr ''90''],
               [''Ref'' \<mapsto> PStr ''R2'', ''Rot'' \<mapsto> PStr ''inf''],
               [''Ref'' \<mapsto> PStr ''R3'', ''Rot'' \<mapsto> PStr ''0'']] []
     = ([[PStr ''R1'', PStr '''', PStr '''', PStr '''', PStr '''', PInt 90,
          PInt 0, PInt 1, PInt 100, PInt 0, PInt 0, PInt 1, PInt 0]], Some OverflowError)
   \<and> (\<exists>k<3. map_row ([[''Ref'' \<mapsto> PStr ''R1'', ''Rot'' \<mapsto> PStr ''90''],
               [''Ref'' \<mapsto> PStr ''R2'', ''Rot'' \<mapsto> PStr ''inf''],
               [''Ref'' \<mapsto> PStr ''R3'', ''Rot'' \<mapsto> PStr ''0'']] ! k) = Inl OverflowError
          \<and> (1::nat) = 0 + k)"
proof -
  have h: "write_rows [[''Ref'' \<mapsto> PStr ''R1'', ''Rot'' \<mapsto> PStr ''90''],
               [''Ref'' \<mapsto> PStr ''R2'', ''Rot'' \<mapsto> PStr ''inf''],
               [''Ref'' \<mapsto> PStr ''R3'', ''Rot'' \<mapsto> PStr ''0'']] []
     = ([[PStr ''R1'', PStr '''', PStr '''', PStr '''', PStr '''', PInt 90,
          PInt 0, PInt 1, PInt 100, PInt 0, PInt 0, PInt 1, PInt 0]], Some OverflowError)"
    by (simp add: write_rows_eval)
  from write_rows_stops_at_first_error [OF h] h show ?thesis
    by auto
qed

text \<open>
  C8. When the input has no header line (\<^verbatim>\<open>reader.fieldnames\<close> is \<^verbatim>\<open>None\<close>), the check of
  line 35 comes after the writes of lines 21 to 32: the output holds the whole preamble,
  no data row, and the message of line 36 is the only line printed.
\<close>

theorem headerless_input_leaves_preamble:
  assumes "open_in w = Inr rd" and "open_out w = None" and "fieldnames rd = Inr None"
  shows "convert_csv_to_neoden inp outp w =
     \<lparr>written = Some preamble_rows, printed = [no_header_message]\<rparr>"
  using assms by (simp add: convert_csv_to_neoden_def convert_body_def)

theorem headerless_input_leaves_preamble_witness:
  "convert_csv_to_neoden ''in.csv'' ''out.csv''
      \<lparr>open_in = Inr \<lparr>fieldnames = Inr None, rows = [], rows_error = None\<rparr>,
       open_out = None\<rparr>
     = \<lparr>written = Some preamble_rows, printed = [no_header_message]\<rparr>"
  using headerless_input_leaves_preamble
    [of "\<lparr>open_in = Inr \<lparr>fieldnames = Inr None, rows = [], rows_error = None\<rparr>,
          open_out = None\<rparr>"
        "\<lparr>fieldnames = Inr None, rows = [], rows_error = None\<rparr>" "''in.csv''" "''out.csv''"]
  by simp

text \<open>
  C9. When both files open, the input has a header, no rotation cell makes
  \<^verbatim>\<open>int(float(...))\<close> raise \<^verbatim>\<open>TypeError\<close> or \<^verbatim>\<open>OverflowError\<close>, and the reader does not
  fail, the function hands to the writer the preamble followed by one mapped row per
  input row, in order, and prints the success message with both paths.
\<close>

theorem convert_success:
  assumes "open_in w = Inr rd" and "open_out w = None"
    and "fieldnames rd = Inr (Some names)" and "rows_error rd = None"
    and "\<forall>r\<in>set (rows rd). int_of_float (cell r ''Rot'') \<noteq> Inl TypeError
           \<and> int_of_float (cell r ''Rot'') \<noteq> Inl OverflowError"
  shows "\<exists>out. convert_csv_to_neoden inp outp w =
           \<lparr>written = Some (preamble_rows @ out), printed = [success_message inp outp]\<rparr>
         \<and> map Inr out = map map_row (rows rd)"
proof -
  have "\<exists>c. map_row r = Inr c" if "r \<in> set (rows rd)" for r
  proof (cases "map_row r")
    case (Inl e)
    then have "int_of_float (cell r ''Rot'') = Inl e" and "e \<noteq> ValueError"
      by (simp_all add: map_row_Inl_iff rotation_cell_Inl_iff)
    with that assms(5) int_of_float_Inl_cases [of "cell r ''Rot''" e] show ?thesis
      by auto
  next
    case (Inr c)
    then show ?thesis by simp
  qed
  then have e: "first_error (rows rd) = None"
    by (simp add: first_error_None_iff)
  with assms(1-4) have "convert_csv_to_neoden inp outp w =
      \<lparr>written = Some (preamble_rows @ good_rows (rows rd)),
       printed = [success_message inp outp]\<rparr>"
    by (simp add: convert_csv_to_neoden_def convert_body_def write_rows_eq)
  with good_rows_all [OF e] show ?thesis by blast
qed

theorem convert_success_witness:
  "\<exists>out. convert_csv_to_neoden ''in.csv'' ''out.csv''
       \<lparr>open_in = Inr \<lparr>fieldnames = Inr (Some [''Ref'', ''Rot'']),
                          rows = [[''Ref'' \<mapsto> PStr ''R1'', ''Rot'' \<mapsto> PStr ''90.0''],
                                  [''Ref'' \<mapsto> PStr ''R2'']],
                          rows_error = None\<rparr>,
        open_out = None\<rparr>
     = \<lparr>written = Some (preamble_rows @ out),
        printed = [success_message ''in.csv'' ''out.csv'']\<rparr>
     \<and> map Inr out = map map_row [[''Ref'' \<mapsto> PStr ''R1'', ''Rot'' \<mapsto> PStr ''90.0''],
                                    [''Ref'' \<mapsto> PStr ''R2'']]"
proof -
  have h: "\<forall>r\<in>set [[''Ref'' \<mapsto> PStr ''R1'', ''Rot'' \<mapsto> PStr ''90.0''],
                      [''Ref'' \<mapsto> PStr ''R2'']].
            int_of_float (cell r ''Rot'') \<noteq> Inl TypeError
          \<and> int_of_float (cell r ''Rot'') \<noteq> Inl OverflowError"
    by (simp add: py_float_eval)
  show ?thesis
    using h convert_success
      [of "\<lparr>open_in = Inr \<lparr>fieldnames = Inr (Some [''Ref'', ''Rot'']),
                          rows = [[''Ref'' \<mapsto> PStr ''R1'', ''Rot'' \<mapsto> PStr ''90.0''],
                                  [''Ref'' \<mapsto> PStr ''R2'']],
                          rows_error = None\<rparr>,
            open_out = None\<rparr>"
          "\<lparr>fieldnames = Inr (Some [''Ref'', ''Rot'']),
                          rows = [[''Ref'' \<mapsto> PStr ''R1'', ''Rot'' \<mapsto> PStr ''90.0''],
                                  [''Ref'' \<mapsto> PStr ''R2'']],
                          rows_error = None\<rparr>"
          "[''Ref'', ''Rot'']" "''in.csv''" "''out.csv''"]
    by simp
qed



text \<open>
  C38. When the input file does not exist, the output file is never opened (so it is
  neither created nor truncated) and the only line printed is the file-not-found message
  with the input path.
\<close>

theorem input_not_found:
  assumes "open_in w = Inl FileNotFoundError"
  shows "convert_csv_to_neoden inp outp w =
     \<lparr>written = None, printed = [''Error: File not found at path: '' @ inp]\<rparr>"
  using assms by (simp add: convert_csv_to_neoden_def handler_message_def)

theorem input_not_found_witness:
  "convert_csv_to_neoden ''missing.csv'' ''out.csv''
      \<lparr>open_in = Inl FileNotFoundError, open_out = None\<rparr>
     = \<lparr>written = None, printed = [''Error: File not found at path: missing.csv'']\<rparr>"
  using input_not_found
    [of "\<lparr>open_in = Inl FileNotFoundError, open_out = None\<rparr>" "''missing.csv''" "''out.csv''"]
  by simp

text \<open>
  C39. When the input opens but opening the output raises \<^verbatim>\<open>FileNotFoundError\<close> (its
  directory does not exist), the handler of lines 81 and 82 prints the file-not-found
  message with the path of the input file, not of the file that is missing.
\<close>

theorem output_not_found_reports_input_path:
  assumes "open_in w = Inr rd" and "open_out w = Some FileNotFoundError"
  shows "convert_csv_to_neoden inp outp w =
     \<lparr>written = None, printed = [''Error: File not found at path: '' @ inp]\<rparr>"
  using assms by (simp add: convert_csv_to_neoden_def handler_message_def)

theorem output_not_found_reports_input_path_witness:
  "convert_csv_to_neoden ''in.csv'' ''nodir/out.csv''
      \<lparr>open_in = Inr \<lparr>fieldnames = Inr (Some [''Ref'']), rows = [], rows_error = None\<rparr>,
       open_out = Some FileNotFoundError\<rparr>
     = \<lparr>written = None, printed = [''Error: File not found at path: in.csv'']\<rparr>"
  using output_not_found_reports_input_path
    [of "\<lparr>open_in = Inr \<lparr>fieldnames = Inr (Some [''Ref'']), rows = [], rows_error = None\<rparr>,
          open_out = Some FileNotFoundError\<rparr>"
        "\<lparr>fieldnames = Inr (Some [''Ref'']), rows = [], rows_error = None\<rparr>"
        "''in.csv''" "''nodir/out.csv''"]
  by simp

text \<open>
  C36. Every run of the function ends with exactly one printed line: no exception leaves
  \<^verbatim>\<open>convert_csv_to_neoden\<close>, whatever the environment answers and whatever the rows hold.
\<close>

theorem convert_reports_once: "\<exists>msg. printed (convert_csv_to_neoden inp outp w) = [msg]"
  using convert_body_printed
  by (auto simp: convert_csv_to_neoden_def split: sum.splits option.splits)

end
