(* ===== verification/Csv_Writer.thy ===== *)
theory Csv_Writer
  imports Py_Float_Literals
begin

text \<open>
  What \<^verbatim>\<open>writer.writerow(cells)\<close> appends to the output file
  (\<^verbatim>\<open>src/convert_kicad_to_yy1.py\<close>, lines 21 to 32 and 77), for the writer that line 18
  creates with the default dialect: fields separated by commas, a field quoted exactly
  when it holds a comma, a double quote, a carriage return or a line feed, double quotes
  doubled inside quotes, the line ended by CR LF. A cell that is a string is written as
  it is, an \<^verbatim>\<open>int\<close> as \<^verbatim>\<open>str\<close> prints it, \<^verbatim>\<open>None\<close> as the empty field. The lemmas show
  that integers print as digit strings that \<^verbatim>\<open>int(float(...))\<close> reads back, that cells
  without the four special characters are written unquoted, and how many separators a
  line has.
\<close>

section \<open>\<^verbatim>\<open>str\<close> of an integer\<close>

abbreviation digit_char :: "nat \<Rightarrow> char" where
  "digit_char d \<equiv> ''0123456789'' ! d"

fun str_nat :: "nat \<Rightarrow> string" where
  "str_nat n =
     (if n < 10 then [digit_char n] else str_nat (n div 10) @ [digit_char (n mod 10)])"

declare str_nat.simps [simp del]

definition str_int :: "int \<Rightarrow> string" where
  "str_int n = (if n < 0 then CHR ''-'' # str_nat (nat (- n)) else str_nat (nat n))"

section \<open>Fields and records\<close>

definition cell_text :: "pyval \<Rightarrow> string" where
  "cell_text v = (case v of PStr s \<Rightarrow> s | PInt n \<Rightarrow> str_int n | PNone \<Rightarrow> [])"

definition special_char :: "char \<Rightarrow> bool" where
  "special_char c \<longleftrightarrow> c = CHR '','' \<or> c = CHR 0x22 \<or> c = CHR 0x0D \<or> c = CHR 0x0A"

fun double_quotes :: "string \<Rightarrow> string" where
  "double_quotes [] = []"
| "double_quotes (c # cs) =
     (if c = CHR 0x22 then c # c # double_quotes cs else c # double_quotes cs)"

definition join_append :: "string \<Rightarrow> string" where
  "join_append field =
     (if list_ex special_char field then CHR 0x22 # double_quotes field @ [CHR 0x22]
      else field)"

fun join_fields :: "string list \<Rightarrow> string" where
  "join_fields [] = []"
| "join_fields [f] = f"
| "join_fields (f # g # fs) = f @ CHR '','' # join_fields (g # fs)"

definition lineterminator :: string where
  "lineterminator = [CHR 0x0D, CHR 0x0A]"

definition writerow :: "cells \<Rightarrow> string" where
  "writerow row =
     (let rec = join_fields (map (\<lambda>v. join_append (cell_text v)) row)
      in (if row \<noteq> [] \<and> rec = [] then [CHR 0x22, CHR 0x22] else rec) @ lineterminator)"

definition file_text :: "cells list \<Rightarrow> string" where
  "file_text rows = concat (map writerow rows)"

lemmas csv_writer_eval =
  str_nat.simps str_int_def cell_text_def special_char_def join_append_def
  lineterminator_def writerow_def file_text_def

section \<open>Digits of a number\<close>

lemma digit_char_code: "d < 10 \<Longrightarrow> (of_char (digit_char d) :: nat) = 48 + d"
proof -
  assume "d < 10"
  then have "d \<in> set [0 ..< 10]" by simp
  then have "d \<in> {0, 1, 2, 3, 4, 5, 6, 7, 8, 9}" by (simp add: upt_rec numeral_eq_Suc)
  then show ?thesis by auto
qed

lemma digit_char_is_digit [simp]: "d < 10 \<Longrightarrow> is_digit (digit_char d)"
  by (simp add: is_digit_def digit_char_code)

lemma digit_val_digit_char [simp]: "d < 10 \<Longrightarrow> digit_val (digit_char d) = d"
  by (simp add: digit_val_def digit_char_code)

lemma str_nat_nonempty [simp]: "str_nat n \<noteq> []"
  by (subst str_nat.simps) simp

lemma str_nat_digits: "\<forall>c\<in>set (str_nat n). is_digit c"
proof (induction n rule: str_nat.induct)
  case (1 n)
  then show ?case by (subst str_nat.simps) auto
qed

text \<open>Reading the digits that \<^verbatim>\<open>str\<close> prints gives the number back.\<close>

lemma digits_value_str_nat [simp]: "digits_value (str_nat n) = n"
proof (induction n rule: str_nat.induct)
  case (1 n)
  show ?case
  proof (cases "n < 10")
    case True
    then show ?thesis
      using digits_value_snoc [of "[]" "digit_char n"] by (subst str_nat.simps) simp
  next
    case False
    with 1 show ?thesis by (subst str_nat.simps) simp
  qed
qed

lemma str_int_shape:
  "str_int n = (if n < 0 then ''-'' else []) @ str_nat (nat \<bar>n\<bar>)"
  by (simp add: str_int_def)

lemma str_int_parts:
  "(if n < 0 then ''-'' else []) \<in> {[], ''+'', ''-''}"
  "((if n < 0 then ''-'' else []) = ''-'') = (n < 0)"
  by simp_all

text \<open>
  What \<^verbatim>\<open>str\<close> prints for an integer of magnitude below \<open>2^53\<close> is read back by
  \<^verbatim>\<open>int(float(...))\<close> as the same integer: the Rotation column of an output file,
  fed to the converter again, is unchanged.
\<close>

theorem str_int_roundtrip:
  assumes "\<bar>n\<bar> < 2 ^ 53"
  shows "int_of_float (PStr (str_int n)) = Inr n"
proof -
  have "nat \<bar>n\<bar> < 2 ^ 53" using assms by (simp add: nat_less_iff)
  then show ?thesis
    unfolding str_int_shape
    by (simp add: int_of_float_def py_float_def py_int_float_of_decimal_0
        float_from_string_integer [OF str_int_parts(1) str_nat_digits str_nat_nonempty])
qed

theorem str_int_roundtrip_witness:
  "str_int (- 270) = ''-270'' \<and> int_of_float (PStr (str_int (- 270))) = Inr (- 270)"
  using str_int_roundtrip [of "- 270"]
  by (simp add: str_int_def str_nat.simps)

section \<open>Fields that are written as they are\<close>

lemma digit_not_special: "is_digit c \<Longrightarrow> \<not> special_char c"
  by (auto simp: is_digit_def special_char_def)

lemma str_int_plain [simp]: "\<not> list_ex special_char (str_int n)"
proof -
  have "\<not> special_char c" if "c \<in> set (str_int n)" for c
  proof -
    from that have "c = CHR ''-'' \<or> c \<in> set (str_nat (nat \<bar>n\<bar>))"
      by (auto simp: str_int_shape split: if_splits)
    then show ?thesis
    proof
      assume "c = CHR ''-''"
      then show ?thesis by (simp add: special_char_def)
    next
      assume "c \<in> set (str_nat (nat \<bar>n\<bar>))"
      with str_nat_digits have "is_digit c" by blast
      then show ?thesis by (rule digit_not_special)
    qed
  qed
  then show ?thesis by (auto simp: list_ex_iff)
qed

lemma join_append_plain [simp]: "\<not> list_ex special_char f \<Longrightarrow> join_append f = f"
  by (simp add: join_append_def)

lemma join_append_int [simp]: "join_append (cell_text (PInt n)) = str_int n"
  by (simp add: cell_text_def)

lemma join_append_quoted:
  "list_ex special_char f \<Longrightarrow> join_append f = CHR 0x22 # double_quotes f @ [CHR 0x22]"
  by (simp add: join_append_def)

lemma join_append_Nil_iff [simp]: "join_append f = [] \<longleftrightarrow> f = []"
  by (auto simp: join_append_def)

section \<open>Records\<close>

lemma join_fields_Cons:
  "fs \<noteq> [] \<Longrightarrow> join_fields (f # fs) = f @ CHR '','' # join_fields fs"
  by (cases fs) simp_all

lemma join_fields_append:
  "fs \<noteq> [] \<Longrightarrow> gs \<noteq> [] \<Longrightarrow>
   join_fields (fs @ gs) = join_fields fs @ CHR '','' # join_fields gs"
  by (induction fs rule: join_fields.induct) (simp_all add: join_fields_Cons)

lemma join_fields_Nil_iff: "join_fields fs = [] \<longleftrightarrow> fs = [] \<or> fs = [[]]"
  by (induction fs rule: join_fields.induct) simp_all

lemma count_join_fields:
  assumes "\<forall>f\<in>set fs. CHR '','' \<notin> set f"
  shows "count_list (join_fields fs) CHR '','' = length fs - 1"
  using assms by (induction fs rule: join_fields.induct) (simp_all add: count_list_0_iff)

text \<open>A record of two or more cells is the fields joined by commas, then CR LF.\<close>

lemma writerow_fields:
  assumes "2 \<le> length row"
  shows "writerow row = join_fields (map (\<lambda>v. join_append (cell_text v)) row) @ lineterminator"
proof -
  from assms obtain a b rest where "row = a # b # rest"
    by (cases row; cases "tl row") auto
  then show ?thesis by (simp add: writerow_def)
qed

lemma writerow_single:
  "writerow [v] = (if cell_text v = [] then [CHR 0x22, CHR 0x22] else join_append (cell_text v))
                    @ lineterminator"
  by (simp add: writerow_def)

lemma file_text_append [simp]: "file_text (rs @ rs') = file_text rs @ file_text rs'"
  by (simp add: file_text_def)

lemma file_text_Cons [simp]: "file_text (r # rs) = writerow r @ file_text rs"
  by (simp add: file_text_def)

lemma file_text_Nil [simp]: "file_text [] = []"
  by (simp add: file_text_def)

end
