(* ===== verification/Text_Output.thy ===== *)
theory Text_Output
  imports Stream_Driver Csv_Writer
begin

text \<open>
  The output file as text. \<open>output_text\<close> is the content of the file that
  \<^verbatim>\<open>convert_csv_to_neoden\<close> leaves behind: the records of \<open>written\<close>, each formatted by
  \<^verbatim>\<open>writer.writerow\<close> (\<open>writerow\<close> of theory \<open>Csv_Writer\<close>), one after the other, as
  the file opened at line 15 with \<^verbatim>\<open>newline=''\<close> receives them. The lemmas give the
  twelve preamble lines character by character, the form of a data line, and the text
  of the file on each path of the function.
\<close>

definition output_text :: "outcome \<Rightarrow> string option" where
  "output_text oc = map_option file_text (written oc)"

text \<open>The expected content, line by line; \<open>crlf_lines\<close> ends each line with CR LF.\<close>

definition crlf_lines :: "string list \<Rightarrow> string" where
  "crlf_lines ls = concat (map (\<lambda>l. l @ lineterminator) ls)"

definition preamble_lines :: "string list" where
  "preamble_lines =
     [''NEODEN,YY1,P&P FILE,,,,,,,,,'',
      '',,,,,,,,,,,'',
      ''PanelizedPCB,UnitLength,0,UnitWidth,0,Rows,1,Columns,1,,,'',
      '',,,,,,,,,,,'',
      ''Fiducial,1-X,13.09,1-Y,55.01,OverallOffsetX,0.08,OverallOffsetY,0.12,,,'',
      '',,,,,,,,,,,'',
      ''NozzleChange,OFF,BeforeComponent,1,Head1,Drop,Station2,PickUp,Station1,,,'',
      ''NozzleChange,OFF,BeforeComponent,2,Head2,Drop,Station3,PickUp,Station2,,,'',
      ''NozzleChange,OFF,BeforeComponent,1,Head1,Drop,Station1,PickUp,Station1,,,'',
      ''NozzleChange,OFF,BeforeComponent,1,Head1,Drop,Station1,PickUp,Station1,,,'',
      '',,,,,,,,,,,'',
      ''Designator,Comment,Footprint,Mid X(mm),Mid Y(mm),Rotation,Head,FeederNo,Mount Speed(%),Pick Height(mm),Place Height(mm),Mode,Skip'']"

definition plain :: "string \<Rightarrow> bool" where
  "plain f \<longleftrightarrow> \<not> list_ex special_char f"

definition copied_fields :: "row \<Rightarrow> string list" where
  "copied_fields row =
     map (\<lambda>k. cell_text (cell row k)) [''Ref'', ''Val'', ''Package'', ''PosX'', ''PosY'']"

section \<open>The preamble as text\<close>

lemma crlf_lines_simps [simp]:
  "crlf_lines [] = []"
  "crlf_lines (l # ls) = l @ lineterminator @ crlf_lines ls"
  by (simp_all add: crlf_lines_def)

lemma crlf_lines_append [simp]: "crlf_lines (a @ b) = crlf_lines a @ crlf_lines b"
  by (simp add: crlf_lines_def)

lemma writerow_text_row:
  assumes "2 \<le> length fs" and "\<forall>f\<in>set fs. plain f"
  shows "writerow (map PStr fs) = join_fields fs @ lineterminator"
proof -
  have "map (\<lambda>v. join_append (cell_text v)) (map PStr fs) = fs"
    using assms(2) by (simp add: map_idI cell_text_def plain_def)
  with assms(1) show ?thesis by (simp add: writerow_fields)
qed

lemma preamble_text: "file_text preamble_rows = crlf_lines preamble_lines"
  by (simp add: preamble_defs preamble_lines_def blank_def writerow_def cell_text_def
      join_append_def special_char_def numeral_eq_Suc)

section \<open>A data line\<close>

lemma str_int_consts [simp]:
  "str_int 0 = ''0''" "str_int 1 = ''1''" "str_int 100 = ''100''"
  by (simp_all add: str_int_def str_nat.simps)

text \<open>
  The line written for a produced row: the five copied fields, quoted where needed, then
  the rotation and the seven constants, which are never quoted.
\<close>

lemma writerow_map_row:
  assumes "map_row row = Inr cs"
  shows "\<exists>n. rotation_cell (cell row ''Rot'') = Inr (PInt n) \<and>
           writerow cs = join_fields (map join_append (copied_fields row)) @ '','' @ str_int n
                           @ '',0,1,100,0,0,1,0'' @ lineterminator"
proof -
  from assms obtain rot
    where r: "rotation_cell (cell row ''Rot'') = Inr rot"
      and cs: "cs = [cell row ''Ref'', cell row ''Val'', cell row ''Package'', cell row ''PosX'',
                     cell row ''PosY'', rot,
                     PInt 0, PInt 1, PInt 100, PInt 0, PInt 0, PInt 1, PInt 0]"
    by (auto simp: map_row_Inr_iff)
  from r obtain n where n: "rot = PInt n"
    by (auto dest: rotation_cell_Inr_PInt)
  have "writerow cs = join_fields (map join_append (copied_fields row)) @ '','' @ str_int n
                           @ '',0,1,100,0,0,1,0'' @ lineterminator"
    unfolding cs n by (simp add: writerow_def copied_fields_def)
  with r n show ?thesis by blast
qed

lemma plain_no_comma: "plain f \<Longrightarrow> CHR '','' \<notin> set f"
  by (auto simp: plain_def list_ex_iff special_char_def)

lemma plain_str_int [simp]: "plain (str_int n)"
  by (simp add: plain_def)

lemma plain_consts [simp]: "plain ''0''" "plain ''1''" "plain ''100''"
  by (simp_all add: plain_def special_char_def)

lemma join_append_plain_fields: "\<forall>f\<in>set fs. plain f \<Longrightarrow> map join_append fs = fs"
  by (simp add: map_idI plain_def)

lemma length_copied_fields [simp]: "length (copied_fields row) = 5"
  by (simp add: copied_fields_def)

lemma join_fields_tail:
  "fs \<noteq> [] \<Longrightarrow>
   join_fields (fs @ [a, ''0'', ''1'', ''100'', ''0'', ''0'', ''1'', ''0'']) =
     join_fields fs @ '','' @ a @ '',0,1,100,0,0,1,0''"
  by (simp add: join_fields_append)

section \<open>The text of the file\<close>

lemma output_text_convert_body:
  "output_text (convert_body inp outp rd) =
     Some (crlf_lines preamble_lines @
           (case fieldnames rd of
              Inr (Some ns) \<Rightarrow> file_text (good_rows (rows rd))
            | _ \<Rightarrow> []))"
  by (simp add: output_text_def convert_body_def write_rows_eq preamble_text
      split: sum.splits option.splits)

text \<open>
  C26. A produced row whose five copied fields hold no comma, double quote, carriage
  return or line feed is written as one line: the thirteen cell texts in column order,
  separated by exactly twelve commas, with no quotes added, ended by CR LF.
\<close>

theorem data_line_plain:
  assumes "map_row row = Inr cs" and "\<forall>f\<in>set (copied_fields row). plain f"
  shows "\<exists>n. rotation_cell (cell row ''Rot'') = Inr (PInt n)
           \<and> writerow cs =
               join_fields (copied_fields row @ [str_int n, ''0'', ''1'', ''100'', ''0'', ''0'',
                                                 ''1'', ''0'']) @ lineterminator
           \<and> count_list (join_fields (copied_fields row @ [str_int n, ''0'', ''1'', ''100'',
                                          ''0'', ''0'', ''1'', ''0''])) CHR '','' = 12"
proof -
  from writerow_map_row [OF assms(1)] obtain n
    where r: "rotation_cell (cell row ''Rot'') = Inr (PInt n)"
      and w: "writerow cs = join_fields (map join_append (copied_fields row)) @ '','' @ str_int n
                           @ '',0,1,100,0,0,1,0'' @ lineterminator"
    by blast
  have ne: "copied_fields row \<noteq> []" by (simp add: copied_fields_def)
  have "\<forall>f\<in>set (copied_fields row @ [str_int n, ''0'', ''1'', ''100'', ''0'', ''0'', ''1'', ''0'']).
          CHR '','' \<notin> set f"
    using assms(2) plain_no_comma [OF plain_str_int] by (auto dest: plain_no_comma)
  then have "count_list (join_fields (copied_fields row @ [str_int n, ''0'', ''1'', ''100'',
                                          ''0'', ''0'', ''1'', ''0''])) CHR '','' = 12"
    by (simp add: count_join_fields)
  with r w show ?thesis
    by (simp add: join_append_plain_fields [OF assms(2)] join_fields_tail [OF ne])
qed

theorem data_line_plain_witness:
  "writerow [PStr ''R1'', PStr ''10k'', PStr '''', PStr '''', PStr '''', PInt 90,
             PInt 0, PInt 1, PInt 100, PInt 0, PInt 0, PInt 1, PInt 0]
     = ''R1,10k,,,,90,0,1,100,0,0,1,0'' @ lineterminator"
proof -
  let ?row = "[''Ref'' \<mapsto> PStr ''R1'', ''Val'' \<mapsto> PStr ''10k'', ''Rot'' \<mapsto> PStr ''90'']"
  have m: "map_row ?row = Inr [PStr ''R1'', PStr ''10k'', PStr '''', PStr '''', PStr '''', PInt 90,
             PInt 0, PInt 1, PInt 100, PInt 0, PInt 0, PInt 1, PInt 0]"
    by (simp add: map_row_eval)
  have p: "\<forall>f\<in>set (copied_fields ?row). plain f"
    by (simp add: copied_fields_def plain_def special_char_def cell_text_def)
  have r: "rotation_cell (cell ?row ''Rot'') = Inr (PInt 90)"
    by (simp add: map_row_eval)
  from data_line_plain [OF m p] obtain n
    where a: "rotation_cell (cell ?row ''Rot'') = Inr (PInt n)"
      and b: "writerow [PStr ''R1'', PStr ''10k'', PStr [], PStr [], PStr [], PInt 90,
                PInt 0, PInt 1, PInt 100, PInt 0, PInt 0, PInt 1, PInt 0] =
              join_fields (copied_fields ?row @ [str_int n, ''0'', ''1'', ''100'', ''0'', ''0'',
                                                 ''1'', ''0'']) @ lineterminator"
    by blast
  from a r have "n = 90" by simp
  with b show ?thesis
    by (simp add: copied_fields_def cell_text_def str_int_def str_nat.simps)
qed

text \<open>
  Every data line, whatever the input record holds, ends with the rotation as a
  decimal integer and the seven constants \<^verbatim>\<open>0,1,100,0,0,1,0\<close>, unquoted, before CR LF:
  quoting can only affect the five fields copied from the input.
\<close>

theorem data_line_tail:
  assumes "map_row row = Inr cs"
  shows "\<exists>pre n. writerow cs = pre @ '','' @ str_int n @ '',0,1,100,0,0,1,0'' @ lineterminator
           \<and> rotation_cell (cell row ''Rot'') = Inr (PInt n)"
  using writerow_map_row [OF assms] by blast

theorem data_line_tail_witness:
  "\<exists>pre n. writerow [PStr ''a,b'', PStr '''', PStr '''', PStr '''', PStr '''', PInt 0,
                       PInt 0, PInt 1, PInt 100, PInt 0, PInt 0, PInt 1, PInt 0]
              = pre @ '','' @ str_int n @ '',0,1,100,0,0,1,0'' @ lineterminator
           \<and> rotation_cell (cell [''Ref'' \<mapsto> PStr ''a,b''] ''Rot'') = Inr (PInt n)"
proof -
  have m: "map_row [''Ref'' \<mapsto> PStr ''a,b''] =
      Inr [PStr ''a,b'', PStr '''', PStr '''', PStr '''', PStr '''', PInt 0,
           PInt 0, PInt 1, PInt 100, PInt 0, PInt 0, PInt 1, PInt 0]"
    by (simp add: map_row_eval)
  from data_line_tail [OF m] show ?thesis .
qed

text \<open>
  C22. Whenever both files open, the output file holds the twelve preamble lines,
  character for character as listed in \<open>preamble_lines\<close>, each ended by CR LF, followed
  by the lines of the rows produced before the first failing one; when the input has
  no header, or reading the header fails, it holds the preamble lines alone.
\<close>

theorem output_text_opened:
  assumes "open_in w = Inr rd" and "open_out w = None"
  shows "output_text (convert_csv_to_neoden inp outp w) =
     Some (crlf_lines preamble_lines @
           (case fieldnames rd of
              Inr (Some ns) \<Rightarrow> file_text (good_rows (rows rd))
            | _ \<Rightarrow> []))"
  using assms by (simp add: convert_csv_to_neoden_def output_text_convert_body)

theorem output_text_opened_witness:
  "output_text (convert_csv_to_neoden ''in.csv'' ''out.csv''
     \<lparr>open_in = Inr \<lparr>fieldnames = Inr None, rows = [], rows_error = None\<rparr>, open_out = None\<rparr>)
   = Some (crlf_lines preamble_lines)"
  using output_text_opened
    [of "\<lparr>open_in = Inr \<lparr>fieldnames = Inr None, rows = [], rows_error = None\<rparr>, open_out = None\<rparr>"
        "\<lparr>fieldnames = Inr None, rows = [], rows_error = None\<rparr>" "''in.csv''" "''out.csv''"]
  by simp

end
