(* ===== verification/Csv_Reader.thy ===== *)
theory Csv_Reader
  imports Stream_Driver Csv_Writer "HOL-Library.Multiset"
begin

text \<open>
  How the input file becomes rows (\<^verbatim>\<open>src/convert_kicad_to_yy1.py\<close>, lines 14, 17, 35 and
  54): the file is opened in text mode with the default \<^verbatim>\<open>newline\<close>, so CR LF and CR
  arrive as LF (\<open>universal_newlines\<close>); \<^verbatim>\<open>csv.DictReader\<close> iterates over its lines
  (\<open>split_lines\<close>) and feeds them, character by character and with an end-of-line mark
  after each line, to the state machine of \<^verbatim>\<open>csv.reader\<close> for the default dialect
  (\<open>parse_process_char\<close>); the first record gives the field names, every later record
  that is not empty gives a dictionary (\<open>dict_row\<close>). \<open>dict_reader\<close> is the resulting
  \<open>reader\<close> of theory \<open>Stream_Driver\<close>. Escape characters are not part of the default
  dialect, so the three escape states of the machine cannot be entered and are left out.
\<close>

section \<open>Text mode\<close>

fun universal_newlines :: "bool \<Rightarrow> string \<Rightarrow> string" where
  "universal_newlines after_cr [] = []"
| "universal_newlines after_cr (c # cs) =
     (if c = CHR 0x0D then CHR 0x0A # universal_newlines True cs
      else if c = CHR 0x0A \<and> after_cr then universal_newlines False cs
      else c # universal_newlines False cs)"

fun split_lines :: "string \<Rightarrow> string \<Rightarrow> string list" where
  "split_lines cur [] = (if cur = [] then [] else [cur])"
| "split_lines cur (c # cs) =
     (if c = CHR 0x0A then (cur @ [c]) # split_lines [] cs else split_lines (cur @ [c]) cs)"

section \<open>The state machine of \<^verbatim>\<open>csv.reader\<close>\<close>

datatype parse_state =
    START_RECORD
  | START_FIELD
  | IN_FIELD
  | IN_QUOTED_FIELD
  | QUOTE_IN_QUOTED_FIELD
  | EAT_CRNL

record rstate =
  pstate :: parse_state
  pfield :: string
  pfields :: "string list"

definition parse_reset :: rstate where
  "parse_reset = \<lparr>pstate = START_RECORD, pfield = [], pfields = []\<rparr>"

definition parse_add_char :: "rstate \<Rightarrow> char \<Rightarrow> rstate res" where
  "parse_add_char s c =
     (if 131072 \<le> length (pfield s)
      then Inl (OtherError ''field larger than field limit (131072)'')
      else Inr (s\<lparr>pfield := pfield s @ [c]\<rparr>))"

definition parse_save_field :: "rstate \<Rightarrow> rstate" where
  "parse_save_field s = s\<lparr>pfields := pfields s @ [pfield s], pfield := []\<rparr>"

text \<open>The input symbol \<open>None\<close> is the end-of-line mark that follows each line.\<close>

definition end_of_line :: "rstate \<Rightarrow> char option \<Rightarrow> rstate" where
  "end_of_line s c =
     (parse_save_field s)\<lparr>pstate := (if c = None then START_RECORD else EAT_CRNL)\<rparr>"

definition parse_process_char :: "rstate \<Rightarrow> char option \<Rightarrow> rstate res" where
  "parse_process_char s c =
     (case pstate s of
        START_RECORD \<Rightarrow>
          if c = None then Inr s
          else if c = Some CHR 0x0A \<or> c = Some CHR 0x0D then Inr (s\<lparr>pstate := EAT_CRNL\<rparr>)
          else if c = Some CHR 0x22 then Inr (s\<lparr>pstate := IN_QUOTED_FIELD\<rparr>)
          else if c = Some CHR '','' then Inr ((parse_save_field s)\<lparr>pstate := START_FIELD\<rparr>)
          else rbind (parse_add_char s (the c)) (\<lambda>s'. Inr (s'\<lparr>pstate := IN_FIELD\<rparr>))
      | START_FIELD \<Rightarrow>
          if c = None \<or> c = Some CHR 0x0A \<or> c = Some CHR 0x0D then Inr (end_of_line s c)
          else if c = Some CHR 0x22 then Inr (s\<lparr>pstate := IN_QUOTED_FIELD\<rparr>)
          else if c = Some CHR '','' then Inr (parse_save_field s)
          else rbind (parse_add_char s (the c)) (\<lambda>s'. Inr (s'\<lparr>pstate := IN_FIELD\<rparr>))
      | IN_FIELD \<Rightarrow>
          if c = None \<or> c = Some CHR 0x0A \<or> c = Some CHR 0x0D then Inr (end_of_line s c)
          else if c = Some CHR '','' then Inr ((parse_save_field s)\<lparr>pstate := START_FIELD\<rparr>)
          else parse_add_char s (the c)
      | IN_QUOTED_FIELD \<Rightarrow>
          if c = None then Inr s
          else if c = Some CHR 0x22 then Inr (s\<lparr>pstate := QUOTE_IN_QUOTED_FIELD\<rparr>)
          else parse_add_char s (the c)
      | QUOTE_IN_QUOTED_FIELD \<Rightarrow>
          if c = Some CHR 0x22
          then rbind (parse_add_char s CHR 0x22) (\<lambda>s'. Inr (s'\<lparr>pstate := IN_QUOTED_FIELD\<rparr>))
          else if c = Some CHR '','' then Inr ((parse_save_field s)\<lparr>pstate := START_FIELD\<rparr>)
          else if c = None \<or> c = Some CHR 0x0A \<or> c = Some CHR 0x0D then Inr (end_of_line s c)
          else rbind (parse_add_char s (the c)) (\<lambda>s'. Inr (s'\<lparr>pstate := IN_FIELD\<rparr>))
      | EAT_CRNL \<Rightarrow>
          if c = Some CHR 0x0A \<or> c = Some CHR 0x0D then Inr s
          else if c = None then Inr (s\<lparr>pstate := START_RECORD\<rparr>)
          else Inl (OtherError (''new-line character seen in unquoted field - do you need to ''
                      @ ''open the file with newline='' @ [CHR 0x27, CHR 0x27] @ ''?'')))"

fun feed_chars :: "rstate \<Rightarrow> string \<Rightarrow> rstate res" where
  "feed_chars s [] = Inr s"
| "feed_chars s (c # cs) = rbind (parse_process_char s (Some c)) (\<lambda>s'. feed_chars s' cs)"

definition process_line :: "rstate \<Rightarrow> string \<Rightarrow> rstate res" where
  "process_line s l = rbind (feed_chars s l) (\<lambda>s'. parse_process_char s' None)"

text \<open>
  All records of the lines, up to the first error. A record is complete when a line
  ends in state \<open>START_RECORD\<close>; the next record starts from \<open>parse_reset\<close>. When the
  lines end inside a quoted field or with characters collected, the field is saved and
  the record returned.
\<close>

fun read_lines :: "rstate \<Rightarrow> string list \<Rightarrow> string list list \<times> py_exn option" where
  "read_lines s [] =
     (if pfield s \<noteq> [] \<or> pstate s = IN_QUOTED_FIELD
      then ([pfields (parse_save_field s)], None)
      else ([], None))"
| "read_lines s (l # ls) =
     (case process_line s l of
        Inl e \<Rightarrow> ([], Some e)
      | Inr s' \<Rightarrow>
          if pstate s' = START_RECORD
          then (case read_lines parse_reset ls of (rs, e) \<Rightarrow> (pfields s' # rs, e))
          else read_lines s' ls)"

definition csv_records :: "string \<Rightarrow> string list list \<times> py_exn option" where
  "csv_records text = read_lines parse_reset (split_lines [] (universal_newlines False text))"

section \<open>\<^verbatim>\<open>csv.DictReader\<close>\<close>

text \<open>
  The dictionary of a record: \<^verbatim>\<open>dict(zip(fieldnames, row))\<close>, then \<^verbatim>\<open>None\<close> for every
  field name the record is too short for. Later names win over earlier equal ones.
  Values beyond the last field name go under the key \<^verbatim>\<open>None\<close>, which no string equals
  and the converter never looks up, so they are left out.
\<close>

definition dict_row :: "string list \<Rightarrow> string list \<Rightarrow> row" where
  "dict_row names vals =
     fold (\<lambda>(k, v) d. d(k \<mapsto> v))
       (zip names (map PStr vals @ replicate (length names - length vals) PNone)) Map.empty"

definition dict_reader :: "string \<Rightarrow> reader" where
  "dict_reader text =
     (case csv_records text of
        ([], None) \<Rightarrow> \<lparr>fieldnames = Inr None, rows = [], rows_error = None\<rparr>
      | ([], Some e) \<Rightarrow> \<lparr>fieldnames = Inl e, rows = [], rows_error = None\<rparr>
      | (names # recs, e) \<Rightarrow>
          \<lparr>fieldnames = Inr (Some names),
           rows = map (dict_row names) (filter (\<lambda>r. r \<noteq> []) recs),
           rows_error = e\<rparr>)"

text \<open>
  The two files as the function meets them: the input is absent or holds a text, the
  output can be created or opening it raises.
\<close>

definition file_world :: "string option \<Rightarrow> py_exn option \<Rightarrow> world" where
  "file_world input out_error =
     \<lparr>open_in = (case input of None \<Rightarrow> Inl FileNotFoundError | Some text \<Rightarrow> Inr (dict_reader text)),
      open_out = out_error\<rparr>"

section \<open>Reading back what the writer wrote\<close>

text \<open>
  Vocabulary of the round trip: a field the reader can take (within the field limit, no
  line break), the states in which the machine expects a field, and the characters
  \<open>writerow\<close> puts before the line terminator.
\<close>

definition field_ok :: "string \<Rightarrow> bool" where
  "field_ok f \<longleftrightarrow> length f \<le> 131072 \<and> CHR 0x0D \<notin> set f \<and> CHR 0x0A \<notin> set f"

definition at_field_start :: "rstate \<Rightarrow> bool" where
  "at_field_start s \<longleftrightarrow> (pstate s = START_RECORD \<or> pstate s = START_FIELD) \<and> pfield s = []"

definition record_body :: "cells \<Rightarrow> string" where
  "record_body row =
     (if map cell_text row = [[]] then [CHR 0x22, CHR 0x22]
      else join_fields (map (\<lambda>v. join_append (cell_text v)) row))"

text \<open>The values a record gives to the field names, in order: its fields, then \<^verbatim>\<open>None\<close>.\<close>

definition padded :: "string list \<Rightarrow> string list \<Rightarrow> pyval list" where
  "padded names vals = map PStr vals @ replicate (length names - length vals) PNone"

lemmas csv_reader_eval =
  csv_records_def process_line_def parse_process_char_def parse_add_char_def parse_save_field_def
  end_of_line_def parse_reset_def dict_row_def dict_reader_def file_world_def

section \<open>Lines\<close>

lemma universal_newlines_no_cr: "CHR 0x0D \<notin> set (universal_newlines b s)"
  by (induction b s rule: universal_newlines.induct) auto

lemma universal_newlines_id:
  "CHR 0x0D \<notin> set s \<Longrightarrow> universal_newlines False s = s"
  by (induction s) auto

lemma universal_newlines_crlf:
  "CHR 0x0D \<notin> set a \<Longrightarrow>
   universal_newlines False (a @ CHR 0x0D # CHR 0x0A # rest) =
     a @ CHR 0x0A # universal_newlines False rest"
  by (induction a) auto

lemma split_lines_line:
  "CHR 0x0A \<notin> set a \<Longrightarrow>
   split_lines cur (a @ CHR 0x0A # rest) = (cur @ a @ [CHR 0x0A]) # split_lines [] rest"
  by (induction a arbitrary: cur) auto

lemma split_lines_no_empty: "[] \<notin> set (split_lines cur s)"
  by (induction s arbitrary: cur) auto

lemma universal_newlines_lf:
  "CHR 0x0D \<notin> set a \<Longrightarrow>
   universal_newlines False (a @ CHR 0x0A # rest) = a @ CHR 0x0A # universal_newlines False rest"
  by (induction a) auto

lemma universal_newlines_after:
  "c \<noteq> CHR 0x0A \<Longrightarrow> c \<noteq> CHR 0x0D \<Longrightarrow>
   universal_newlines b (a @ c # rest) = universal_newlines b a @ c # universal_newlines False rest"
  by (induction b a rule: universal_newlines.induct) auto

lemma set_universal_newlines: "set (universal_newlines b s) \<subseteq> insert (CHR 0x0A) (set s)"
  by (induction b s rule: universal_newlines.induct) auto

lemma length_universal_newlines: "length (universal_newlines b s) \<le> length s"
  by (induction b s rule: universal_newlines.induct) auto

lemma concat_split_lines: "concat (split_lines cur u) = cur @ u"
  by (induction u arbitrary: cur) simp_all

lemma split_lines_first: "\<exists>l ls. split_lines (c # cur) u = (c # l) # ls"
proof (induction u arbitrary: cur)
  case Nil
  show ?case by simp
next
  case (Cons a u)
  show ?case
  proof (cases "a = CHR 0x0A")
    case True
    then show ?thesis by simp
  next
    case False
    with Cons [of "cur @ [a]"] show ?thesis by simp
  qed
qed

section \<open>Feeding characters\<close>

lemma feed_chars_append:
  "feed_chars s (a @ b) = rbind (feed_chars s a) (\<lambda>s'. feed_chars s' b)"
  by (induction a arbitrary: s) (simp_all add: rbind_assoc)

lemma process_line_append:
  "process_line s (a @ b) = rbind (feed_chars s a) (\<lambda>s'. process_line s' b)"
  by (simp add: process_line_def feed_chars_append rbind_assoc)

section \<open>One field\<close>

lemma parse_add_char_ok:
  "length (pfield s) < 131072 \<Longrightarrow> parse_add_char s c = Inr (s\<lparr>pfield := pfield s @ [c]\<rparr>)"
  by (simp add: parse_add_char_def)

lemma feed_in_field:
  assumes "pstate s = IN_FIELD" and "\<forall>c\<in>set f. \<not> special_char c"
    and "length (pfield s) + length f \<le> 131072"
  shows "feed_chars s f = Inr (s\<lparr>pfield := pfield s @ f\<rparr>)"
  using assms
proof (induction f arbitrary: s)
  case Nil
  then show ?case by simp
next
  case (Cons c f)
  from Cons.prems have c: "c \<noteq> CHR 0x0A" "c \<noteq> CHR 0x0D" "c \<noteq> CHR '',''"
    by (auto simp: special_char_def)
  from Cons.prems have l: "length (pfield s) < 131072" by simp
  have step: "parse_process_char s (Some c) = Inr (s\<lparr>pfield := pfield s @ [c]\<rparr>)"
    using Cons.prems(1) c by (simp add: parse_process_char_def parse_add_char_ok [OF l])
  have "feed_chars (s\<lparr>pfield := pfield s @ [c]\<rparr>) f =
      Inr (s\<lparr>pfield := pfield s @ [c]\<rparr>\<lparr>pfield := pfield (s\<lparr>pfield := pfield s @ [c]\<rparr>) @ f\<rparr>)"
    using Cons.prems by (intro Cons.IH) simp_all
  with step show ?case by simp
qed

lemma feed_plain_start:
  assumes "at_field_start s" and "f \<noteq> []" and "\<forall>c\<in>set f. \<not> special_char c"
    and "length f \<le> 131072"
  shows "feed_chars s f = Inr (s\<lparr>pstate := IN_FIELD, pfield := f\<rparr>)"
proof -
  from assms(2) obtain c cs where f: "f = c # cs" by (cases f) auto
  with assms(3) have c: "c \<noteq> CHR 0x0A" "c \<noteq> CHR 0x0D" "c \<noteq> CHR '',''" "c \<noteq> CHR 0x22"
    by (auto simp: special_char_def)
  have step: "parse_process_char s (Some c) = Inr (s\<lparr>pstate := IN_FIELD, pfield := [c]\<rparr>)"
    using assms(1) c by (auto simp: at_field_start_def parse_process_char_def parse_add_char_def)
  have "feed_chars (s\<lparr>pstate := IN_FIELD, pfield := [c]\<rparr>) cs =
      Inr (s\<lparr>pstate := IN_FIELD, pfield := [c]\<rparr>
            \<lparr>pfield := pfield (s\<lparr>pstate := IN_FIELD, pfield := [c]\<rparr>) @ cs\<rparr>)"
    using assms(3,4) f by (intro feed_in_field) simp_all
  with step show ?thesis by (simp add: f)
qed

lemma feed_in_quoted:
  assumes "pstate s = IN_QUOTED_FIELD" and "length (pfield s) + length f \<le> 131072"
  shows "feed_chars s (double_quotes f) = Inr (s\<lparr>pfield := pfield s @ f\<rparr>)"
  using assms
proof (induction f arbitrary: s)
  case Nil
  then show ?case by simp
next
  case (Cons c f)
  from Cons.prems have l: "length (pfield s) < 131072" by simp
  let ?s = "s\<lparr>pfield := pfield s @ [c]\<rparr>"
  have ih: "feed_chars ?s (double_quotes f) = Inr (?s\<lparr>pfield := pfield ?s @ f\<rparr>)"
    using Cons.prems by (intro Cons.IH) simp_all
  show ?case
  proof (cases "c = CHR 0x22")
    case True
    have "parse_process_char s (Some c) = Inr (s\<lparr>pstate := QUOTE_IN_QUOTED_FIELD\<rparr>)"
      using Cons.prems(1) True by (simp add: parse_process_char_def)
    moreover have "parse_process_char (s\<lparr>pstate := QUOTE_IN_QUOTED_FIELD\<rparr>) (Some c) = Inr ?s"
      using Cons.prems(1) True l by (simp add: parse_process_char_def parse_add_char_def)
    ultimately show ?thesis using ih True by simp
  next
    case False
    have "parse_process_char s (Some c) = Inr ?s"
      using Cons.prems(1) False by (simp add: parse_process_char_def parse_add_char_ok [OF l])
    with ih False show ?thesis by simp
  qed
qed

lemma feed_quoted_start:
  assumes "at_field_start s" and "length f \<le> 131072"
  shows "feed_chars s (CHR 0x22 # double_quotes f @ [CHR 0x22]) =
           Inr (s\<lparr>pstate := QUOTE_IN_QUOTED_FIELD, pfield := f\<rparr>)"
proof -
  let ?q = "s\<lparr>pstate := IN_QUOTED_FIELD\<rparr>"
  have a: "parse_process_char s (Some CHR 0x22) = Inr ?q"
    using assms(1) by (auto simp: at_field_start_def parse_process_char_def)
  have b: "feed_chars ?q (double_quotes f) = Inr (?q\<lparr>pfield := pfield ?q @ f\<rparr>)"
    using assms by (intro feed_in_quoted) (simp_all add: at_field_start_def)
  have e: "pfield s = []" using assms(1) by (simp add: at_field_start_def)
  have c: "parse_process_char (s\<lparr>pstate := IN_QUOTED_FIELD, pfield := pfield s @ f\<rparr>)
             (Some CHR 0x22) = Inr (s\<lparr>pstate := QUOTE_IN_QUOTED_FIELD, pfield := f\<rparr>)"
    by (simp add: e parse_process_char_def)
  show ?thesis by (simp add: a feed_chars_append b c)
qed

section \<open>One record\<close>

lemma at_field_start_simps [simp]:
  "at_field_start parse_reset"
  "at_field_start \<lparr>pstate = START_FIELD, pfield = [], pfields = fs\<rparr>"
  by (simp_all add: at_field_start_def parse_reset_def)

text \<open>What a written field leaves in the machine: the state and the collected field.\<close>

lemma feed_join_append:
  assumes "at_field_start s" and "length f \<le> 131072"
  shows "feed_chars s (join_append f) =
           Inr (if list_ex special_char f then s\<lparr>pstate := QUOTE_IN_QUOTED_FIELD, pfield := f\<rparr>
                else if f = [] then s
                else s\<lparr>pstate := IN_FIELD, pfield := f\<rparr>)"
proof (cases "list_ex special_char f")
  case True
  then show ?thesis
    using feed_quoted_start [OF assms] by (simp add: join_append_quoted del: feed_chars.simps)
next
  case False
  then have "\<forall>c\<in>set f. \<not> special_char c" by (simp add: list_ex_iff)
  with False assms show ?thesis by (cases "f = []") (simp_all add: feed_plain_start)
qed

lemma feed_field_delimiter:
  assumes "at_field_start s" and "length f \<le> 131072"
  shows "feed_chars s (join_append f @ '','') =
           Inr \<lparr>pstate = START_FIELD, pfield = [], pfields = pfields s @ [f]\<rparr>"
proof -
  have e: "pfield s = []" and st: "pstate s = START_RECORD \<or> pstate s = START_FIELD"
    using assms(1) by (simp_all add: at_field_start_def)
  show ?thesis
    using st
    by (auto simp: feed_chars_append feed_join_append [OF assms] e parse_process_char_def
        parse_save_field_def)
qed

lemma process_last_field:
  assumes "at_field_start s" and "length f \<le> 131072"
    and "pstate s = START_FIELD \<or> f \<noteq> []"
  shows "process_line s (join_append f @ [CHR 0x0A]) =
           Inr \<lparr>pstate = START_RECORD, pfield = [], pfields = pfields s @ [f]\<rparr>"
proof -
  have e: "pfield s = []" and st: "pstate s = START_RECORD \<or> pstate s = START_FIELD"
    using assms(1) by (simp_all add: at_field_start_def)
  show ?thesis
    using st assms(3)
    by (auto simp: process_line_def feed_chars_append feed_join_append [OF assms(1,2)] e
        parse_process_char_def parse_save_field_def end_of_line_def)
qed

lemma process_fields:
  assumes "at_field_start s" and "\<forall>f\<in>set fs. length f \<le> 131072" and "fs \<noteq> []"
    and "pstate s = START_FIELD \<or> fs \<noteq> [[]]"
  shows "process_line s (join_fields (map join_append fs) @ [CHR 0x0A]) =
           Inr \<lparr>pstate = START_RECORD, pfield = [], pfields = pfields s @ fs\<rparr>"
  using assms
proof (induction fs arbitrary: s rule: join_fields.induct)
  case 1
  then show ?case by simp
next
  case (2 f)
  then show ?case by (simp add: process_last_field)
next
  case (3 f g fs)
  let ?s = "\<lparr>pstate = START_FIELD, pfield = [], pfields = pfields s @ [f]\<rparr>"
  have "process_line ?s (join_fields (map join_append (g # fs)) @ [CHR 0x0A]) =
      Inr \<lparr>pstate = START_RECORD, pfield = [], pfields = pfields ?s @ g # fs\<rparr>"
    using "3.prems" by (intro "3.IH") simp_all
  moreover have "feed_chars s (join_append f @ '','') = Inr ?s"
    using "3.prems" by (intro feed_field_delimiter) simp_all
  ultimately show ?case
    using process_line_append [of s "join_append f @ '',''"
        "join_fields (map join_append (g # fs)) @ [CHR 0x0A]"]
    by simp
qed

section \<open>A file\<close>

lemma join_fields_join_append_Nil_iff:
  "join_fields (map join_append fs) = [] \<longleftrightarrow> fs = [] \<or> fs = [[]]"
  by (auto simp: join_fields_Nil_iff map_eq_Cons_conv)

lemma writerow_record_body: "writerow row = record_body row @ [CHR 0x0D, CHR 0x0A]"
proof -
  have "map (\<lambda>v. join_append (cell_text v)) row = map join_append (map cell_text row)"
    by simp
  then have "join_fields (map (\<lambda>v. join_append (cell_text v)) row) = [] \<longleftrightarrow>
      map cell_text row = [] \<or> map cell_text row = [[]]"
    by (simp only: join_fields_join_append_Nil_iff)
  then show ?thesis
    by (auto simp: writerow_def record_body_def lineterminator_def Let_def)
qed

lemma set_double_quotes [simp]: "set (double_quotes f) = set f"
  by (induction f) auto

lemma set_join_append: "set (join_append f) \<subseteq> insert (CHR 0x22) (set f)"
  by (auto simp: join_append_def)

lemma set_join_fields: "set (join_fields fs) \<subseteq> insert (CHR '','') (\<Union>f\<in>set fs. set f)"
  by (induction fs rule: join_fields.induct) auto

lemma record_body_chars:
  assumes "c \<in> set (record_body row)"
  shows "c = CHR '','' \<or> c = CHR 0x22 \<or> (\<exists>v\<in>set row. c \<in> set (cell_text v))"
proof (cases "map cell_text row = [[]]")
  case True
  with assms show ?thesis by (simp add: record_body_def)
next
  case False
  with assms have "c \<in> set (join_fields (map (\<lambda>v. join_append (cell_text v)) row))"
    by (simp add: record_body_def)
  with set_join_fields obtain v where "c = CHR '','' \<or> (v \<in> set row \<and> c \<in> set (join_append (cell_text v)))"
    by fastforce
  with set_join_append show ?thesis by fastforce
qed

lemma record_body_no_newline:
  assumes "\<forall>v\<in>set row. field_ok (cell_text v)"
  shows "CHR 0x0D \<notin> set (record_body row)" and "CHR 0x0A \<notin> set (record_body row)"
  using assms record_body_chars [of "CHR 0x0D" row] record_body_chars [of "CHR 0x0A" row]
  by (auto simp: field_ok_def)

lemma parse_reset_sel [simp]:
  "pstate parse_reset = START_RECORD" "pfield parse_reset = []" "pfields parse_reset = []"
  by (simp_all add: parse_reset_def)

lemma process_record:
  assumes "\<forall>v\<in>set row. field_ok (cell_text v)"
  shows "process_line parse_reset (record_body row @ [CHR 0x0A]) =
           Inr \<lparr>pstate = START_RECORD, pfield = [], pfields = map cell_text row\<rparr>"
proof -
  consider "row = []" | "map cell_text row = [[]]" | "row \<noteq> []" "map cell_text row \<noteq> [[]]"
    by blast
  then show ?thesis
  proof cases
    case 1
    then show ?thesis
      by (simp add: record_body_def process_line_def parse_process_char_def parse_reset_def)
  next
    case 2
    then show ?thesis
      by (simp add: record_body_def process_line_def parse_process_char_def parse_reset_def
          parse_add_char_def parse_save_field_def end_of_line_def)
  next
    case 3
    have "process_line parse_reset (join_fields (map join_append (map cell_text row)) @ [CHR 0x0A])
        = Inr \<lparr>pstate = START_RECORD, pfield = [],
               pfields = pfields parse_reset @ map cell_text row\<rparr>"
      using assms 3 by (intro process_fields) (simp_all add: field_ok_def)
    with 3 show ?thesis by (simp add: record_body_def comp_def)
  qed
qed

lemma universal_newlines_file_text:
  assumes "\<forall>row\<in>set recs. \<forall>v\<in>set row. field_ok (cell_text v)"
  shows "universal_newlines False (file_text recs) =
           concat (map (\<lambda>row. record_body row @ [CHR 0x0A]) recs)"
  using assms
  by (induction recs)
     (simp_all add: writerow_record_body universal_newlines_crlf record_body_no_newline)

lemma split_lines_records:
  assumes "\<forall>row\<in>set recs. \<forall>v\<in>set row. field_ok (cell_text v)"
  shows "split_lines [] (concat (map (\<lambda>row. record_body row @ [CHR 0x0A]) recs)) =
           map (\<lambda>row. record_body row @ [CHR 0x0A]) recs"
  using assms
  by (induction recs) (simp_all add: split_lines_line record_body_no_newline)

lemma read_lines_records:
  assumes "\<forall>row\<in>set recs. \<forall>v\<in>set row. field_ok (cell_text v)"
  shows "read_lines parse_reset (map (\<lambda>row. record_body row @ [CHR 0x0A]) recs) =
           (map (map cell_text) recs, None)"
  using assms
  by (induction recs) (simp_all add: process_record)

text \<open>
  C31. Reading back what the writer wrote: for rows whose cell texts hold no carriage
  return or line feed and are within the reader's field limit of 131072 characters,
  the records that \<^verbatim>\<open>csv.reader\<close> finds in the text written by \<^verbatim>\<open>writer.writerow\<close>,
  opened in text mode, are exactly the cell texts of the rows, in order, and reading
  raises nothing; commas and double quotes inside a field survive.
\<close>

theorem csv_roundtrip:
  assumes "\<forall>row\<in>set recs. \<forall>v\<in>set row. field_ok (cell_text v)"
  shows "csv_records (file_text recs) = (map (map cell_text) recs, None)"
  by (simp add: csv_records_def universal_newlines_file_text [OF assms]
      split_lines_records [OF assms] read_lines_records [OF assms])

theorem csv_roundtrip_witness:
  "csv_records (file_text [[PStr ''a,b'', PInt (- 5), PNone], [PStr [CHR 0x22]], []]) =
     ([[''a,b'', ''-5'', ''''], [[CHR 0x22]], []], None)"
  using csv_roundtrip [of "[[PStr ''a,b'', PInt (- 5), PNone], [PStr [CHR 0x22]], []]"]
  by (simp add: field_ok_def cell_text_def str_int_def str_nat.simps)

section \<open>Dictionaries\<close>

lemma fold_upd_map_of:
  "fold (\<lambda>(k, v) d. d(k \<mapsto> v)) xs m = m ++ map_of (rev xs)"
  by (induction xs arbitrary: m) (auto simp: map_add_def fun_eq_iff split: option.splits)

lemma dict_row_map_of: "dict_row names vals = map_of (rev (zip names (padded names vals)))"
  by (simp add: dict_row_def padded_def fold_upd_map_of)

lemma map_of_rev_distinct: "distinct (map fst xs) \<Longrightarrow> map_of (rev xs) = map_of xs"
  by (subst map_of_inject_set) (simp_all add: rev_map [symmetric])

lemma length_padded: "length names \<le> length (padded names vals)"
  by (simp add: padded_def)

lemma padded_nth:
  "i < length names \<Longrightarrow>
   padded names vals ! i = (if i < length vals then PStr (vals ! i) else PNone)"
  by (simp add: padded_def nth_append)

lemma map_fst_zip_padded [simp]: "map fst (zip names (padded names vals)) = names"
  using length_padded [of names vals] by (simp add: map_fst_zip_take)

text \<open>A name that is not in the header is not in the dictionary.\<close>

lemma dict_row_None: "k \<notin> set names \<Longrightarrow> dict_row names vals k = None"
proof -
  assume "k \<notin> set names"
  then have "k \<notin> fst ` set (zip names (padded names vals))"
    by (auto dest: set_zip_leftD)
  then show ?thesis by (simp add: dict_row_map_of map_of_eq_None_iff)
qed

lemma dom_dict_row: "dom (dict_row names vals) = set names"
proof -
  have "dom (dict_row names vals) = fst ` set (rev (zip names (padded names vals)))"
    unfolding dict_row_map_of by (rule dom_map_of_conv_image_fst)
  also have "\<dots> = set (map fst (zip names (padded names vals)))"
    by (simp only: set_map set_rev)
  also have "\<dots> = set names" by (simp only: map_fst_zip_padded)
  finally show ?thesis .
qed

text \<open>With distinct names, a name gets the value at its position, or \<^verbatim>\<open>None\<close> beyond the record.\<close>

lemma dict_row_nth:
  assumes "distinct names" and "i < length names"
  shows "dict_row names vals (names ! i) = Some (if i < length vals then PStr (vals ! i) else PNone)"
proof -
  let ?z = "zip names (padded names vals)"
  have i: "i < length ?z" using assms(2) length_padded [of names vals] by simp
  then have "(names ! i, padded names vals ! i) \<in> set ?z"
    by (metis nth_mem nth_zip length_zip min_less_iff_conj)
  moreover have "distinct (map fst ?z)" using assms(1) by simp
  ultimately have "map_of ?z (names ! i) = Some (padded names vals ! i)"
    by (rule map_of_is_SomeI [rotated])
  with assms show ?thesis
    by (simp add: dict_row_map_of map_of_rev_distinct padded_nth)
qed

text \<open>
  A field name beyond the end of a short record gets \<^verbatim>\<open>None\<close>, also when the same name
  occurs earlier in the header with a value.
\<close>

lemma dict_row_short:
  assumes "k \<in> set (drop (length vals) names)"
  shows "dict_row names vals k = Some PNone"
proof -
  let ?n = "length vals"
  from assms have n: "?n \<le> length names"
    by (cases "?n \<le> length names") simp_all
  let ?A = "zip (take ?n names) (map PStr vals)"
  let ?B = "zip (drop ?n names) (replicate (length names - ?n) PNone)"
  have "zip (take ?n names @ drop ?n names) (padded names vals) = ?A @ ?B"
    unfolding padded_def using n by (intro zip_append) simp
  then have z: "zip names (padded names vals) = ?A @ ?B" by simp
  have "map fst ?B = drop ?n names" by (simp add: map_fst_zip)
  then have "fst ` set (rev ?B) = set (drop ?n names)"
    by (metis set_map set_rev)
  with assms have "k \<in> fst ` set (rev ?B)" by simp
  then obtain v where v: "map_of (rev ?B) k = Some v"
    by (metis map_of_eq_None_iff not_Some_eq)
  then have "(k, v) \<in> set ?B" by (auto dest: map_of_SomeD)
  then have "v = PNone" by (auto dest: set_zip_rightD)
  with v show ?thesis by (simp add: dict_row_map_of z map_add_def)
qed

text \<open>The dictionary of a record does not depend on the order of the columns.\<close>

lemma dict_row_zip:
  "dict_row (map fst kvs) (map snd kvs) = map_of (rev (map (\<lambda>(k, v). (k, PStr v)) kvs))"
proof -
  have "zip (map fst kvs) (padded (map fst kvs) (map snd kvs)) = map (\<lambda>(k, v). (k, PStr v)) kvs"
    by (induction kvs) (auto simp: padded_def)
  then show ?thesis by (simp add: dict_row_map_of)
qed

lemma dict_row_permutation:
  assumes "mset kvs' = mset kvs" and "distinct (map fst kvs)"
  shows "dict_row (map fst kvs') (map snd kvs') = dict_row (map fst kvs) (map snd kvs)"
proof -
  let ?f = "\<lambda>(k, v). (k, PStr v) :: string \<times> pyval"
  have fst: "fst \<circ> ?f = fst" by (auto simp: fun_eq_iff)
  have "mset (map fst kvs') = mset (map fst kvs)"
    using assms(1) by (metis mset_map)
  with assms(2) have d': "distinct (map fst kvs')"
    by (metis mset_eq_imp_distinct_iff)
  have "set kvs' = set kvs" using assms(1) by (rule mset_eq_setD)
  then have s: "set (rev (map ?f kvs')) = set (rev (map ?f kvs))" by simp
  have "map_of (rev (map ?f kvs')) = map_of (rev (map ?f kvs))"
    using s assms(2) d'
    by (subst map_of_inject_set) (simp_all add: rev_map [symmetric] fst)
  then show ?thesis by (simp only: dict_row_zip)
qed

text \<open>A blank first line is an empty record; what follows is read as without it.\<close>

lemma csv_records_blank_line:
  "csv_records (CHR 0x0A # t) = (case csv_records t of (recs, e) \<Rightarrow> ([] # recs, e))"
  by (simp add: csv_records_def process_line_def parse_process_char_def parse_reset_def)

lemma dict_row_no_names [simp]: "dict_row [] vals = Map.empty"
  by (simp add: dict_row_def)

end
