(* ===== verification/End_To_End.thy ===== *)
theory End_To_End
  imports Text_Output Csv_Reader
begin

text \<open>
  The function from file to file: \<open>convert_files\<close> runs \<^verbatim>\<open>convert_csv_to_neoden\<close> on an
  input file given by its text (or absent) and an output path that can or cannot be
  created. With \<open>output_text\<close> this is the whole program as a function from the text of
  the input to the text of the output and the lines printed.
\<close>

definition convert_files :: "string \<Rightarrow> string \<Rightarrow> string option \<Rightarrow> py_exn option \<Rightarrow> outcome" where
  "convert_files csv_file_path output_file_path input out_error =
     convert_csv_to_neoden csv_file_path output_file_path (file_world input out_error)"

definition default_line :: string where
  "default_line = '',,,,,0,0,1,100,0,0,1,0''"

definition scenario_input :: string where
  "scenario_input =
     ''Ref,Val,Package,PosX,PosY,Rot,Side'' @ [CHR 0x0A]
       @ ''R1,10k,0402,12.5,34.2,90,Top'' @ [CHR 0x0A]"

definition default_cells :: cells where
  "default_cells =
     [PStr '''', PStr '''', PStr '''', PStr '''', PStr '''', PInt 0,
      PInt 0, PInt 1, PInt 100, PInt 0, PInt 0, PInt 1, PInt 0]"

section \<open>Rows of defaults\<close>

lemma map_row_empty: "map_row Map.empty = Inr default_cells"
  by (simp add: map_row_eval default_cells_def)

lemma writerow_default_cells: "writerow default_cells = default_line @ lineterminator"
  by (simp add: default_cells_def default_line_def writerow_def cell_text_def join_append_def
      special_char_def)

lemma good_rows_empty_rows: "good_rows (replicate n Map.empty) = replicate n default_cells"
  by (induction n) (simp_all add: map_row_empty)

lemma first_error_empty_rows: "first_error (replicate n Map.empty) = None"
  by (induction n) (simp_all add: map_row_empty)

lemma file_text_default_rows:
  "file_text (replicate n default_cells) = crlf_lines (replicate n default_line)"
  by (induction n) (simp_all add: writerow_default_cells)

section \<open>The reader of a file\<close>

lemma dict_reader_empty:
  "dict_reader [] = \<lparr>fieldnames = Inr None, rows = [], rows_error = None\<rparr>"
  by (simp add: dict_reader_def csv_records_def)

lemma map_dict_row_no_names: "map (dict_row []) recs = replicate (length recs) Map.empty"
  by (induction recs) simp_all

lemma dict_reader_blank_first_line:
  "dict_reader (CHR 0x0A # t) =
     \<lparr>fieldnames = Inr (Some []),
      rows = replicate (length (filter (\<lambda>r. r \<noteq> []) (fst (csv_records t)))) Map.empty,
      rows_error = snd (csv_records t)\<rparr>"
  by (cases "csv_records t")
     (simp add: dict_reader_def csv_records_blank_line map_dict_row_no_names)

lemma convert_files_opened:
  "convert_files inp outp (Some text) None = convert_body inp outp (dict_reader text)"
  by (simp add: convert_files_def convert_csv_to_neoden_def file_world_def)

text \<open>
  An input file that is empty: the function writes the whole preamble, prints that
  the input has no headers, and writes no data line.
\<close>

theorem empty_input_file:
  "convert_files inp outp (Some []) None =
     \<lparr>written = Some preamble_rows, printed = [no_header_message]\<rparr>
   \<and> output_text (convert_files inp outp (Some []) None) = Some (crlf_lines preamble_lines)"
  by (simp add: convert_files_opened dict_reader_empty output_text_convert_body)
     (simp add: convert_body_def)

text \<open>
  C29. An input file whose first line is blank: the reader takes the blank line as a
  header without names, so every later line that is not blank, the intended header
  line among them, becomes a row of defaults: the output is the preamble followed by
  one line \<^verbatim>\<open>,,,,,0,0,1,100,0,0,1,0\<close> per such line, and nothing of the input's content.
\<close>

theorem blank_first_line:
  "output_text (convert_files inp outp (Some (CHR 0x0A # t)) None) =
     Some (crlf_lines (preamble_lines @
       replicate (length (filter (\<lambda>r. r \<noteq> []) (fst (csv_records t)))) default_line))"
  by (simp add: convert_files_opened dict_reader_blank_first_line output_text_convert_body
      good_rows_empty_rows file_text_default_rows)

text \<open>
  C33. An input file that holds a header line and nothing else: the output is the
  preamble alone, and the success message is printed.
\<close>

theorem header_only_file:
  assumes "csv_records text = ([names], None)"
  shows "convert_files inp outp (Some text) None =
     \<lparr>written = Some preamble_rows, printed = [success_message inp outp]\<rparr>
   \<and> output_text (convert_files inp outp (Some text) None) = Some (crlf_lines preamble_lines)"
proof -
  have "dict_reader text = \<lparr>fieldnames = Inr (Some names), rows = [], rows_error = None\<rparr>"
    using assms by (simp add: dict_reader_def)
  then show ?thesis
    by (simp add: convert_files_opened output_text_convert_body) (simp add: convert_body_def)
qed

theorem header_only_file_witness:
  "convert_files ''in.csv'' ''out.csv'' (Some (''Ref,Val,Package,PosX,PosY,Rot,Side'' @ [CHR 0x0A])) None
     = \<lparr>written = Some preamble_rows, printed = [success_message ''in.csv'' ''out.csv'']\<rparr>
   \<and> output_text (convert_files ''in.csv'' ''out.csv''
        (Some (''Ref,Val,Package,PosX,PosY,Rot,Side'' @ [CHR 0x0A])) None)
     = Some (crlf_lines preamble_lines)"
proof -
  have "csv_records (''Ref,Val,Package,PosX,PosY,Rot,Side'' @ [CHR 0x0A]) =
      ([[''Ref'', ''Val'', ''Package'', ''PosX'', ''PosY'', ''Rot'', ''Side'']], None)"
    by (simp add: csv_reader_eval)
  from header_only_file [OF this] show ?thesis .
qed

text \<open>
  The record of a data line gives each column the field at its position: with
  distinct header names, the cell the row mapper reads under a name is the field in
  that name's column, and the empty string for a name the header does not have.
\<close>

theorem cell_by_column:
  assumes "distinct names" and "i < length names" and "i < length vals"
    and "k \<notin> set names"
  shows "cell (dict_row names vals) (names ! i) = PStr (vals ! i)
       \<and> cell (dict_row names vals) k = PStr ''''"
  using assms by (simp add: cell_def dict_row_nth dict_row_None)

theorem cell_by_column_witness:
  "cell (dict_row [''Rot'', ''Ref''] [''90'', ''R1'']) ''Ref'' = PStr ''R1''
   \<and> cell (dict_row [''Rot'', ''Ref''] [''90'', ''R1'']) ''Val'' = PStr ''''"
  using cell_by_column [of "[''Rot'', ''Ref'']" 1 "[''90'', ''R1'']" "''Val''"]
  by simp



text \<open>
  A data line with fewer fields than the header, so short that the column \<^verbatim>\<open>Rot\<close>
  is not reached, makes the loop body raise \<^verbatim>\<open>TypeError\<close>: the reader fills the
  missing field with \<^verbatim>\<open>None\<close> and \<^verbatim>\<open>float(None)\<close> is not caught by line 65.
\<close>

theorem short_record_raises:
  assumes "''Rot'' \<in> set (drop (length vals) names)"
  shows "map_row (dict_row names vals) = Inl TypeError"
  using dict_row_short [OF assms]
  by (simp add: map_row_Inl_iff rotation_cell_def cell_def)

theorem short_record_raises_witness:
  "map_row (dict_row [''Ref'', ''Rot''] [''R2'']) = Inl TypeError"
  using short_record_raises [of "[''R2'']" "[''Ref'', ''Rot'']"]
  by simp

end
