(* ===== verification/File_System.thy ===== *)
theory File_System
  imports End_To_End
begin

text \<open>
  The two files as the program meets them: a store from paths to texts, \<^verbatim>\<open>open\<close> for
  reading and for writing as lines 14 and 15 call it, and \<open>convert_on\<close>, the function
  \<^verbatim>\<open>convert_csv_to_neoden\<close> as a transformation of the store. Opening the output
  truncates it before the first line of the input is read (the reader reads at line 35,
  when \<^verbatim>\<open>reader.fieldnames\<close> is first used), and what the writer has written reaches
  the store when the \<^verbatim>\<open>with\<close> statement closes the file: the preamble is shorter than
  the buffer of 8192 bytes (\<open>preamble_fits_buffer\<close>), so nothing of it is in the file
  when the header is read. A path names at most one file and a file has one path: links
  and relative spellings of the same file are not modelled.
\<close>

record filesystem =
  files :: "string \<rightharpoonup> string"
  unwritable :: "string \<rightharpoonup> py_exn"

definition open_read :: "filesystem \<Rightarrow> string \<Rightarrow> string res" where
  "open_read fs path =
     (case files fs path of None \<Rightarrow> Inl FileNotFoundError | Some t \<Rightarrow> Inr path)"

definition open_write :: "filesystem \<Rightarrow> string \<Rightarrow> filesystem res" where
  "open_write fs path =
     (case unwritable fs path of
        Some e \<Rightarrow> Inl e
      | None \<Rightarrow> Inr (fs\<lparr>files := (files fs)(path \<mapsto> [])\<rparr>))"

definition read_text :: "filesystem \<Rightarrow> string \<Rightarrow> string" where
  "read_text fs infile = (case files fs infile of None \<Rightarrow> [] | Some t \<Rightarrow> t)"

definition close_write :: "filesystem \<Rightarrow> string \<Rightarrow> string \<Rightarrow> filesystem" where
  "close_write fs path t = fs\<lparr>files := (files fs)(path \<mapsto> t)\<rparr>"

definition buffer_size :: nat where
  "buffer_size = 8192"

definition convert_on :: "string \<Rightarrow> string \<Rightarrow> filesystem \<Rightarrow> filesystem \<times> string list" where
  "convert_on csv_file_path output_file_path fs =
     (case open_read fs csv_file_path of
        Inl e \<Rightarrow> (fs, [handler_message csv_file_path e])
      | Inr infile \<Rightarrow>
          (case open_write fs output_file_path of
             Inl e \<Rightarrow> (fs, [handler_message csv_file_path e])
           | Inr fs1 \<Rightarrow>
               (let oc = convert_body csv_file_path output_file_path
                           (dict_reader (read_text fs1 infile))
                in (case written oc of
                      None \<Rightarrow> fs1
                    | Some recs \<Rightarrow> close_write fs1 output_file_path (file_text recs),
                    printed oc))))"

definition main_on :: "string list \<Rightarrow> filesystem \<Rightarrow> int \<times> filesystem \<times> string list" where
  "main_on argv fs =
     (if length argv \<noteq> 3 then (1, fs, [usage_message])
      else (0, convert_on (argv ! 1) (argv ! 2) fs))"

section \<open>Opening and closing\<close>

lemma open_read_Inr_iff: "open_read fs p = Inr h \<longleftrightarrow> h = p \<and> p \<in> dom (files fs)"
  by (auto simp: open_read_def split: option.splits)

lemma open_read_Inl_iff: "open_read fs p = Inl e \<longleftrightarrow> e = FileNotFoundError \<and> files fs p = None"
  by (auto simp: open_read_def split: option.splits)

lemma open_write_files:
  "open_write fs q = Inr fs1 \<Longrightarrow> files fs1 = (files fs)(q \<mapsto> []) \<and> unwritable fs1 = unwritable fs"
  by (auto simp: open_write_def split: option.splits)

lemma read_text_truncated:
  "open_write fs q = Inr fs1 \<Longrightarrow> read_text fs1 q = []"
  by (auto simp: read_text_def dest: open_write_files)

lemma read_text_other:
  "open_write fs q = Inr fs1 \<Longrightarrow> p \<noteq> q \<Longrightarrow> read_text fs1 p = read_text fs p"
  by (auto simp: read_text_def dest: open_write_files)

lemma close_write_open_write:
  "open_write fs q = Inr fs1 \<Longrightarrow> close_write fs1 q t = fs\<lparr>files := (files fs)(q \<mapsto> t)\<rparr>"
  by (auto simp: open_write_def close_write_def split: option.splits)

lemma written_convert_body: "\<exists>recs. written (convert_body inp outp rd) = Some recs"
  by (simp add: convert_body_def split: sum.splits option.splits prod.splits)

lemma length_preamble_text: "length (crlf_lines preamble_lines) = 645"
  by (simp add: preamble_lines_def lineterminator_def)

section \<open>The function on the store\<close>

lemma convert_on_missing_input:
  "files fs p = None \<Longrightarrow> convert_on p q fs = (fs, [handler_message p FileNotFoundError])"
  by (simp add: convert_on_def open_read_def)

lemma convert_on_unwritable:
  "files fs p = Some t \<Longrightarrow> unwritable fs q = Some e \<Longrightarrow>
   convert_on p q fs = (fs, [handler_message p e])"
  by (simp add: convert_on_def open_read_def open_write_def)

lemma convert_on_opened:
  assumes "files fs p = Some t" and "unwritable fs q = None"
  shows "convert_on p q fs =
     (fs\<lparr>files := (files fs)(q \<mapsto>
            the (output_text (convert_body p q (dict_reader (if p = q then [] else t)))))\<rparr>,
      printed (convert_body p q (dict_reader (if p = q then [] else t))))"
proof -
  define fs1 where "fs1 = fs\<lparr>files := (files fs)(q \<mapsto> [])\<rparr>"
  have w: "open_write fs q = Inr fs1"
    using assms(2) by (simp add: open_write_def fs1_def)
  have r: "read_text fs1 p = (if p = q then [] else t)"
    using assms(1) by (simp add: read_text_def fs1_def)
  obtain recs where recs: "written (convert_body p q (dict_reader (if p = q then [] else t))) = Some recs"
    using written_convert_body by blast
  show ?thesis
    using assms(1) recs
    by (simp add: convert_on_def open_read_def w r Let_def close_write_open_write [OF w]
        output_text_def)
qed

text \<open>The store after a run: the store before, or that with a new text at the output path.\<close>

lemma convert_on_store:
  "fst (convert_on p q fs) = fs \<or> (\<exists>t. fst (convert_on p q fs) = fs\<lparr>files := (files fs)(q \<mapsto> t)\<rparr>)"
  by (cases "files fs p"; cases "unwritable fs q")
     (auto simp: convert_on_missing_input convert_on_unwritable convert_on_opened)

lemma convert_on_files: "r \<noteq> q \<Longrightarrow> files (fst (convert_on p q fs)) r = files fs r"
  using convert_on_store [of p q fs] by auto

lemma convert_on_unwritable_unchanged: "unwritable (fst (convert_on p q fs)) = unwritable fs"
  using convert_on_store [of p q fs] by auto

lemma convert_on_keeps_files: "dom (files fs) \<subseteq> dom (files (fst (convert_on p q fs)))"
  using convert_on_store [of p q fs] by auto

lemma main_on_main:
  "p \<noteq> q \<Longrightarrow>
   fst (main_on [prog, p, q] fs) = fst (main [prog, p, q] (file_world (files fs p) (unwritable fs q)))"
  by (simp add: main_on_def main_def)

text \<open>
  C10. When the input path and the output path are the same and the file can be written,
  the input is lost: opening it for writing truncates it before its header is read, the
  reader finds an empty file, the function prints that the input has no headers, and
  the file holds the preamble and nothing else afterwards.
\<close>

theorem same_path_loses_input:
  assumes "files fs p = Some t" and "unwritable fs p = None"
  shows "convert_on p p fs =
     (fs\<lparr>files := (files fs)(p \<mapsto> crlf_lines preamble_lines)\<rparr>, [no_header_message])"
  using assms
  by (simp add: convert_on_opened dict_reader_empty output_text_convert_body)
     (simp add: convert_body_def)

theorem same_path_loses_input_witness:
  "convert_on ''bom.csv'' ''bom.csv'' \<lparr>files = [''bom.csv'' \<mapsto> scenario_input], unwritable = Map.empty\<rparr> =
     (\<lparr>files = [''bom.csv'' \<mapsto> crlf_lines preamble_lines], unwritable = Map.empty\<rparr>,
      [no_header_message])"
  using same_path_loses_input
    [of "\<lparr>files = [''bom.csv'' \<mapsto> scenario_input], unwritable = Map.empty\<rparr>" "''bom.csv''"
        scenario_input]
  by simp

text \<open>
  C11. With two different paths, the function on the store is the function on texts:
  the lines printed are those of \<open>convert_files\<close> on the text of the input file, and the
  store afterwards is the store before with the output path holding the text written,
  or the store before when the output was never opened.
\<close>

theorem convert_on_refines_convert_files:
  assumes "p \<noteq> q"
  shows "convert_on p q fs =
     (case output_text (convert_files p q (files fs p) (unwritable fs q)) of
        None \<Rightarrow> fs
      | Some t \<Rightarrow> fs\<lparr>files := (files fs)(q \<mapsto> t)\<rparr>,
      printed (convert_files p q (files fs p) (unwritable fs q)))"
proof (cases "files fs p")
  case None
  then show ?thesis
    by (simp add: convert_on_missing_input convert_files_def convert_csv_to_neoden_def
        file_world_def output_text_def)
next
  case (Some t)
  show ?thesis
  proof (cases "unwritable fs q")
    case None
    with Some assms show ?thesis
      by (simp add: convert_on_opened convert_files_opened output_text_convert_body)
  next
    case (Some e)
    with \<open>files fs p = Some t\<close> show ?thesis
      by (simp add: convert_on_unwritable convert_files_def convert_csv_to_neoden_def
          file_world_def output_text_def)
  qed
qed

theorem convert_on_refines_convert_files_witness:
  "convert_on ''in.csv'' ''out.csv'' \<lparr>files = [''in.csv'' \<mapsto> []], unwritable = Map.empty\<rparr> =
     (\<lparr>files = [''in.csv'' \<mapsto> [], ''out.csv'' \<mapsto> crlf_lines preamble_lines],
       unwritable = Map.empty\<rparr>,
      [no_header_message])"
  using convert_on_refines_convert_files
    [of "''in.csv''" "''out.csv''" "\<lparr>files = [''in.csv'' \<mapsto> []], unwritable = Map.empty\<rparr>"]
  by (simp add: convert_files_opened dict_reader_empty output_text_convert_body)
     (simp add: convert_body_def)

text \<open>
  C12. The function changes at most the file at the output path: every other path holds
  after the run what it held before, no file is removed, and with two different paths
  the input file is left as it was.
\<close>

theorem convert_on_changes_only_output:
  assumes "r \<noteq> q"
  shows "files (fst (convert_on p q fs)) r = files fs r
       \<and> dom (files fs) \<subseteq> dom (files (fst (convert_on p q fs)))"
  using convert_on_files [OF assms] convert_on_keeps_files by simp

theorem convert_on_changes_only_output_witness:
  "files (fst (convert_on ''in.csv'' ''out.csv''
      \<lparr>files = [''in.csv'' \<mapsto> scenario_input], unwritable = Map.empty\<rparr>)) ''in.csv''
     = Some scenario_input"
  using convert_on_changes_only_output
    [of "''in.csv''" "''out.csv''" "''in.csv''"
        "\<lparr>files = [''in.csv'' \<mapsto> scenario_input], unwritable = Map.empty\<rparr>"]
  by simp

text \<open>
  The preamble is 645 characters long: it is shorter than the buffer of the output
  file, so the twelve preamble lines are still in the buffer, and
  the output file is still empty, when line 35 reads the header of the input.
\<close>

theorem preamble_fits_buffer:
  "length (file_text preamble_rows) = 645 \<and> length (file_text preamble_rows) < buffer_size"
  by (simp add: preamble_text buffer_size_def length_preamble_text)

end
