(* ===== verification/Row_Types.thy ===== *)
theory Row_Types
  imports End_To_End
begin

text \<open>
  The types of the cells. A row that \<^verbatim>\<open>csv.DictReader\<close> yields holds strings and, for
  the fields a short line does not reach, \<^verbatim>\<open>None\<close>; it never holds a number. The loop
  body turns such a row into five cells of that kind followed by eight integers, so
  the writer formats the first five columns as text and the last eight with \<^verbatim>\<open>str\<close>.
\<close>

datatype pytype = TStr | TInt | TNone

fun type_of :: "pyval \<Rightarrow> pytype" where
  "type_of (PStr s) = TStr"
| "type_of (PInt n) = TInt"
| "type_of PNone = TNone"

definition input_typed :: "row \<Rightarrow> bool" where
  "input_typed row \<longleftrightarrow>
     list_all (\<lambda>k. type_of (cell row k) \<noteq> TInt)
       [''Ref'', ''Val'', ''Package'', ''PosX'', ''PosY'', ''Rot'']"

definition output_typed :: "cells \<Rightarrow> bool" where
  "output_typed out_row \<longleftrightarrow>
     length out_row = 13
     \<and> list_all (\<lambda>v. type_of v \<noteq> TInt) (take 5 out_row)
     \<and> list_all (\<lambda>v. type_of v = TInt) (drop 5 out_row)"

section \<open>Rows of the reader\<close>

lemma dict_row_type: "dict_row names vals k = Some v \<Longrightarrow> type_of v \<noteq> TInt"
proof -
  assume "dict_row names vals k = Some v"
  then have "(k, v) \<in> set (zip names (padded names vals))"
    by (auto simp: dict_row_map_of dest: map_of_SomeD)
  then have "v \<in> set (padded names vals)" by (rule set_zip_rightD)
  then show ?thesis by (auto simp: padded_def)
qed

lemma cell_dict_row_type: "type_of (cell (dict_row names vals) k) \<noteq> TInt"
  using dict_row_type [of names vals k]
  by (cases "dict_row names vals k") (auto simp: cell_def)

lemma dict_reader_rows:
  "r \<in> set (rows (dict_reader text)) \<Longrightarrow> \<exists>names vals. r = dict_row names vals"
  by (auto simp: dict_reader_def split: prod.splits list.splits option.splits)

lemma dict_reader_input_typed: "r \<in> set (rows (dict_reader text)) \<Longrightarrow> input_typed r"
  by (auto simp: input_typed_def cell_dict_row_type dest!: dict_reader_rows)

section \<open>Rows of the loop body\<close>

lemma map_row_output_typed:
  assumes "map_row row = Inr out_row" and "input_typed row"
  shows "output_typed out_row"
proof -
  from assms(1) obtain rot where "rotation_cell (cell row ''Rot'') = Inr rot"
    and r: "out_row = [cell row ''Ref'', cell row ''Val'', cell row ''Package'',
                       cell row ''PosX'', cell row ''PosY'', rot,
                       PInt 0, PInt 1, PInt 100, PInt 0, PInt 0, PInt 1, PInt 0]"
    by (auto simp: map_row_phases rbind_eq_Inr_iff)
  then obtain n where "rot = PInt n" by (auto dest: rotation_cell_Inr_PInt)
  with r assms(2) show ?thesis by (simp add: output_typed_def input_typed_def)
qed

lemma good_rows_typed:
  "\<forall>r\<in>set rs. input_typed r \<Longrightarrow> list_all output_typed (good_rows rs)"
  by (induction rs) (auto split: sum.splits intro: map_row_output_typed)

lemma convert_body_typed:
  assumes "\<forall>r\<in>set (rows rd). input_typed r"
  shows "\<exists>out. written (convert_body inp outp rd) = Some (preamble_rows @ out)
               \<and> list_all output_typed out"
  using good_rows_typed [OF assms]
  by (auto simp: convert_body_def write_rows_eq split: sum.splits option.splits)

text \<open>
  C20. Every data row of the output is well typed, whatever the input file holds: the
  rows written after the preamble have thirteen cells each, the first five of them
  strings or \<^verbatim>\<open>None\<close> as the reader gave them, the last eight integers.
\<close>

theorem file_rows_well_typed:
  "\<exists>out. written (convert_files inp outp (Some text) None) = Some (preamble_rows @ out)
         \<and> list_all output_typed out"
  unfolding convert_files_opened
  by (rule convert_body_typed) (simp add: dict_reader_input_typed)

end
