(* ===== verification/Reader_Safety.thy ===== *)
theory Reader_Safety
  imports Csv_Reader
begin

text \<open>
  What the reader can raise. The machine of \<^verbatim>\<open>csv.reader\<close> has two errors: a field
  beyond the field limit, and a character after a line break outside quotes. The
  second needs a line with a carriage return or with a line feed before its end, and
  text mode leaves no such line, so on a file opened as line 14 opens it only the field
  limit remains; a file of at most 131072 characters cannot reach it.
\<close>

definition field_limit_error :: py_exn where
  "field_limit_error = OtherError ''field larger than field limit (131072)''"

section \<open>One character\<close>

lemma parse_add_char_cases:
  "parse_add_char s c = Inl field_limit_error \<and> 131072 \<le> length (pfield s)
   \<or> parse_add_char s c = Inr (s\<lparr>pfield := pfield s @ [c]\<rparr>) \<and> length (pfield s) < 131072"
  by (simp add: parse_add_char_def field_limit_error_def)

lemma parse_process_char_Inl:
  assumes "parse_process_char s c = Inl e"
  shows "c \<noteq> None"
    and "e = field_limit_error \<and> 131072 \<le> length (pfield s)
       \<or> pstate s = EAT_CRNL \<and> c \<noteq> Some CHR 0x0A \<and> c \<noteq> Some CHR 0x0D"
  using assms parse_add_char_cases [of s "the c"] parse_add_char_cases [of s "CHR 0x22"]
  by (auto simp: parse_process_char_def rbind_eq_Inl_iff split: parse_state.splits if_splits)

lemma parse_process_char_Inr:
  assumes "parse_process_char s c = Inr s'"
  shows "length (pfield s') \<le> Suc (length (pfield s))
       \<and> (pstate s' = EAT_CRNL \<longrightarrow> pstate s = EAT_CRNL \<or> c = Some CHR 0x0A \<or> c = Some CHR 0x0D)
       \<and> (c = None \<longrightarrow> (pstate s' = START_RECORD \<or> pstate s' = IN_QUOTED_FIELD)
                        \<and> length (pfield s') \<le> length (pfield s))"
  using assms parse_add_char_cases [of s "the c"] parse_add_char_cases [of s "CHR 0x22"]
  by (auto simp: parse_process_char_def rbind_eq_Inr_iff end_of_line_def parse_save_field_def
      split: parse_state.splits if_splits)

section \<open>Lines\<close>

text \<open>
  Within a line that holds no line break, the machine stays out of the state that
  follows a line break; it fails only at the field limit, and a field grows by at most
  one character per character read.
\<close>

lemma feed_chars_plain:
  assumes "CHR 0x0A \<notin> set l" and "CHR 0x0D \<notin> set l" and "pstate s \<noteq> EAT_CRNL"
  shows "case feed_chars s l of
           Inl e \<Rightarrow> e = field_limit_error \<and> 131072 < length (pfield s) + length l
         | Inr s' \<Rightarrow> pstate s' \<noteq> EAT_CRNL \<and> length (pfield s') \<le> length (pfield s) + length l"
  using assms
proof (induction l arbitrary: s)
  case Nil
  then show ?case by simp
next
  case (Cons c l)
  show ?case
  proof (cases "parse_process_char s (Some c)")
    case (Inl e)
    with parse_process_char_Inl(2) [OF Inl] Cons.prems show ?thesis by auto
  next
    case (Inr s1)
    with parse_process_char_Inr [OF Inr] Cons.prems
    have "pstate s1 \<noteq> EAT_CRNL" and "length (pfield s1) \<le> Suc (length (pfield s))"
      by auto
    with Cons.IH [of s1] Cons.prems Inr show ?thesis
      by (auto split: sum.splits)
  qed
qed

lemma process_line_body:
  assumes "CHR 0x0A \<notin> set l" and "CHR 0x0D \<notin> set l" and "pstate s \<noteq> EAT_CRNL"
    and "t = [] \<or> t = [CHR 0x0A]"
  shows "case process_line s (l @ t) of
           Inl e \<Rightarrow> e = field_limit_error \<and> 131072 < length (pfield s) + length (l @ t)
         | Inr s' \<Rightarrow> (pstate s' = START_RECORD \<or> pstate s' = IN_QUOTED_FIELD)
                      \<and> length (pfield s') \<le> length (pfield s) + length (l @ t)"
proof (cases "feed_chars s l")
  case (Inl e)
  with feed_chars_plain [OF assms(1-3)] show ?thesis
    by (simp add: process_line_def feed_chars_append)
next
  case (Inr s1)
  with feed_chars_plain [OF assms(1-3)]
  have s1: "pstate s1 \<noteq> EAT_CRNL" "length (pfield s1) \<le> length (pfield s) + length l"
    by simp_all
  show ?thesis
  proof (cases "feed_chars s1 t")
    case (Inl e)
    with assms(4) have "parse_process_char s1 (Some CHR 0x0A) = Inl e" and "t = [CHR 0x0A]"
      by (auto simp: rbind_eq_Inl_iff)
    with parse_process_char_Inl(2) [of s1 "Some CHR 0x0A" e] s1 Inr Inl show ?thesis
      by (simp add: process_line_def feed_chars_append)
  next
    case (Inr s2)
    with assms(4) parse_process_char_Inr [of s1 "Some CHR 0x0A" s2]
    have s2: "length (pfield s2) \<le> length (pfield s1) + length t"
      by (auto simp: rbind_eq_Inr_iff)
    show ?thesis
    proof (cases "parse_process_char s2 None")
      case (Inl e)
      with parse_process_char_Inl(1) [OF Inl] show ?thesis by simp
    next
      case (Inr s3)
      with parse_process_char_Inr [OF Inr] s1 s2 \<open>feed_chars s l = Inr s1\<close>
        \<open>feed_chars s1 t = Inr s2\<close>
      show ?thesis
        by (auto simp: process_line_def feed_chars_append)
    qed
  qed
qed

text \<open>The lines of a text without carriage returns: no line break before the end.\<close>

lemma split_lines_shape:
  assumes "CHR 0x0D \<notin> set u" and "CHR 0x0D \<notin> set cur" and "CHR 0x0A \<notin> set cur"
    and "x \<in> set (split_lines cur u)"
  shows "\<exists>l t. x = l @ t \<and> CHR 0x0A \<notin> set l \<and> CHR 0x0D \<notin> set l \<and> (t = [] \<or> t = [CHR 0x0A])"
  using assms
proof (induction u arbitrary: cur)
  case Nil
  then show ?case by (auto split: if_splits)
next
  case (Cons c u)
  show ?case
  proof (cases "c = CHR 0x0A")
    case True
    with Cons.prems(4) have "x = cur @ [CHR 0x0A] \<or> x \<in> set (split_lines [] u)" by simp
    with Cons.IH [of "[]"] Cons.prems(1-3) show ?thesis by auto
  next
    case False
    with Cons.IH [of "cur @ [c]"] Cons.prems show ?thesis by simp
  qed
qed

section \<open>Files\<close>

lemma read_lines_safe:
  assumes "\<forall>x\<in>set ls. \<exists>l t. x = l @ t \<and> CHR 0x0A \<notin> set l \<and> CHR 0x0D \<notin> set l
                                \<and> (t = [] \<or> t = [CHR 0x0A])"
    and "pstate s \<noteq> EAT_CRNL"
  shows "snd (read_lines s ls) = None
       \<or> snd (read_lines s ls) = Some field_limit_error
           \<and> 131072 < length (pfield s) + length (concat ls)"
  using assms
proof (induction ls arbitrary: s)
  case Nil
  then show ?case by simp
next
  case (Cons x ls)
  from Cons.prems(1) obtain l t
    where x: "x = l @ t" "CHR 0x0A \<notin> set l" "CHR 0x0D \<notin> set l" "t = [] \<or> t = [CHR 0x0A]"
    by auto
  note body = process_line_body [OF x(2,3) Cons.prems(2) x(4)]
  show ?case
  proof (cases "process_line s x")
    case (Inl e)
    with body x(1) show ?thesis by simp
  next
    case (Inr s')
    with body x(1)
    have st: "pstate s' = START_RECORD \<or> pstate s' = IN_QUOTED_FIELD"
      and len: "length (pfield s') \<le> length (pfield s) + length x"
      by simp_all
    show ?thesis
    proof (cases "pstate s' = START_RECORD")
      case True
      with Cons.IH [of parse_reset] Cons.prems(1) Inr show ?thesis
        by (auto split: prod.splits)
    next
      case False
      with st Cons.IH [of s'] Cons.prems(1) Inr len show ?thesis by auto
    qed
  qed
qed

lemma csv_records_safe:
  "snd (csv_records text) = None
   \<or> snd (csv_records text) = Some field_limit_error \<and> 131072 < length text"
proof -
  let ?u = "universal_newlines False text"
  have "\<forall>x\<in>set (split_lines [] ?u). \<exists>l t. x = l @ t \<and> CHR 0x0A \<notin> set l \<and> CHR 0x0D \<notin> set l
          \<and> (t = [] \<or> t = [CHR 0x0A])"
    using split_lines_shape [of ?u "[]"] by (simp add: universal_newlines_no_cr)
  from read_lines_safe [OF this, of parse_reset]
  show ?thesis
    using length_universal_newlines [of False "text"]
    by (auto simp: csv_records_def concat_split_lines simp flip: length_concat)
qed

text \<open>
  C21. Reading the input raises nothing but the field limit: the complaint of
  \<^verbatim>\<open>csv.reader\<close> about a line break in an unquoted field cannot occur on a file opened
  in text mode, although line 14 opens the input without \<^verbatim>\<open>newline=''\<close>; and a file
  of at most 131072 characters is read without any error, whatever it holds.
\<close>

theorem dict_reader_raises_only_field_limit:
  "(fieldnames (dict_reader text) = Inl e \<longrightarrow> e = field_limit_error)
   \<and> (rows_error (dict_reader text) = Some e \<longrightarrow> e = field_limit_error)
   \<and> (length text \<le> 131072 \<longrightarrow>
        rows_error (dict_reader text) = None \<and> (\<exists>ns. fieldnames (dict_reader text) = Inr ns))"
  using csv_records_safe [of "text"]
  by (cases "csv_records text"; cases "fst (csv_records text)")
     (auto simp: dict_reader_def split: option.splits)

theorem dict_reader_raises_only_field_limit_witness:
  "rows_error (dict_reader (''Ref,Rot'' @ [CHR 0x0D, CHR 0x0A] @ ''R1,90'')) = None
   \<and> fieldnames (dict_reader (''Ref,Rot'' @ [CHR 0x0D, CHR 0x0A] @ ''R1,90''))
       = Inr (Some [''Ref'', ''Rot''])"
  using dict_reader_raises_only_field_limit [of "''Ref,Rot'' @ [CHR 0x0D, CHR 0x0A] @ ''R1,90''"]
  by (simp add: csv_reader_eval)

end
