(* ===== verification/Input_Styles.thy ===== *)
theory Input_Styles
  imports End_To_End
begin

text \<open>
  The spellings of an input file. A placement file writes a field bare or in double
  quotes (KiCad quotes its text fields), and ends its lines with LF or with CR LF. The
  theory describes such files by their fields and the choices made in writing them
  (\<open>file_of\<close>), shows that \<^verbatim>\<open>csv.DictReader\<close> on a file opened as line 14 opens it finds
  the fields whatever the choices were, and concludes that two spellings of the same
  fields give the same conversion.
\<close>

type_synonym spelled_line = "bool \<times> (bool \<times> string) list"

definition spelling :: "bool \<times> string \<Rightarrow> string" where
  "spelling qf =
     (if fst qf \<or> list_ex special_char (snd qf)
      then CHR 0x22 # double_quotes (snd qf) @ [CHR 0x22]
      else snd qf)"

definition line_body :: "spelled_line \<Rightarrow> string" where
  "line_body l = join_fields (map spelling (snd l))"

definition line_text :: "spelled_line \<Rightarrow> string" where
  "line_text l = line_body l @ (if fst l then [CHR 0x0D, CHR 0x0A] else [CHR 0x0A])"

definition file_of :: "spelled_line list \<Rightarrow> string" where
  "file_of ls = concat (map line_text ls)"

definition line_fields :: "spelled_line \<Rightarrow> string list" where
  "line_fields l = map snd (snd l)"

definition line_ok :: "spelled_line \<Rightarrow> bool" where
  "line_ok l \<longleftrightarrow> line_body l \<noteq> [] \<and> list_all field_ok (line_fields l)"

section \<open>One field\<close>

lemma spelling_plain: "\<not> q \<Longrightarrow> spelling (q, f) = join_append f"
  by (simp add: spelling_def join_append_def)

lemma spelling_quoted: "q \<Longrightarrow> spelling (q, f) = CHR 0x22 # double_quotes f @ [CHR 0x22]"
  by (simp add: spelling_def)

lemma spelling_Nil_iff: "spelling (q, f) = [] \<longleftrightarrow> \<not> q \<and> f = []"
  by (auto simp: spelling_def)

lemma feed_spelling:
  assumes "at_field_start s" and "length f \<le> 131072"
  shows "feed_chars s (spelling (q, f)) =
           Inr (if q \<or> list_ex special_char f then s\<lparr>pstate := QUOTE_IN_QUOTED_FIELD, pfield := f\<rparr>
                else if f = [] then s
                else s\<lparr>pstate := IN_FIELD, pfield := f\<rparr>)"
proof (cases q)
  case True
  then show ?thesis
    using feed_quoted_start [OF assms] by (simp add: spelling_quoted del: feed_chars.simps)
next
  case False
  then show ?thesis
    using feed_join_append [OF assms] by (simp add: spelling_plain)
qed

lemma feed_spelling_delimiter:
  assumes "at_field_start s" and "length f \<le> 131072"
  shows "feed_chars s (spelling (q, f) @ '','') =
           Inr \<lparr>pstate = START_FIELD, pfield = [], pfields = pfields s @ [f]\<rparr>"
proof -
  have e: "pfield s = []" and st: "pstate s = START_RECORD \<or> pstate s = START_FIELD"
    using assms(1) by (simp_all add: at_field_start_def)
  show ?thesis
    using st
    by (auto simp: feed_chars_append feed_spelling [OF assms] e parse_process_char_def
        parse_save_field_def)
qed

lemma process_last_spelling:
  assumes "at_field_start s" and "length f \<le> 131072"
    and "pstate s = START_FIELD \<or> spelling (q, f) \<noteq> []"
  shows "process_line s (spelling (q, f) @ [CHR 0x0A]) =
           Inr \<lparr>pstate = START_RECORD, pfield = [], pfields = pfields s @ [f]\<rparr>"
proof -
  have e: "pfield s = []" and st: "pstate s = START_RECORD \<or> pstate s = START_FIELD"
    using assms(1) by (simp_all add: at_field_start_def)
  show ?thesis
    using st assms(3)
    by (auto simp: process_line_def feed_chars_append feed_spelling [OF assms(1,2)] e
        parse_process_char_def parse_save_field_def end_of_line_def spelling_Nil_iff)
qed

section \<open>One line\<close>

lemma process_spellings:
  assumes "at_field_start s" and "\<forall>qf\<in>set sfs. length (snd qf) \<le> 131072" and "sfs \<noteq> []"
    and "pstate s = START_FIELD \<or> join_fields (map spelling sfs) \<noteq> []"
  shows "process_line s (join_fields (map spelling sfs) @ [CHR 0x0A]) =
           Inr \<lparr>pstate = START_RECORD, pfield = [], pfields = pfields s @ map snd sfs\<rparr>"
  using assms
proof (induction sfs arbitrary: s)
  case Nil
  then show ?case by simp
next
  case (Cons qf sfs)
  obtain q f where qf: "qf = (q, f)" by (cases qf)
  show ?case
  proof (cases sfs)
    case Nil
    with Cons.prems qf show ?thesis by (simp add: process_last_spelling)
  next
    case (Cons g gs)
    let ?s = "\<lparr>pstate = START_FIELD, pfield = [], pfields = pfields s @ [f]\<rparr>"
    have "process_line ?s (join_fields (map spelling sfs) @ [CHR 0x0A]) =
        Inr \<lparr>pstate = START_RECORD, pfield = [], pfields = pfields ?s @ map snd sfs\<rparr>"
      using Cons.prems Cons by (intro Cons.IH) simp_all
    moreover have "feed_chars s (spelling (q, f) @ '','') = Inr ?s"
      using Cons.prems qf by (intro feed_spelling_delimiter) simp_all
    ultimately show ?thesis
      using process_line_append [of s "spelling (q, f) @ '',''"
          "join_fields (map spelling sfs) @ [CHR 0x0A]"] Cons qf
      by simp
  qed
qed

lemma process_spelled_line:
  assumes "line_ok l"
  shows "process_line parse_reset (line_body l @ [CHR 0x0A]) =
           Inr \<lparr>pstate = START_RECORD, pfield = [], pfields = line_fields l\<rparr>"
proof -
  from assms have ne: "snd l \<noteq> []"
    by (auto simp: line_ok_def line_body_def)
  have "process_line parse_reset (join_fields (map spelling (snd l)) @ [CHR 0x0A]) =
      Inr \<lparr>pstate = START_RECORD, pfield = [],
           pfields = pfields parse_reset @ map snd (snd l)\<rparr>"
    using assms ne
    by (intro process_spellings)
       (auto simp: line_ok_def line_body_def line_fields_def list_all_iff field_ok_def)
  then show ?thesis by (simp add: line_body_def line_fields_def)
qed

section \<open>A file\<close>

lemma set_spelling: "set (spelling qf) \<subseteq> insert (CHR 0x22) (set (snd qf))"
  by (auto simp: spelling_def)

lemma line_body_chars:
  assumes "c \<in> set (line_body l)"
  shows "c = CHR '','' \<or> c = CHR 0x22 \<or> (\<exists>f\<in>set (line_fields l). c \<in> set f)"
proof -
  from assms set_join_fields [of "map spelling (snd l)"]
  obtain qf where "c = CHR '','' \<or> (qf \<in> set (snd l) \<and> c \<in> set (spelling qf))"
    by (fastforce simp: line_body_def)
  with set_spelling show ?thesis by (fastforce simp: line_fields_def)
qed

lemma line_body_no_newline:
  assumes "line_ok l"
  shows "CHR 0x0D \<notin> set (line_body l)" and "CHR 0x0A \<notin> set (line_body l)"
  using assms line_body_chars [of "CHR 0x0D" l] line_body_chars [of "CHR 0x0A" l]
  by (auto simp: line_ok_def list_all_iff field_ok_def)

lemma universal_newlines_file_of:
  assumes "\<forall>l\<in>set ls. line_ok l"
  shows "universal_newlines False (file_of ls) = concat (map (\<lambda>l. line_body l @ [CHR 0x0A]) ls)"
  using assms
  by (induction ls)
     (simp_all add: file_of_def line_text_def universal_newlines_crlf universal_newlines_lf
        line_body_no_newline)

lemma split_lines_bodies:
  assumes "\<forall>l\<in>set ls. line_ok l"
  shows "split_lines [] (concat (map (\<lambda>l. line_body l @ [CHR 0x0A]) ls)) =
           map (\<lambda>l. line_body l @ [CHR 0x0A]) ls"
  using assms
  by (induction ls) (simp_all add: split_lines_line line_body_no_newline)

lemma read_lines_bodies:
  assumes "\<forall>l\<in>set ls. line_ok l"
  shows "read_lines parse_reset (map (\<lambda>l. line_body l @ [CHR 0x0A]) ls) =
           (map line_fields ls, None)"
  using assms
  by (induction ls) (simp_all add: process_spelled_line)

text \<open>The reader finds the fields of a file, however they are spelled.\<close>

lemma csv_records_file_of:
  assumes "\<forall>l\<in>set ls. line_ok l"
  shows "csv_records (file_of ls) = (map line_fields ls, None)"
  by (simp add: csv_records_def universal_newlines_file_of [OF assms]
      split_lines_bodies [OF assms] read_lines_bodies [OF assms])

text \<open>
  C28. The spelling of the input does not matter: two files that hold the same fields
  line by line, whichever fields they put in double quotes and whether they end their
  lines with LF or with CR LF, are converted to the same output with the same printed
  line.
\<close>

theorem input_spelling_irrelevant:
  assumes "\<forall>l\<in>set ls. line_ok l" and "\<forall>l\<in>set ls'. line_ok l"
    and "map line_fields ls' = map line_fields ls"
  shows "convert_files inp outp (Some (file_of ls')) err =
         convert_files inp outp (Some (file_of ls)) err"
proof -
  have "dict_reader (file_of ls') = dict_reader (file_of ls)"
    by (simp add: dict_reader_def csv_records_file_of [OF assms(1)]
        csv_records_file_of [OF assms(2)] assms(3))
  then show ?thesis by (simp add: convert_files_def file_world_def)
qed

theorem input_spelling_irrelevant_witness:
  "convert_files ''in.csv'' ''out.csv''
     (Some (''Ref,Rot'' @ [CHR 0x0D, CHR 0x0A]
            @ [CHR 0x22] @ ''R1'' @ [CHR 0x22] @ '',90'' @ [CHR 0x0D, CHR 0x0A])) None =
   convert_files ''in.csv'' ''out.csv''
     (Some (''Ref,Rot'' @ [CHR 0x0A] @ ''R1,90'' @ [CHR 0x0A])) None"
  using input_spelling_irrelevant
    [of "[(False, [(False, ''Ref''), (False, ''Rot'')]), (False, [(False, ''R1''), (False, ''90'')])]"
        "[(True, [(False, ''Ref''), (False, ''Rot'')]), (True, [(True, ''R1''), (False, ''90'')])]"
        "''in.csv''" "''out.csv''" None]
  by (simp add: file_of_def line_text_def line_body_def spelling_def special_char_def
      line_ok_def line_fields_def field_ok_def)

section \<open>An unclosed quote\<close>

text \<open>
  Inside quotes the machine takes every character but the quote as part of the field,
  line breaks and commas included, and the end of a line does not end the record.
\<close>

lemma feed_chars_inside_quotes:
  assumes "pstate s = IN_QUOTED_FIELD" and "CHR 0x22 \<notin> set l"
    and "length (pfield s) + length l \<le> 131072"
  shows "feed_chars s l = Inr (s\<lparr>pfield := pfield s @ l\<rparr>)"
  using assms
proof (induction l arbitrary: s)
  case Nil
  then show ?case by simp
next
  case (Cons c l)
  from Cons.prems have len: "length (pfield s) < 131072" and c: "c \<noteq> CHR 0x22" by auto
  have "parse_process_char s (Some c) = Inr (s\<lparr>pfield := pfield s @ [c]\<rparr>)"
    using Cons.prems(1) c by (simp add: parse_process_char_def parse_add_char_ok [OF len])
  moreover have "feed_chars (s\<lparr>pfield := pfield s @ [c]\<rparr>) l =
      Inr (s\<lparr>pfield := pfield s @ [c]\<rparr>\<lparr>pfield := pfield (s\<lparr>pfield := pfield s @ [c]\<rparr>) @ l\<rparr>)"
    using Cons.prems by (intro Cons.IH) simp_all
  ultimately show ?case by simp
qed

lemma process_line_inside_quotes:
  assumes "pstate s = IN_QUOTED_FIELD" and "CHR 0x22 \<notin> set l"
    and "length (pfield s) + length l \<le> 131072"
  shows "process_line s l = Inr (s\<lparr>pfield := pfield s @ l\<rparr>)"
  using assms(1) by (simp add: process_line_def feed_chars_inside_quotes [OF assms]
      parse_process_char_def)

lemma read_lines_inside_quotes:
  assumes "pstate s = IN_QUOTED_FIELD" and "CHR 0x22 \<notin> set (concat ls)"
    and "length (pfield s) + length (concat ls) \<le> 131072"
  shows "read_lines s ls = ([pfields s @ [pfield s @ concat ls]], None)"
  using assms
proof (induction ls arbitrary: s)
  case Nil
  then show ?case by (simp add: parse_save_field_def)
next
  case (Cons l ls)
  have "process_line s l = Inr (s\<lparr>pfield := pfield s @ l\<rparr>)"
    using Cons.prems by (intro process_line_inside_quotes) simp_all
  moreover have "read_lines (s\<lparr>pfield := pfield s @ l\<rparr>) ls =
      ([pfields (s\<lparr>pfield := pfield s @ l\<rparr>)
          @ [pfield (s\<lparr>pfield := pfield s @ l\<rparr>) @ concat ls]], None)"
    using Cons.prems by (intro Cons.IH) simp_all
  ultimately show ?case using Cons.prems(1) by simp
qed

lemma split_lines_Cons:
  "c \<noteq> CHR 0x0A \<Longrightarrow> \<exists>l ls. split_lines [] (c # u) = (c # l) # ls \<and> l @ concat ls = u"
proof -
  assume c: "c \<noteq> CHR 0x0A"
  obtain l ls where s: "split_lines [c] u = (c # l) # ls"
    using split_lines_first [of c "[]" u] by blast
  with concat_split_lines [of "[c]" u] c show ?thesis by auto
qed

text \<open>A text that opens a quote and never closes it is one record of one field.\<close>

lemma read_lines_unclosed:
  assumes "CHR 0x22 \<notin> set u" and "length u \<le> 131072"
  shows "read_lines parse_reset (split_lines [] (CHR 0x22 # u)) = ([[u]], None)"
proof -
  obtain l ls where s: "split_lines [] (CHR 0x22 # u) = (CHR 0x22 # l) # ls"
    and u: "l @ concat ls = u"
    using split_lines_Cons [of "CHR 0x22" u] by auto
  let ?q = "parse_reset\<lparr>pstate := IN_QUOTED_FIELD\<rparr>"
  have a: "parse_process_char parse_reset (Some CHR 0x22) = Inr ?q"
    by (simp add: parse_process_char_def)
  have "process_line ?q l = Inr (?q\<lparr>pfield := pfield ?q @ l\<rparr>)"
    using assms u by (intro process_line_inside_quotes) auto
  then have b: "process_line parse_reset (CHR 0x22 # l) = Inr (?q\<lparr>pfield := l\<rparr>)"
    by (simp add: process_line_def a)
  have "read_lines (?q\<lparr>pfield := l\<rparr>) ls =
      ([pfields (?q\<lparr>pfield := l\<rparr>) @ [pfield (?q\<lparr>pfield := l\<rparr>) @ concat ls]], None)"
    using assms u by (intro read_lines_inside_quotes) auto
  with b u show ?thesis unfolding s by simp
qed

lemma read_lines_append_complete:
  assumes "\<forall>l\<in>set ls. line_ok l"
  shows "read_lines parse_reset (map (\<lambda>l. line_body l @ [CHR 0x0A]) ls @ rest) =
           (map line_fields ls @ fst (read_lines parse_reset rest),
            snd (read_lines parse_reset rest))"
  using assms
  by (induction ls) (simp_all add: process_spelled_line split: prod.splits)

lemma split_lines_complete_append:
  assumes "\<forall>l\<in>set ls. line_ok l"
  shows "split_lines [] (concat (map (\<lambda>l. line_body l @ [CHR 0x0A]) ls) @ rest) =
           map (\<lambda>l. line_body l @ [CHR 0x0A]) ls @ split_lines [] rest"
  using assms
  by (induction ls) (simp_all add: split_lines_line line_body_no_newline)

lemma csv_records_unclosed:
  assumes "\<forall>l\<in>set ls. line_ok l" and "CHR 0x22 \<notin> set rest" and "length rest \<le> 131072"
  shows "csv_records (file_of ls @ CHR 0x22 # rest) =
           (map line_fields ls @ [[universal_newlines False rest]], None)"
proof -
  let ?u = "universal_newlines False rest"
  have q: "CHR 0x22 \<notin> set ?u" using assms(2) set_universal_newlines [of False rest] by auto
  have l: "length ?u \<le> 131072"
    using assms(3) length_universal_newlines [of False rest] by simp
  have "universal_newlines False (file_of ls @ CHR 0x22 # rest) =
      concat (map (\<lambda>l. line_body l @ [CHR 0x0A]) ls) @ CHR 0x22 # ?u"
    by (simp add: universal_newlines_after universal_newlines_file_of [OF assms(1)])
  then show ?thesis
    by (simp add: csv_records_def split_lines_complete_append [OF assms(1)]
        read_lines_append_complete [OF assms(1)] read_lines_unclosed [OF q l]
        del: split_lines.simps)
qed

text \<open>
  C30. A double quote that opens a field at the start of a line and is never closed
  takes the whole rest of the file, all later lines included, into that one field: the
  reader yields one row for it, with \<^verbatim>\<open>None\<close> under every other field name, instead of
  one row per line, and raises nothing as long as the rest has at most 131072
  characters.
\<close>

theorem unclosed_quote_swallows_rest:
  assumes "\<forall>l\<in>set (h # ls). line_ok l" and "CHR 0x22 \<notin> set rest" and "length rest \<le> 131072"
  shows "dict_reader (file_of (h # ls) @ CHR 0x22 # rest) =
     \<lparr>fieldnames = Inr (Some (line_fields h)),
      rows = map (dict_row (line_fields h))
               (map line_fields ls @ [[universal_newlines False rest]]),
      rows_error = None\<rparr>"
proof -
  have "\<forall>l\<in>set ls. line_fields l \<noteq> []"
    using assms(1) by (auto simp: line_ok_def line_body_def line_fields_def)
  then have "filter (\<lambda>r. r \<noteq> []) (map line_fields ls) = map line_fields ls"
    by (simp add: filter_id_conv)
  then show ?thesis
    by (simp add: dict_reader_def csv_records_unclosed [OF assms])
qed

theorem unclosed_quote_swallows_rest_witness:
  "dict_reader (''Ref,Rot'' @ [CHR 0x0A, CHR 0x22] @ ''R1,90'' @ [CHR 0x0A] @ ''R2,0'' @ [CHR 0x0A]) =
     \<lparr>fieldnames = Inr (Some [''Ref'', ''Rot'']),
      rows = [dict_row [''Ref'', ''Rot''] [''R1,90'' @ [CHR 0x0A] @ ''R2,0'' @ [CHR 0x0A]]],
      rows_error = None\<rparr>"
  using unclosed_quote_swallows_rest
    [of "(False, [(False, ''Ref''), (False, ''Rot'')])" "[]"
        "''R1,90'' @ [CHR 0x0A] @ ''R2,0'' @ [CHR 0x0A]"]
  by (simp add: file_of_def line_text_def line_body_def spelling_def special_char_def
      line_ok_def line_fields_def field_ok_def)

end
