(* ===== verification/Py_Float_Rounding.thy ===== *)
theory Py_Float_Rounding
  imports Py_Float_Literals
begin

text \<open>
  The number that \<^verbatim>\<open>float\<close> returns, measured against the real numbers:
  \<open>round_to_double n d\<close> is a binary64 number (at most 53 bits, exponent from -1074 to
  971) within half a unit in the last place of \<open>n / d\<close>, normalised unless subnormal,
  and it overflows exactly from \<open>2^1024 - 2^970\<close> on. Hence every float of the model is
  a binary64 number (\<open>float_wf\<close>) and every integer that \<^verbatim>\<open>int(float(x))\<close> returns is
  below \<open>2^1024\<close> in magnitude.
\<close>

definition float_wf :: "pyfloat \<Rightarrow> bool" where
  "float_wf f \<longleftrightarrow>
     (case f of
        Finite neg m e \<Rightarrow> m \<le> 2 ^ 53 \<and> - 1074 \<le> e \<and> e \<le> 971 \<and> (e = 971 \<longrightarrow> m < 2 ^ 53)
      | _ \<Rightarrow> True)"

section \<open>Scaling\<close>

lemma scaled_pos: "0 < d \<Longrightarrow> 0 < snd (scaled n d k)"
  by (simp add: scaled_def)

lemma scaled_ratio:
  assumes "0 < d"
  shows "real (fst (scaled n d k)) / real (snd (scaled n d k)) = real n / real d * 2 powi (- k)"
proof (cases "0 \<le> k")
  case True
  then show ?thesis
    using assms by (simp add: scaled_def power_int_def field_simps)
next
  case False
  then show ?thesis
    using assms by (simp add: scaled_def power_int_def field_simps)
qed

section \<open>Rounding to an integer\<close>

lemma round_half_even_real:
  assumes "0 < d"
  shows "\<bar>real (round_half_even n d) - real n / real d\<bar> \<le> 1 / 2"
proof -
  have "real (2 * d * round_half_even n d) \<le> real (2 * n + d)"
    and "real (2 * n) \<le> real (2 * d * round_half_even n d + d)"
    using round_half_even_bounds [OF assms, of n] by (simp_all only: of_nat_le_iff)
  with assms have "real (round_half_even n d) - real n / real d \<le> 1 / 2"
    and "- (1 / 2) \<le> real (round_half_even n d) - real n / real d"
    by (simp_all add: field_simps)
  then show ?thesis by linarith
qed

lemma round_half_even_tie_up:
  assumes "0 < d" and "even P" and "(2 * P - 1) * d \<le> 2 * n" and "0 < P"
  shows "P \<le> round_half_even n d"
proof (rule ccontr)
  assume "\<not> P \<le> round_half_even n d"
  then have lt: "round_half_even n d < P" by simp
  define q where "q = n div d"
  define r where "r = n mod d"
  have nq: "n = d * q + r" and rd: "r < d"
    using assms(1) by (simp_all add: q_def r_def)
  have "q \<le> round_half_even n d" by (simp add: round_half_even_def q_def)
  with lt have qP: "q < P" by simp
  have "2 * P * d \<le> 2 * n + d"
    using assms(3,4) by (cases P) (simp_all add: algebra_simps)
  then have "2 * P * d \<le> 2 * d * q + 2 * r + d" by (simp add: nq algebra_simps)
  also have "\<dots> < 2 * d * q + 3 * d" using rd by simp
  finally have "2 * P * d < (2 * q + 3) * d" by (simp add: algebra_simps)
  then have "2 * P < 2 * q + 3" using assms(1) by simp
  with qP have q: "P = q + 1" by simp
  have r2: "d \<le> 2 * r"
    using \<open>2 * P * d \<le> 2 * d * q + 2 * r + d\<close> by (simp add: q algebra_simps)
  have "odd q" using assms(2) q by simp
  have "round_half_even n d =
      (if 2 * r < d then q else if d < 2 * r then q + 1 else if even q then q else q + 1)"
    by (simp add: round_half_even_def q_def r_def)
  with r2 \<open>odd q\<close> have "round_half_even n d = q + 1" by simp
  with lt q show False by simp
qed

section \<open>The binade\<close>

lemma floorlog_powi:
  assumes "0 < n"
  shows "2 powi (int (floorlog 2 n) - 1) \<le> real n" and "real n < 2 powi int (floorlog 2 n)"
proof -
  have p: "0 < floorlog 2 n" using assms by (rule floorlog_2_pos)
  have "2 ^ (floorlog 2 n - 1) \<le> n" and "n < 2 ^ floorlog 2 n"
    using floorlog_bounds [of n 2] assms by simp_all
  then have "real (2 ^ (floorlog 2 n - 1)) \<le> real n" and "real n < real (2 ^ floorlog 2 n)"
    by (simp_all only: of_nat_le_iff of_nat_less_iff)
  moreover have "int (floorlog 2 n) - 1 = int (floorlog 2 n - 1)" using p by simp
  ultimately show "2 powi (int (floorlog 2 n) - 1) \<le> real n"
    and "real n < 2 powi int (floorlog 2 n)"
    by (simp_all only: power_int_of_nat) simp_all
qed

lemma powi_2_combine: "(2::real) powi a / 2 powi b * 2 powi c = 2 powi (a - b + c)"
  by (simp add: power_int_add power_int_diff)

lemma binade_start:
  assumes "0 < n" and "0 < d"
  defines "k0 \<equiv> int (floorlog 2 n) - int (floorlog 2 d) - 53"
  shows "2 ^ 52 < real n / real d * 2 powi (- k0)" and "real n / real d * 2 powi (- k0) < 2 ^ 54"
proof -
  let ?a = "int (floorlog 2 n)" and ?b = "int (floorlog 2 d)"
  have p: "(0::real) < 2 powi (- k0)" by simp
  have "2 powi (?a - 1) / 2 powi ?b < real n / real d"
    using floorlog_powi [OF assms(1)] floorlog_powi [OF assms(2)] assms(2)
    by (intro frac_less2) simp_all
  then have "2 powi (?a - 1) / 2 powi ?b * 2 powi (- k0) < real n / real d * 2 powi (- k0)"
    using p by (rule mult_strict_right_mono)
  moreover have "2 powi (?a - 1) / 2 powi ?b * 2 powi (- k0) = (2::real) ^ 52"
    by (simp only: powi_2_combine k0_def) simp
  ultimately show "2 ^ 52 < real n / real d * 2 powi (- k0)" by simp
  have "real n / real d < 2 powi ?a / 2 powi (?b - 1)"
    using floorlog_powi [OF assms(1)] floorlog_powi [OF assms(2)] assms(1)
    by (intro frac_less) simp_all
  then have "real n / real d * 2 powi (- k0) < 2 powi ?a / 2 powi (?b - 1) * 2 powi (- k0)"
    using p by (rule mult_strict_right_mono)
  moreover have "2 powi ?a / 2 powi (?b - 1) * 2 powi (- k0) = (2::real) ^ 54"
    by (simp only: powi_2_combine k0_def) simp
  ultimately show "real n / real d * 2 powi (- k0) < 2 ^ 54" by simp
qed

lemma scaled_le_iff:
  assumes "0 < d"
  shows "P * snd (scaled n d k) \<le> fst (scaled n d k) \<longleftrightarrow> real P \<le> real n / real d * 2 powi (- k)"
proof -
  have "real P \<le> real (fst (scaled n d k)) / real (snd (scaled n d k))
     \<longleftrightarrow> real (P * snd (scaled n d k)) \<le> real (fst (scaled n d k))"
    using scaled_pos [OF assms, of n k] by (simp add: field_simps)
  then show ?thesis
    by (simp only: scaled_ratio [OF assms] of_nat_le_iff)
qed

text \<open>
  The binade of \<open>n / d\<close> is the exponent \<open>k\<close> with \<open>2^52 \<le> n / (d * 2^k) < 2^53\<close>: scaled
  by it, the fraction has exactly 53 bits before the point.
\<close>

lemma binade_bounds:
  assumes "0 < n" and "0 < d"
  shows "2 ^ 52 \<le> real n / real d * 2 powi (- binade n d)"
    and "real n / real d * 2 powi (- binade n d) < 2 ^ 53"
proof -
  define k0 where "k0 = int (floorlog 2 n) - int (floorlog 2 d) - 53"
  define y where "y = real n / real d * 2 powi (- k0)"
  have y: "2 ^ 52 < y" "y < 2 ^ 54"
    using binade_start [OF assms] by (simp_all add: y_def k0_def)
  have "(2::real) powi (- (k0 + 1)) = 2 powi (- k0) / 2"
    using power_int_diff [of "2::real" "- k0" 1] by simp
  then have half: "real n / real d * 2 powi (- (k0 + 1)) = y / 2"
    by (simp only: y_def times_divide_eq_right)
  have b: "binade n d = (if 2 ^ 53 \<le> y then k0 + 1 else k0)"
    using scaled_le_iff [OF assms(2), of "2 ^ 53" n k0]
    by (simp add: binade_def Let_def k0_def [symmetric] y_def)
  define v where "v = real n / real d * 2 powi (- binade n d)"
  have "2 ^ 52 \<le> v \<and> v < 2 ^ 53"
  proof (cases "2 ^ 53 \<le> y")
    case True
    then have "v = y / 2" by (simp only: v_def b if_True half)
    with y True show ?thesis by simp
  next
    case False
    then have "v = y" by (simp only: v_def b if_False y_def)
    with y False show ?thesis by simp
  qed
  then show "2 ^ 52 \<le> real n / real d * 2 powi (- binade n d)"
    and "real n / real d * 2 powi (- binade n d) < 2 ^ 53"
    unfolding v_def by blast+
qed

section \<open>The rounded value\<close>

text \<open>
  The parts of \<open>round_to_double\<close> for a positive fraction: the exponent \<open>k\<close>, the
  fraction scaled by it, and the integer nearest to that.
\<close>

lemma round_to_double_parts:
  assumes "0 < n" and "0 < d"
  defines "k \<equiv> max (binade n d) (- 1074)"
  defines "y \<equiv> real n / real d * 2 powi (- k)"
  defines "m \<equiv> round_half_even (fst (scaled n d k)) (snd (scaled n d k))"
  shows "round_to_double n d = (if 971 < k \<or> (k = 971 \<and> 2 ^ 53 \<le> m) then None else Some (m, k))"
    and "\<bar>real m - y\<bar> \<le> 1 / 2" and "y < 2 ^ 53" and "k = binade n d \<Longrightarrow> 2 ^ 52 \<le> y"
proof -
  have "n \<noteq> 0" using assms(1) by simp
  then show "round_to_double n d =
      (if 971 < k \<or> (k = 971 \<and> 2 ^ 53 \<le> m) then None else Some (m, k))"
    unfolding round_to_double_def Let_def k_def m_def by (rule if_not_P)
  have "\<bar>real m - real (fst (scaled n d k)) / real (snd (scaled n d k))\<bar> \<le> 1 / 2"
    unfolding m_def by (rule round_half_even_real) (rule scaled_pos [OF assms(2)])
  then show "\<bar>real m - y\<bar> \<le> 1 / 2"
    by (simp only: y_def scaled_ratio [OF assms(2)])
  have "(2::real) powi (- k) \<le> 2 powi (- binade n d)"
    by (rule power_int_increasing) (simp_all add: k_def)
  then have "y \<le> real n / real d * 2 powi (- binade n d)"
    unfolding y_def by (intro mult_left_mono) simp_all
  with binade_bounds(2) [OF assms(1,2)] show "y < 2 ^ 53" by simp
  show "2 ^ 52 \<le> y" if "k = binade n d"
    using binade_bounds(1) [OF assms(1,2)] that by (simp add: y_def)
qed

lemma round_to_double_Some:
  assumes "0 < n" and "0 < d" and "round_to_double n d = Some (m, e)"
  defines "y \<equiv> real n / real d * 2 powi (- e)"
  shows "\<bar>real m - y\<bar> \<le> 1 / 2" and "y < 2 ^ 53" and "- 1074 \<le> e" and "e \<le> 971"
    and "e = 971 \<Longrightarrow> m < 2 ^ 53" and "e \<noteq> - 1074 \<Longrightarrow> 2 ^ 52 \<le> y"
proof -
  note parts = round_to_double_parts [OF assms(1,2)]
  from parts(1) assms(3) have e: "e = max (binade n d) (- 1074)"
    and m: "m = round_half_even (fst (scaled n d e)) (snd (scaled n d e))"
    and r: "\<not> (971 < e \<or> (e = 971 \<and> 2 ^ 53 \<le> m))"
    by (auto split: if_splits)
  show "\<bar>real m - y\<bar> \<le> 1 / 2" using parts(2) by (simp only: y_def m e)
  show "y < 2 ^ 53" using parts(3) by (simp only: y_def e)
  show "- 1074 \<le> e" by (simp add: e)
  show "e \<le> 971" using r by simp
  show "m < 2 ^ 53" if "e = 971" using r that by simp
  show "2 ^ 52 \<le> y" if "e \<noteq> - 1074"
  proof -
    from that have "max (binade n d) (- 1074) = binade n d"
      by (auto simp: e max_def split: if_splits)
    from parts(4) [OF this] show ?thesis by (simp only: y_def e)
  qed
qed

lemma nat_le_of_real_half: "real m \<le> real P + 1 / 2 \<Longrightarrow> m \<le> P"
  by linarith

lemma nat_ge_of_real_half: "real P - 1 / 2 \<le> real m \<Longrightarrow> P \<le> m"
  by linarith

text \<open>The result has at most 53 bits and an exponent of the binary64 format.\<close>

lemma round_to_double_wf:
  assumes "0 < d" and "round_to_double n d = Some (m, e)"
  shows "m \<le> 2 ^ 53 \<and> - 1074 \<le> e \<and> e \<le> 971 \<and> (e = 971 \<longrightarrow> m < 2 ^ 53)
       \<and> (0 < n \<longrightarrow> e = - 1074 \<or> 2 ^ 52 \<le> m)"
proof (cases "n = 0")
  case True
  with assms(2) show ?thesis by (simp add: round_to_double_def)
next
  case False
  then have n: "0 < n" by simp
  note s = round_to_double_Some [OF n assms]
  define y where "y = real n / real d * 2 powi (- e)"
  have a: "\<bar>real m - y\<bar> \<le> 1 / 2" and b: "y < 2 ^ 53"
    using s(1,2) by (simp_all only: y_def)
  from a have "real m \<le> y + 1 / 2" and "y - 1 / 2 \<le> real m" by linarith+
  with b have "real m \<le> real (2 ^ 53) + 1 / 2" by simp
  then have "m \<le> 2 ^ 53" by (rule nat_le_of_real_half)
  moreover have "2 ^ 52 \<le> m" if "e \<noteq> - 1074"
  proof -
    have "2 ^ 52 \<le> y" using s(6) [OF that] by (simp only: y_def)
    with \<open>y - 1 / 2 \<le> real m\<close> have "real (2 ^ 52) - 1 / 2 \<le> real m" by simp
    then show ?thesis by (rule nat_ge_of_real_half)
  qed
  ultimately show ?thesis using s(3,4,5) by blast
qed

text \<open>The result is within half a unit in the last place of the fraction.\<close>

lemma round_to_double_error:
  assumes "0 < d" and "round_to_double n d = Some (m, e)"
  shows "\<bar>real m * 2 powi e - real n / real d\<bar> \<le> 2 powi e / 2"
proof (cases "n = 0")
  case True
  with assms(2) show ?thesis by (simp add: round_to_double_def)
next
  case False
  then have n: "0 < n" by simp
  define y where "y = real n / real d * 2 powi (- e)"
  have x: "real n / real d = y * 2 powi e"
    by (simp add: y_def power_int_minus)
  have "\<bar>real m * 2 powi e - real n / real d\<bar> = \<bar>real m - y\<bar> * 2 powi e"
    by (simp add: x left_diff_distrib [symmetric] abs_mult)
  also have "\<dots> \<le> 1 / 2 * 2 powi e"
    using round_to_double_Some(1) [OF n assms] by (intro mult_right_mono) (simp_all add: y_def)
  finally show ?thesis by simp
qed

section \<open>Overflow\<close>

lemma round_half_even_tie_up_real:
  assumes "0 < d" and "even P" and "0 < P" and "real P - 1 / 2 \<le> real n / real d"
  shows "P \<le> round_half_even n d"
proof -
  have "real ((2 * P - 1) * d) = (2 * real P - 1) * real d"
    using assms(3) by (simp add: of_nat_diff)
  also have "\<dots> \<le> 2 * real n"
    using assms(1,4) by (simp add: field_simps)
  also have "\<dots> = real (2 * n)" by simp
  finally have "(2 * P - 1) * d \<le> 2 * n" by (simp only: of_nat_le_iff)
  with assms(1,2) show ?thesis using assms(3) by (rule round_half_even_tie_up)
qed

lemma overflow_numerals_up:
  "(2::real) ^ 52 * 2 powi 972 = 2 ^ 1024"
  "((2::real) ^ 53 - 1 / 2) * 2 powi 971 = 2 ^ 1024 - 2 ^ 970"
  by (simp_all add: power_int_def)

lemma overflow_numerals_down:
  "((2::real) ^ 1024 - 2 ^ 970) * 2 powi (- 970) = 2 ^ 54 - 1"
  "((2::real) ^ 1024 - 2 ^ 970) * 2 powi (- 971) = 2 ^ 53 - 1 / 2"
  by (simp_all add: power_int_def field_simps)

lemmas overflow_numerals = overflow_numerals_up overflow_numerals_down

text \<open>
  The value overflows exactly from \<open>2^1024 - 2^970\<close> on: the middle between the largest
  binary64 number and \<open>2^1024\<close>, which rounds up because the largest number is odd.
\<close>

lemma round_to_double_None_big:
  assumes n: "0 < n" and d: "0 < d" and none: "round_to_double n d = None"
  shows "2 ^ 1024 - 2 ^ 970 \<le> real n / real d"
proof -
  define k where "k = max (binade n d) (- 1074)"
  define y where "y = real n / real d * 2 powi (- k)"
  define m where "m = round_half_even (fst (scaled n d k)) (snd (scaled n d k))"
  note parts = round_to_double_parts [OF n d, folded k_def, folded y_def m_def]
  have x: "y * 2 powi k = real n / real d" by (simp add: y_def power_int_minus)
  from parts(2) have ym: "real m - 1 / 2 \<le> y" by linarith
  from parts(1) none consider "971 < k" | "k = 971" "2 ^ 53 \<le> m" by (auto split: if_splits)
  then show ?thesis
  proof cases
    case 1
    then have "k = binade n d" by (simp add: k_def max_def split: if_splits)
    from parts(4) [OF this] have "(2::real) ^ 52 \<le> y" .
    moreover have "(2::real) powi 972 \<le> 2 powi k"
      using 1 by (intro power_int_increasing) simp_all
    ultimately have "(2::real) ^ 52 * 2 powi 972 \<le> y * 2 powi k"
      by (intro mult_mono) simp_all
    then have "(2::real) ^ 1024 \<le> real n / real d"
      by (simp only: overflow_numerals x)
    moreover have "(2::real) ^ 1024 - 2 ^ 970 \<le> 2 ^ 1024" by simp
    ultimately show ?thesis by (rule order_trans [rotated])
  next
    case 2
    from 2(2) have "real (2 ^ 53) \<le> real m" by (simp only: of_nat_le_iff)
    with ym have "2 ^ 53 - 1 / 2 \<le> y" by simp
    then have "(2 ^ 53 - 1 / 2) * 2 powi 971 \<le> y * 2 powi 971"
      by (intro mult_right_mono) simp_all
    then show ?thesis by (simp only: overflow_numerals x [unfolded 2(1)])
  qed
qed

lemma round_to_double_big_None:
  assumes n: "0 < n" and d: "0 < d" and big: "2 ^ 1024 - 2 ^ 970 \<le> real n / real d"
  shows "round_to_double n d = None"
proof -
  define k where "k = max (binade n d) (- 1074)"
  define y where "y = real n / real d * 2 powi (- k)"
  define m where "m = round_half_even (fst (scaled n d k)) (snd (scaled n d k))"
  note parts = round_to_double_parts [OF n d, folded k_def, folded y_def m_def]
  have "971 < k \<or> (k = 971 \<and> 2 ^ 53 \<le> m)"
  proof (rule ccontr)
    assume c: "\<not> (971 < k \<or> (k = 971 \<and> 2 ^ 53 \<le> m))"
    show False
    proof (cases "k = 971")
      case True
      from big have "(2 ^ 1024 - 2 ^ 970) * 2 powi (- 971) \<le> real n / real d * 2 powi (- 971)"
        by (intro mult_right_mono) simp_all
      then have "real (2 ^ 53) - 1 / 2 \<le>
          real (fst (scaled n d k)) / real (snd (scaled n d k))"
        by (simp only: overflow_numerals scaled_ratio [OF d] True of_nat_power of_nat_numeral)
      then have "2 ^ 53 \<le> m"
        unfolding m_def by (intro round_half_even_tie_up_real scaled_pos d) simp_all
      with c True show False by simp
    next
      case False
      with c have "(2::real) powi (- 970) \<le> 2 powi (- k)"
        by (intro power_int_increasing) simp_all
      then have "(2 ^ 1024 - 2 ^ 970) * 2 powi (- 970) \<le> real n / real d * 2 powi (- k)"
        using big by (intro mult_mono) simp_all
      then have "2 ^ 54 - 1 \<le> y" by (simp only: overflow_numerals y_def)
      with parts(3) show False by simp
    qed
  qed
  with parts(1) show ?thesis by simp
qed

lemma round_to_double_None_iff:
  assumes "0 < d"
  shows "round_to_double n d = None \<longleftrightarrow> 2 ^ 1024 - 2 ^ 970 \<le> real n / real d"
proof (cases "n = 0")
  case True
  then show ?thesis by (simp add: round_to_double_def)
next
  case False
  then have "0 < n" by simp
  from round_to_double_None_big [OF this assms] round_to_double_big_None [OF this assms]
  show ?thesis by blast
qed

section \<open>Floats and integers of the model\<close>

lemma float_of_decimal_wf: "float_wf (float_of_decimal neg D E)"
proof -
  have "float_wf (case round_to_double n d of None \<Rightarrow> Infinity neg | Some (m, e) \<Rightarrow> Finite neg m e)"
    if "0 < d" for n d
    using round_to_double_wf [OF that, of n]
    by (auto simp: float_wf_def split: option.splits)
  then show ?thesis by (simp add: float_of_decimal_def)
qed

lemma parse_inf_or_nan_wf: "parse_inf_or_nan s = Some (f, rest) \<Longrightarrow> float_wf f"
  by (auto simp: parse_inf_or_nan_def float_wf_def split: option.splits prod.splits)

lemma string_to_double_wf: "string_to_double s = Some (f, rest) \<Longrightarrow> float_wf f"
  by (auto simp: string_to_double_def float_of_decimal_wf dest: parse_inf_or_nan_wf
      split: option.splits prod.splits)

lemma py_float_wf: "py_float v = Inr f \<Longrightarrow> float_wf f"
proof (cases v)
  case (PStr s)
  assume "py_float v = Inr f"
  with PStr show ?thesis
    by (auto simp: py_float_def float_from_string_def dest: string_to_double_wf
        split: option.splits if_splits)
next
  case (PInt n)
  assume "py_float v = Inr f"
  with PInt round_to_double_wf [of 1 "nat \<bar>n\<bar>"] show ?thesis
    by (auto simp: py_float_def float_from_int_def float_wf_def split: option.splits)
next
  case PNone
  assume "py_float v = Inr f"
  with PNone show ?thesis by simp
qed

lemma trunc_mag_bound:
  assumes "m \<le> 2 ^ 53" and "e \<le> 971" and "e = 971 \<longrightarrow> m < 2 ^ 53"
  shows "0 \<le> trunc_mag m e \<and> trunc_mag m e < 2 ^ 1024"
proof (cases "0 \<le> e")
  case False
  then have "trunc_mag m e = int (m div 2 ^ nat (- e))" by (simp add: trunc_mag_nonpos)
  moreover have "m div 2 ^ nat (- e) \<le> 2 ^ 53"
    using assms(1) by (rule order_trans [OF div_le_dividend])
  ultimately show ?thesis by simp
next
  case True
  show ?thesis
  proof (cases "e = 971")
    case True
    with assms(3) have "int m * 2 ^ 971 < 2 ^ 53 * 2 ^ 971" by simp
    with True show ?thesis by (simp add: trunc_mag_def)
  next
    case False
    with assms(2) \<open>0 \<le> e\<close> have "nat e \<le> 970" by simp
    then have "(2::int) ^ nat e \<le> 2 ^ 970" by (intro power_increasing) simp_all
    with assms(1) have "int m * 2 ^ nat e \<le> 2 ^ 53 * 2 ^ 970"
      by (intro mult_mono) simp_all
    with \<open>0 \<le> e\<close> show ?thesis by (simp add: trunc_mag_def)
  qed
qed

lemma int_of_float_bound: "int_of_float v = Inr n \<Longrightarrow> \<bar>n\<bar> < 2 ^ 1024"
proof -
  assume "int_of_float v = Inr n"
  then obtain f where f: "py_float v = Inr f" and n: "py_int f = Inr n"
    by (auto simp: int_of_float_def rbind_eq_Inr_iff)
  from n obtain neg m e where fe: "f = Finite neg m e"
    and ne: "n = (if neg then - trunc_mag m e else trunc_mag m e)"
    by (cases f) auto
  from py_float_wf [OF f] fe trunc_mag_bound [of m e] show ?thesis
    by (auto simp: float_wf_def ne)
qed

lemma float_of_decimal_fraction:
  "float_of_decimal neg D (- int f) =
     (case round_to_double D (10 ^ f) of None \<Rightarrow> Infinity neg | Some (m, e) \<Rightarrow> Finite neg m e)"
  by (cases "f = 0") (simp_all add: float_of_decimal_def)



end
