(* ===== verification/Rotation_Props.thy ===== *)
theory Rotation_Props
  imports Row_Mapper Py_Float_Rounding
begin

text \<open>
  Two properties of the Rotation column that hold for every input row: white space
  around the text of the rotation does not change the row, and the integer written is
  below \<open>2^1024\<close> in magnitude, because it is the integer part of a finite binary64
  number.
\<close>

section \<open>White space around a number\<close>

lemma space_ascii: "py_isspace c \<Longrightarrow> (of_char c :: nat) \<le> 127 \<and> c \<noteq> CHR ''_''"
  by (auto simp: py_isspace_def)

lemma strip_leading_spaces:
  "\<forall>c\<in>set ws. py_isspace c \<Longrightarrow> strip_leading (ws @ s) = strip_leading s"
  by (simp add: strip_leading_def dropWhile_append2)

lemma drop_trailing_rev_spaces:
  "\<forall>c\<in>set ws. py_isspace c \<Longrightarrow> t \<noteq> [] \<Longrightarrow>
   drop_trailing_rev (ws @ t) = drop_trailing_rev t"
proof (induction ws)
  case Nil
  then show ?case by simp
next
  case (Cons w ws)
  from Cons.prems(2) obtain d cs where "ws @ t = d # cs"
    by (cases "ws @ t") auto
  with Cons show ?case by simp
qed

lemma strip_trailing_spaces:
  "\<forall>c\<in>set ws. py_isspace c \<Longrightarrow> t \<noteq> [] \<Longrightarrow> strip_trailing (t @ ws) = strip_trailing t"
  by (simp add: strip_trailing_def drop_trailing_rev_spaces)

lemma strip_leading_append:
  "strip_leading s \<noteq> [] \<Longrightarrow> strip_leading (s @ t) = strip_leading s @ t"
  by (induction s) (auto simp: strip_leading_def)

lemma strip_leading_all_space:
  "strip_leading s = [] \<Longrightarrow> \<forall>c\<in>set ws. py_isspace c \<Longrightarrow> strip_leading (s @ ws) = []"
  by (induction s) (auto simp: strip_leading_def split: if_splits)

lemma float_from_string_spaces:
  assumes l: "\<forall>c\<in>set ws1. py_isspace c" and r: "\<forall>c\<in>set ws2. py_isspace c"
    and a: "\<forall>c\<in>set s. (of_char c :: nat) \<le> 127" and u: "CHR ''_'' \<notin> set s"
  shows "float_from_string (ws1 @ s @ ws2) = float_from_string s"
proof -
  have a': "\<forall>c\<in>set (ws1 @ s @ ws2). (of_char c :: nat) \<le> 127"
    using l r a by (auto dest: space_ascii)
  have u': "CHR ''_'' \<notin> set (ws1 @ s @ ws2)"
    using l r u by (auto dest: space_ascii)
  have lead: "strip_leading (ws1 @ s @ ws2) = strip_leading (s @ ws2)"
    using l by (rule strip_leading_spaces)
  show ?thesis
  proof (cases "strip_leading s = []")
    case True
    then show ?thesis
      by (simp add: float_from_string_def transform_ascii [OF a'] transform_ascii [OF a]
          strip_underscores_none [OF u'] strip_underscores_none [OF u] lead
          strip_leading_all_space [OF True r])
  next
    case False
    then have "strip_leading (s @ ws2) = strip_leading s @ ws2"
      by (rule strip_leading_append)
    with False show ?thesis
      by (simp add: float_from_string_def transform_ascii [OF a'] transform_ascii [OF a]
          strip_underscores_none [OF u'] strip_underscores_none [OF u] lead
          strip_trailing_spaces [OF r])
  qed
qed

lemma map_row_rotation_only:
  "int_of_float (cell row ''Rot'') = int_of_float (cell row' ''Rot'') \<Longrightarrow>
   \<forall>k\<in>{''Ref'', ''Val'', ''Package'', ''PosX'', ''PosY''}. cell row' k = cell row k \<Longrightarrow>
   map_row row' = map_row row"
  by (simp add: map_row_phases rotation_cell_def)

text \<open>
  C18. White space around the rotation is ignored: a row whose rotation has blanks, tabs
  or line breaks before or after its text gives the same output row as the row with the
  bare text.
\<close>

theorem map_row_rotation_spaces:
  assumes "\<forall>c\<in>set ws1. py_isspace c" and "\<forall>c\<in>set ws2. py_isspace c"
    and "\<forall>c\<in>set s. (of_char c :: nat) \<le> 127" and "CHR ''_'' \<notin> set s"
  shows "map_row (row(''Rot'' \<mapsto> PStr (ws1 @ s @ ws2))) = map_row (row(''Rot'' \<mapsto> PStr s))"
  by (rule map_row_rotation_only)
     (simp_all add: int_of_float_def py_float_def float_from_string_spaces [OF assms])

theorem map_row_rotation_spaces_witness:
  "map_row [''Ref'' \<mapsto> PStr ''R1'', ''Rot'' \<mapsto> PStr '' 90 ''] =
   map_row [''Ref'' \<mapsto> PStr ''R1'', ''Rot'' \<mapsto> PStr ''90'']"
  using map_row_rotation_spaces [of "'' ''" "'' ''" "''90''" "[''Ref'' \<mapsto> PStr ''R1'']"]
  by (simp add: py_isspace_def)

text \<open>
  C19. The Rotation cell of every produced row is an integer below \<open>2^1024\<close> in
  magnitude, whatever the input row holds: the conversion goes through a binary64
  number, and an infinite one is refused.
\<close>

theorem map_row_rotation_bound:
  assumes "map_row row = Inr out_row"
  shows "\<exists>n. out_row ! 5 = PInt n \<and> \<bar>n\<bar> < 2 ^ 1024"
proof -
  from assms obtain rot where rot: "rotation_cell (cell row ''Rot'') = Inr rot"
    and "out_row ! 5 = rot"
    by (auto simp: map_row_Inr_iff)
  moreover from rot have "\<exists>n. rot = PInt n \<and> \<bar>n\<bar> < 2 ^ 1024"
    by (auto simp: rotation_cell_def dest: int_of_float_bound split: sum.splits if_splits)
  ultimately show ?thesis by simp
qed

theorem map_row_rotation_bound_witness:
  "\<exists>n. [PStr '''', PStr '''', PStr '''', PStr '''', PStr '''', PInt 450,
         PInt 0, PInt 1, PInt 100, PInt 0, PInt 0, PInt 1, PInt 0] ! 5 = PInt n
       \<and> \<bar>n\<bar> < 2 ^ 1024"
proof -
  have "map_row [''Rot'' \<mapsto> PStr ''450''] =
      Inr [PStr '''', PStr '''', PStr '''', PStr '''', PStr '''', PInt 450,
           PInt 0, PInt 1, PInt 100, PInt 0, PInt 0, PInt 1, PInt 0]"
    by (simp add: map_row_eval)
  then show ?thesis by (rule map_row_rotation_bound)
qed

end
