(* ===== verification/Loop_Steps.thy ===== *)
theory Loop_Steps
  imports Stream_Driver
begin

text \<open>
  The loop of lines 54 to 77 as a transition system. A configuration holds the rows the
  reader has still to yield, the rows written so far, and the exception that left the
  loop, if any. One step takes the next row through the loop body: the row is written,
  or the body raises and the loop is left. The theory shows that the steps are
  deterministic, that every run ends, and that the configuration it ends in is the
  result of the function \<open>write_rows\<close>.
\<close>

type_synonym loop_cfg = "row list \<times> cells list \<times> py_exn option"

inductive loop_step :: "loop_cfg \<Rightarrow> loop_cfg \<Rightarrow> bool" where
  row_written: "map_row r = Inr out_row \<Longrightarrow> loop_step (r # rs, out, None) (rs, out @ [out_row], None)"
| row_raised: "map_row r = Inl e \<Longrightarrow> loop_step (r # rs, out, None) (rs, out, Some e)"

code_pred loop_step .

fun loop_final :: "loop_cfg \<Rightarrow> bool" where
  "loop_final (rs, out, err) \<longleftrightarrow> rs = [] \<or> err \<noteq> None"

inductive_cases loop_step_ConsE: "loop_step (r # rs, out, None) c"
inductive_cases loop_step_NilE: "loop_step ([], out, err) c"
inductive_cases loop_step_SomeE: "loop_step (rs, out, Some e) c"

section \<open>Single steps\<close>

lemma loop_step_deterministic: "loop_step c c1 \<Longrightarrow> loop_step c c2 \<Longrightarrow> c1 = c2"
  by (induction rule: loop_step.induct) (auto elim: loop_step_ConsE)

lemma loop_step_pending: "loop_step c c' \<Longrightarrow> length (fst c') < length (fst c)"
  by (induction rule: loop_step.induct) simp_all

lemma loop_final_iff: "loop_final c \<longleftrightarrow> (\<nexists>c'. loop_step c c')"
proof (cases c)
  case (fields rs out err)
  show ?thesis
  proof (cases "rs = [] \<or> err \<noteq> None")
    case True
    with fields show ?thesis by (auto elim: loop_step_NilE loop_step_SomeE)
  next
    case False
    then obtain r rs' where "rs = r # rs'" and "err = None" by (cases rs) auto
    with fields show ?thesis
      by (cases "map_row r") (auto intro: loop_step.intros)
  qed
qed

lemma loop_step_write_rows:
  "loop_step (rs, out, None) (rs', out', err) \<Longrightarrow>
   (case err of None \<Rightarrow> write_rows rs out = write_rows rs' out'
    | Some e \<Rightarrow> write_rows rs out = (out', Some e))"
  by (cases rs) (auto elim!: loop_step_ConsE loop_step_NilE)

section \<open>Runs\<close>

lemma run_write_rows:
  assumes "loop_step\<^sup>*\<^sup>* c c'" and "loop_final c'" and "snd (snd c) = None"
  shows "snd c' = write_rows (fst c) (fst (snd c))"
  using assms
proof (induction rule: converse_rtranclp_induct)
  case base
  then show ?case by (cases c') auto
next
  case (step c c1)
  obtain rs out where c: "c = (rs, out, None)" using step.prems(2) by (cases c) auto
  obtain rs1 out1 err1 where c1: "c1 = (rs1, out1, err1)" by (cases c1)
  note w = loop_step_write_rows [OF step.hyps(1) [unfolded c c1]]
  show ?case
  proof (cases err1)
    case None
    with step.IH step.prems(1) w c c1 show ?thesis by simp
  next
    case (Some e)
    with step.hyps(2) c1 have "c' = c1"
      by (auto elim: converse_rtranclpE loop_step_SomeE)
    with Some w c c1 show ?thesis by simp
  qed
qed

lemma run_exists:
  "\<exists>rs'. loop_step\<^sup>*\<^sup>* (rs, out, None) (rs', write_rows rs out)
         \<and> loop_final (rs', write_rows rs out)"
proof (induction rs arbitrary: out)
  case Nil
  show ?case by (intro exI [of _ "[]"]) simp
next
  case (Cons r rs)
  show ?case
  proof (cases "map_row r")
    case (Inl e)
    then have "loop_step (r # rs, out, None) (rs, out, Some e)" by (rule row_raised)
    with Inl show ?thesis by (intro exI [of _ rs]) auto
  next
    case (Inr out_row)
    then have "loop_step (r # rs, out, None) (rs, out @ [out_row], None)" by (rule row_written)
    moreover from Cons.IH [of "out @ [out_row]"] obtain rs'
      where "loop_step\<^sup>*\<^sup>* (rs, out @ [out_row], None) (rs', write_rows rs (out @ [out_row]))"
        and "loop_final (rs', write_rows rs (out @ [out_row]))"
      by blast
    ultimately show ?thesis
      using Inr by (intro exI [of _ rs']) (auto intro: converse_rtranclp_into_rtranclp)
  qed
qed




end
