(* ===== verification/Spec2Isabelle.thy ===== *)
theory Spec2Isabelle
  imports File_System Row_Types Reader_Safety Input_Styles Rotation_Props Loop_Steps
begin

text \<open>
  \<^bold>\<open>What is verified.\<close> The program \<^verbatim>\<open>src/convert_kicad_to_yy1.py\<close> converts a KiCad
  pick-and-place export into the CSV layout of the Neoden YY1: it writes twelve constant
  rows, then one row of 13 cells per input record. It has one function,
  \<^verbatim>\<open>convert_csv_to_neoden\<close>, and an entry point that checks the argument count. This
  development models the function statement by statement, as a shallow embedding in
  HOL, with Python's exceptions as values of a sum type.

  \<^bold>\<open>Theories and what they model.\<close>
  \<^item> \<open>KY_Prelude\<close>: the values of a cell (\<open>pyval\<close>: \<^verbatim>\<open>str\<close>, \<^verbatim>\<open>int\<close>, \<^verbatim>\<open>None\<close>), the
    exception classes (\<open>py_exn\<close>), results (\<open>'a res\<close>, \<open>Inl\<close> a raised exception),
    sequencing (\<open>rbind\<close>), \<^verbatim>\<open>try/except\<close> for one class (\<open>try_except\<close>), and the list
    operations of the source that can raise: \<^verbatim>\<open>list.index\<close> (\<open>index_of\<close>), subscript read
    (\<open>list_get\<close>) and subscript assignment (\<open>list_set\<close>).
  \<^item> \<open>Py_Float\<close>: \<^verbatim>\<open>int(float(x))\<close> of line 64 as CPython computes it: \<open>py_float\<close> with
    its string grammar (\<open>float_from_string\<close>: white space, underscores between digits,
    \<^verbatim>\<open>inf\<close>, \<^verbatim>\<open>infinity\<close>, \<^verbatim>\<open>nan\<close>, decimal literals with fraction and exponent),
    \<open>round_to_double\<close> (the nearest binary64 number, ties to even, overflow to infinity),
    \<open>py_int\<close> (truncation; \<^verbatim>\<open>ValueError\<close> on NaN, \<^verbatim>\<open>OverflowError\<close> on an infinity) and
    their composition \<open>int_of_float\<close>.
  \<^item> \<open>Py_Float_Literals\<close>: no new model, only theorems about \<open>Py_Float\<close>: the value of
    \<^verbatim>\<open>int(float(s))\<close> on signed decimal literals, for all strings of that shape.
  \<^item> \<open>Row_Mapper\<close>: lines 39 to 75. The tables \<open>output_header\<close>, \<open>header_map\<close> and
    \<open>fixed_values\<close>; \<open>set_col\<close> and \<open>get_col\<close> for
    \<^verbatim>\<open>out_row[output_header.index(name)]\<close>; \<open>populate\<close> for the loop of lines 58 to 60;
    \<open>convert_rotation\<close> for lines 63 to 66; \<open>set_fixed\<close> for lines 69 to 75; \<open>map_row\<close>
    for the whole body. The contract of a row is \<open>row_spec\<close>.
  \<^item> \<open>Preamble\<close>: lines 21 to 32, the rows \<open>preamble_rows\<close>.
  \<^item> \<open>Stream_Driver\<close>: \<open>write_rows\<close> is the loop of lines 54 to 77, \<open>convert_body\<close> and
    \<open>convert_csv_to_neoden\<close> the function with its handlers (lines 13 to 84), \<open>main\<close> the
    entry point (lines 86 to 97). The file system and the CSV reader answer through the
    record \<open>world\<close>; the result is an \<open>outcome\<close>: the rows handed to
    \<^verbatim>\<open>writer.writerow\<close>, in order, and the lines printed.
  \<^item> \<open>Csv_Writer\<close>: what \<^verbatim>\<open>writer.writerow\<close> (lines 21 to 32 and 77) appends to the
    file for the default dialect of line 18: \<open>cell_text\<close> (a string as it is, an
    \<^verbatim>\<open>int\<close> through \<open>str_int\<close>, \<^verbatim>\<open>None\<close> as the empty field), \<open>join_append\<close> (quotes
    around a field that holds a comma, a double quote, CR or LF, with double quotes
    doubled), \<open>join_fields\<close>, \<open>writerow\<close> and \<open>file_text\<close>.
  \<^item> \<open>Text_Output\<close>: \<open>output_text\<close>, the content of the output file after the function
    has run, and the expected lines \<open>preamble_lines\<close>.
  \<^item> \<open>Csv_Reader\<close>: how line 17 reads the input: \<open>universal_newlines\<close> (the file is
    opened in text mode, line 14), \<open>split_lines\<close>, the state machine of \<^verbatim>\<open>csv.reader\<close>
    (\<open>parse_process_char\<close> on the record \<open>rstate\<close>, with the field limit in
    \<open>parse_add_char\<close>), \<open>read_lines\<close> and \<open>csv_records\<close> for the records of a text,
    \<open>dict_row\<close> for the dictionary of a record, \<open>dict_reader\<close> for the \<open>reader\<close> that
    \<^verbatim>\<open>csv.DictReader(infile)\<close> is, and \<open>file_world\<close> for the two files.
  \<^item> \<open>End_To_End\<close>: \<open>convert_files\<close>, the function applied to an input text (or a
    missing file) and an output path.
  \<^item> \<open>File_System\<close>: the files as a store from paths to texts (\<open>filesystem\<close>),
    \<open>open_read\<close> and \<open>open_write\<close> for the two \<^verbatim>\<open>open\<close> calls of lines 14 and 15 (the
    second truncates), \<open>read_text\<close> for what the reader finds when it first reads (line
    35), \<open>close_write\<close> for the flush at the end of the \<^verbatim>\<open>with\<close> statement,
    \<open>convert_on\<close> for the function and \<open>main_on\<close> for the entry point as changes of the
    store. Input and output may be the same path here.
  \<^item> \<open>Loop_Steps\<close>: the loop of lines 54 to 77 once more, as the inductive step relation
    \<open>loop_step\<close> on configurations (rows to come, rows written, exception).
  \<^item> \<open>Py_Float_Rounding\<close>, \<open>Rotation_Props\<close>, \<open>Reader_Safety\<close>, \<open>Row_Types\<close>,
    \<open>Input_Styles\<close>: no new model of code, only vocabulary for statements (\<open>float_wf\<close>,
    \<open>field_limit_error\<close>, \<open>type_of\<close>, \<open>input_typed\<close>, \<open>output_typed\<close>, and \<open>file_of\<close>: an
    input file given by its fields, the fields it puts in quotes and its line ends) and
    theorems: the rounding of \<open>round_to_double\<close> measured against the real numbers;
    white space around and the size of the rotation; the errors the reader can raise;
    the types of the cells; what the reader finds in a file, however it is spelled.
  \<^item> This theory: the scenarios of the specification, run through the whole model, from
    the text of the input file to the text of the output file.

  \<^bold>\<open>How state and effects correspond.\<close> \<^verbatim>\<open>out_row\<close> is a list of cells passed from one
  assignment to the next. The output file is the list of rows written so far; \<open>None\<close>
  for \<open>written\<close> means the file was never opened. A raised exception is \<open>Inl e\<close> and
  propagates through \<open>rbind\<close> until a \<open>try_except\<close> or the handlers of lines 81 to 84
  turn it into a value or a printed line. The loop over the rows is structural recursion
  on the list of rows, so it needs no fuel and every run of the model ends. In
  \<open>File_System\<close> the files are a map from paths to texts inside the record
  \<open>filesystem\<close>; \<open>open_write\<close> sets the text at the output path to the empty text and
  \<open>close_write\<close> to the text written, and the reader takes the text at the input path
  from the store as it is between the two.

  \<^bold>\<open>What the lemmas show.\<close> For the rotation: on an optional sign followed by digits,
  with or without a point and fraction digits, \<^verbatim>\<open>int(float(s))\<close> is the integer part as
  written, provided all the digits read as one integer are below \<open>2^53\<close>; this rests on
  \<open>round_to_double_trunc\<close> (rounding \<open>D / d\<close> to the nearest double and truncating is
  \<open>D div d\<close>) and on \<open>round_half_even_bounds\<close> (rounding is off by at most a half).
  Per operation of the row mapper: its closed form and that it keeps the length of the
  row. For the row: equality with the contract, the exact set of exceptions that can leave the body, independence of unmapped fields. For the loop:
  order, and what is kept when a row raises. For the function: the outcome on every
  path (input missing, output not creatable, no header, reader failure, a row raising,
  success), and that the written rows always begin with the preamble and continue with
  rows of 13 cells. For the text: the preamble lines character by character, the form
  of a data line (twelve commas when the copied fields need no quotes; rotation and
  constants never quoted), the text of the file on every path, and that \<^verbatim>\<open>str\<close> of an
  integer is read back by \<^verbatim>\<open>int(float(...))\<close>. For the reader: what the writer wrote is
  read back field by field (\<open>csv_roundtrip\<close>, by simulation of the state machine on
  plain and quoted fields); the dictionary of a record by column position, its
  independence of the column order for distinct names, and \<^verbatim>\<open>None\<close> for the names a
  short record does not reach. From file to file: the outcome for an empty file, a
  header alone, a blank first line, a short line, and the scenario. For the rounding:
  \<open>round_to_double\<close> returns a number of at most 53 bits with an exponent between
  -1074 and 971, within half a unit in the last place of the fraction
  (\<open>round_to_double_error\<close>, \<open>round_to_double_wf\<close>), and overflows exactly from
  \<open>2^1024 - 2^970\<close> on (\<open>round_to_double_None_iff\<close>); hence every integer written to the
  Rotation column is below \<open>2^1024\<close> in magnitude. For the reader as a whole: the only
  exception it can raise on a file opened in text mode is the field limit, and not on
  a file of at most 131072 characters (\<open>csv_records_safe\<close>, by an invariant of the
  state machine along the lines of the file). The reader finds the fields of a file
  whichever of them are quoted and whether lines end with LF or CR LF
  (\<open>csv_records_file_of\<close>), so the spelling of the input has no influence on the
  conversion; a quote opened at the start of a line and never closed takes the rest of
  the file into one field (\<open>csv_records_unclosed\<close>). For the types: rows of the
  reader hold strings and \<^verbatim>\<open>None\<close>, produced rows five such cells and eight integers. For the
  files: with different paths \<open>convert_on\<close> is \<open>convert_files\<close> on the text of the input
  and changes the output path only; with equal paths the input is lost. For the step
  relation: it is deterministic, well-founded, and its finished runs are exactly the
  results of \<open>write_rows\<close>.

  \<^bold>\<open>Bounds and assumptions.\<close> Strings are lists of code points below 256, so digits and
  white space outside Latin-1 are outside the model; \<open>float_from_string\<close> agrees with
  CPython for strings of fewer than \<open>10^9\<close> digits, below which CPython's clamping of the
  exponent cannot change the rounded value. The bound \<open>2^53\<close> of the theorems on
  literals is the size of the significand of a double: every literal of at most 15
  digits is below it, and beyond it integers are no longer all representable. The texts
  of \<^verbatim>\<open>str(e)\<close> for \<^verbatim>\<open>TypeError\<close> and \<^verbatim>\<open>OverflowError\<close> are those of CPython 3.11.
  Writes to the opened output are assumed to succeed. The reader refuses a field of more than 131072 characters
  (\<open>parse_add_char\<close>); the theorems about reading say so in their hypotheses
  (\<open>field_ok\<close>). Recursion is structural everywhere (on the list of rows, of lines, of
  characters), so no fuel is needed; the step relation of \<open>Loop_Steps\<close> is shown
  well-founded by the number of rows to come. In \<open>File_System\<close> the reader sees the
  store as it is after the output was opened and before anything was flushed: the
  preamble has 645 characters (\<open>preamble_fits_buffer\<close>), fewer than the 8192 bytes of
  the buffer of the output file, and the reader reads for the first time at line 35,
  after the preamble was written into that buffer.

  \<^bold>\<open>Not modelled here.\<close> The reader and the writer are modelled for the default
  dialect only, from the behaviour of CPython 3.11: the three escape states of the
  reader cannot be entered without an escape character and are left out, and so is the
  key \<^verbatim>\<open>None\<close> under which \<^verbatim>\<open>csv.DictReader\<close> keeps the fields of an over-long record,
  which the converter never reads. The encoding of the texts as UTF-8 bytes (a byte
  order mark included), encoding errors, operating-system errors on reading other than
  a missing file, and writes that fail after the output was opened are outside the
  model; such errors enter as \<open>OtherError\<close> with their message through the record
  \<open>world\<close>. In \<open>File_System\<close> a file is its path: hard and symbolic links and two
  spellings of one path are not modelled, so \<open>same_path_loses_input\<close> speaks of equal
  path strings only. The round trip \<open>csv_roundtrip\<close> is stated for
  fields without line breaks; fields with line breaks are covered by the definitions
  and by evaluation on examples only.
\<close>

section \<open>Scenarios of the specification\<close>

definition scenario_row :: row where
  "scenario_row =
     [''Ref'' \<mapsto> PStr ''R1'', ''Val'' \<mapsto> PStr ''10k'', ''Package'' \<mapsto> PStr ''0402'',
      ''PosX'' \<mapsto> PStr ''12.5'', ''PosY'' \<mapsto> PStr ''34.2'', ''Rot'' \<mapsto> PStr ''90'',
      ''Side'' \<mapsto> PStr ''Top'']"

definition scenario_world :: "row list \<Rightarrow> world" where
  "scenario_world rs =
     \<lparr>open_in = Inr \<lparr>fieldnames = Inr (Some [''Ref'', ''Val'', ''Package'', ''PosX'', ''PosY'',
                                               ''Rot'', ''Side'']),
                       rows = rs, rows_error = None\<rparr>,
      open_out = None\<rparr>"

definition short_line_input :: string where
  "short_line_input =
     ''Ref,Rot'' @ [CHR 0x0A] @ ''R1,90'' @ [CHR 0x0A] @ ''R2'' @ [CHR 0x0A]
       @ ''R3,0'' @ [CHR 0x0A]"

section \<open>The scenario, step by step\<close>

lemma scenario_world_from_file:
  "file_world (Some scenario_input) None = scenario_world [scenario_row]"
  by (simp add: scenario_input_def scenario_world_def scenario_row_def csv_reader_eval)

lemma scenario_good_rows:
  "good_rows [scenario_row] =
     [[PStr ''R1'', PStr ''10k'', PStr ''0402'', PStr ''12.5'', PStr ''34.2'', PInt 90,
       PInt 0, PInt 1, PInt 100, PInt 0, PInt 0, PInt 1, PInt 0]]"
  by (simp add: scenario_row_def map_row_eval)

lemma scenario_writerow:
  "writerow [PStr ''R1'', PStr ''10k'', PStr ''0402'', PStr ''12.5'', PStr ''34.2'', PInt 90,
             PInt 0, PInt 1, PInt 100, PInt 0, PInt 0, PInt 1, PInt 0] =
     ''R1,10k,0402,12.5,34.2,90,0,1,100,0,0,1,0'' @ lineterminator"
  by (simp add: writerow_def cell_text_def join_append_def special_char_def str_int_def
      str_nat.simps)

lemma scenario_output_text:
  "output_text (convert_csv_to_neoden inp outp (scenario_world [scenario_row])) =
     Some (crlf_lines (preamble_lines @ [''R1,10k,0402,12.5,34.2,90,0,1,100,0,0,1,0'']))"
proof -
  have "output_text (convert_csv_to_neoden inp outp (scenario_world [scenario_row]))
      = Some (crlf_lines preamble_lines @ file_text (good_rows [scenario_row]))"
    by (simp add: scenario_world_def convert_csv_to_neoden_def output_text_convert_body
        del: good_rows.simps)
  then show ?thesis
    unfolding scenario_good_rows by (simp add: scenario_writerow)
qed

text \<open>
  The scenario of the specification: the input with header
  \<^verbatim>\<open>Ref,Val,Package,PosX,PosY,Rot,Side\<close> and the one record
  \<^verbatim>\<open>R1,10k,0402,12.5,34.2,90,Top\<close> gives the preamble followed by the row
  \<^verbatim>\<open>R1,10k,0402,12.5,34.2,90,0,1,100,0,0,1,0\<close> (the rotation and the constants as
  integers), and the success message; with no record it gives the preamble alone.
\<close>

theorem scenario_single_record:
  "convert_csv_to_neoden ''in.csv'' ''out.csv'' (scenario_world [scenario_row]) =
     \<lparr>written = Some (preamble_rows @
        [[PStr ''R1'', PStr ''10k'', PStr ''0402'', PStr ''12.5'', PStr ''34.2'', PInt 90,
          PInt 0, PInt 1, PInt 100, PInt 0, PInt 0, PInt 1, PInt 0]]),
      printed = [success_message ''in.csv'' ''out.csv'']\<rparr>
   \<and> convert_csv_to_neoden ''in.csv'' ''out.csv'' (scenario_world []) =
     \<lparr>written = Some preamble_rows, printed = [success_message ''in.csv'' ''out.csv'']\<rparr>"
  by (simp add: scenario_world_def scenario_row_def convert_csv_to_neoden_def
      convert_body_def write_rows_eval)



end
